theory Spec2Isabelle
  imports Complex_Main "HOL-Library.Sublist" "HOL-Library.AList"
begin

section \<open>Strings\<close>

text \<open>
  JavaScript strings are modelled as \<^typ>\<open>string\<close>: a character of the model is a code
  unit from U+0000 to U+00FF, and the strings of the model are the JavaScript strings
  made of such code units. \<open>String.prototype.includes\<close> is \<^const>\<open>sublist\<close>,
  \<open>startsWith\<close> is \<^const>\<open>prefix\<close>, \<open>endsWith\<close> is \<^const>\<open>suffix\<close>.
  White space is what \<open>\s\<close> and \<open>trim\<close> accept in that range: space, tab, line feed,
  vertical tab, form feed, carriage return and the no-break space U+00A0. The other
  white space of JavaScript (U+1680, U+2000 to U+200A, U+2028, U+2029, U+202F, U+205F,
  U+3000, U+FEFF) lies above U+00FF and has no character in the model.
\<close>

definition isSpace :: "char \<Rightarrow> bool" where
  "isSpace c \<longleftrightarrow>
     c \<in> set [CHR '' '', CHR 0x09, CHR 0x0A, CHR 0x0B, CHR 0x0C, CHR 0x0D, CHR 0xA0]"

definition trim :: "string \<Rightarrow> string" where
  "trim s = rev (dropWhile isSpace (rev (dropWhile isSpace s)))"

definition isUpper :: "char \<Rightarrow> bool" where
  "isUpper c \<longleftrightarrow> (65::nat) \<le> of_char c \<and> of_char c \<le> (90::nat)"

definition isLower :: "char \<Rightarrow> bool" where
  "isLower c \<longleftrightarrow> (97::nat) \<le> of_char c \<and> of_char c \<le> (122::nat)"

definition isDigit :: "char \<Rightarrow> bool" where
  "isDigit c \<longleftrightarrow> (48::nat) \<le> of_char c \<and> of_char c \<le> (57::nat)"

definition lowerChar :: "char \<Rightarrow> char" where
  "lowerChar c = (if isUpper c then char_of (of_char c + (32::nat)) else c)"

definition toLowerCase :: "string \<Rightarrow> string" where
  "toLowerCase s = map lowerChar s"

fun join :: "string \<Rightarrow> string list \<Rightarrow> string" where
  "join sep [] = []"
| "join sep [x] = x"
| "join sep (x # y # ys) = x @ sep @ join sep (y # ys)"

fun string_of_nat :: "nat \<Rightarrow> string" where
  "string_of_nat n =
     (if n < 10 then [char_of (48 + n)]
      else string_of_nat (n div 10) @ [char_of (48 + n mod 10)])"

text \<open>\<open>path.join(a, b)\<close> for an already resolved \<open>a\<close> and a plain segment \<open>b\<close>; the
  normalisation of \<open>.\<close> and \<open>..\<close> segments is not modelled.\<close>

definition path_join :: "string \<Rightarrow> string \<Rightarrow> string" where
  "path_join a b = (if b = [] then a else a @ ''/'' @ b)"

section \<open>Errors\<close>

text \<open>
  The error classes of \<open>types/index.ts\<close>, the plain \<open>Error\<close>, the CVSS evaluator's
  \<open>CVSSError\<close> and Node's \<open>ErrnoException\<close> (code and message).
\<close>

datatype error =
    ProjectExistsError string
  | ProjectNotFoundError string
  | FindingNotFoundError string
  | AuditTrailNotFoundError string
  | ProjectCompletedError string string
  | CVSSError string
  | Error string
  | ErrnoException string string

fun message :: "error \<Rightarrow> string" where
  "message (ProjectExistsError n) =
     ''Project \"'' @ n @ ''\" already exists. Cannot overwrite existing projects.''"
| "message (ProjectNotFoundError n) = ''Project \"'' @ n @ ''\" not found.''"
| "message (FindingNotFoundError n) = ''Finding \"'' @ n @ ''\" not found.''"
| "message (AuditTrailNotFoundError n) = ''Audit trail entry \"'' @ n @ ''\" not found.''"
| "message (ProjectCompletedError n operation) =
     ''Cannot '' @ operation @ '' on completed project \"'' @ n @ ''\". ''
       @ ''Completed projects are immutable for audit integrity.''"
| "message (CVSSError m) = m"
| "message (Error m) = m"
| "message (ErrnoException c m) = m"

text \<open>The test \<open>(error as NodeJS.ErrnoException).code === 'ENOENT'\<close>.\<close>

fun isENOENT :: "error \<Rightarrow> bool" where
  "isENOENT (ErrnoException c m) = (c = ''ENOENT'')"
| "isENOENT _ = False"

section \<open>Data model\<close>

datatype ProjectStatus = InProgress | Completed

datatype Severity = Critical | High | Medium | Low | Informative

record ProjectMetadata =
  pm_id :: string
  pm_name :: string
  pm_client :: "string option"
  pm_created :: nat
  pm_updated :: nat
  pm_scope :: "string list option"
  pm_status :: ProjectStatus
  pm_description :: "string option"

text \<open>\<open>InternalProjectIndex\<close>: a \<open>Map\<close> in insertion order and the optional pointer.\<close>

record InternalProjectIndex =
  projects :: "(string \<times> ProjectMetadata) list"
  lastActive :: "string option"

record FindingInput =
  title :: string
  severity :: Severity
  cwe :: "string option"
  cvssString :: "string option"
  components :: "string list option"
  description :: string
  evidence :: "string option"
  recommendations :: "string option"

record Finding = FindingInput +
  f_id :: string
  cvssScore :: "rat option"
  created :: nat
  updated :: nat

text \<open>The metadata block of a finding file, as \<open>createFinding\<close> and \<open>updateFinding\<close>
  build it: optional keys are present only when the value is defined.\<close>

record FindingFrontmatter =
  fm_id :: string
  fm_title :: string
  fm_severity :: Severity
  fm_created :: nat
  fm_updated :: nat
  fm_cwe :: "string option"
  fm_cvssString :: "string option"
  fm_cvssScore :: "rat option"
  fm_components :: "string list option"

record AuditTrailInput =
  a_title :: string
  a_description :: string
  a_tools :: "string list option"
  a_methodology :: "string option"
  a_results :: "string option"
  a_notes :: "string option"

record AuditTrailEntry = AuditTrailInput +
  a_id :: string
  a_created :: nat

record AuditFrontmatter =
  am_id :: string
  am_title :: string
  am_created :: nat
  am_tools :: "string list option"
  am_methodology :: "string option"
  am_results :: "string option"
  am_notes :: "string option"

section \<open>File system\<close>

text \<open>
  A file holds the value that was serialised into it: \<open>JSON.stringify\<close>/\<open>JSON.parse\<close>
  and the metadata block of gray-matter with js-yaml are taken to reproduce the data they
  were given, so the model keeps the data and not the text. The body of a record file is
  kept as text. \<open>Unparsable\<close> is a file whose text the parser rejects.
\<close>

datatype content =
    IndexJson InternalProjectIndex
  | ProjectJson ProjectMetadata
  | FindingMd FindingFrontmatter string
  | AuditMd AuditFrontmatter string
  | Unparsable string

datatype node = Dir nat | File content nat

fun mtimeMs :: "node \<Rightarrow> nat" where
  "mtimeMs (Dir t) = t"
| "mtimeMs (File c t) = t"

fun isDirectory :: "node \<Rightarrow> bool" where
  "isDirectory (Dir t) = True"
| "isDirectory (File c t) = False"

datatype fsop =
  OpAccess | OpMkdir | OpWriteFile | OpRename | OpUnlink | OpRm | OpReadFile | OpReaddir | OpStat

record 'a CacheEntry =
  ce_data :: 'a
  ce_lastModified :: nat
  ce_lastAccessed :: nat

record 'a LRUCache =
  cache :: "(string \<times> 'a CacheEntry) list"
  maxSize :: nat

text \<open>
  The state is the \<open>StorageManager\<close> instance together with the part of the world it
  acts on: the directory tree as an association list from paths to nodes in the order
  \<open>readdir\<close> reports them, the clock, and the outcomes of what the model does not compute
  (\<open>faults\<close>: the operations the operating system refuses; \<open>lockBusy\<close>: the resource
  locks another operation holds; \<open>yamlLength\<close>: the length of the metadata block's text;
  \<open>cvssLib\<close>: the CVSS library).
\<close>

record state =
  workingDir :: string
  files :: "(string \<times> node) list"
  now :: nat
  faults :: "fsop \<Rightarrow> string \<Rightarrow> bool"
  lockBusy :: "string \<Rightarrow> bool"
  NODE_ENV :: "string option"
  VITEST :: "string option"
  yamlSizeLimit :: nat
  yamlLength :: "FindingFrontmatter \<Rightarrow> nat"
  auditYamlLength :: "AuditFrontmatter \<Rightarrow> nat"
  lockStaleMs :: nat
  cvssLib :: "string \<Rightarrow> (string \<times> string) + rat"
  projectIndexCache :: "InternalProjectIndex option"
  instanceLockRelease :: bool
  findingsCache :: "Finding list LRUCache"
  auditTrailsCache :: "AuditTrailEntry list LRUCache"

type_synonym 'a io = "state \<Rightarrow> (error + 'a) \<times> state"

definition return :: "'a \<Rightarrow> 'a io" where
  "return x st = (Inr x, st)"

definition throw :: "error \<Rightarrow> 'a io" where
  "throw e st = (Inl e, st)"

definition bind :: "'a io \<Rightarrow> ('a \<Rightarrow> 'b io) \<Rightarrow> 'b io" where
  "bind m f st = (case m st of (Inl e, st') \<Rightarrow> (Inl e, st') | (Inr x, st') \<Rightarrow> f x st')"

text \<open>\<open>try { m } catch (error) { h(error) }\<close>.\<close>

definition catch :: "'a io \<Rightarrow> (error \<Rightarrow> 'a io) \<Rightarrow> 'a io" where
  "catch m h st = (case m st of (Inl e, st') \<Rightarrow> h e st' | (Inr x, st') \<Rightarrow> (Inr x, st'))"

text \<open>\<open>try { m } catch { }\<close>: the outcome is dropped.\<close>

definition ignoreErrors :: "'a io \<Rightarrow> unit io" where
  "ignoreErrors m st = (Inr (), snd (m st))"

definition dirname :: "string \<Rightarrow> string" where
  "dirname p = rev (drop 1 (dropWhile (\<lambda>c. c \<noteq> CHR ''/'') (rev p)))"

definition eacces :: "string \<Rightarrow> error" where
  "eacces p = ErrnoException ''EACCES'' (''EACCES: permission denied, '' @ p)"

definition enoent :: "string \<Rightarrow> error" where
  "enoent p = ErrnoException ''ENOENT'' (''ENOENT: no such file or directory, '' @ p)"

definition fs_access :: "string \<Rightarrow> unit io" where
  "fs_access p st =
     (if faults st OpAccess p then (Inl (eacces p), st)
      else case map_of (files st) p of
        None \<Rightarrow> (Inl (enoent p), st)
      | Some n \<Rightarrow> (Inr (), st))"

text \<open>The ancestors of a path, outermost first, and the path itself.\<close>

definition ancestors :: "string \<Rightarrow> string list" where
  "ancestors p = [take n p. n \<leftarrow> [1..<length p], p ! n = CHR ''/''] @ [p]"

fun mkdirs :: "nat \<Rightarrow> string list \<Rightarrow> (string \<times> node) list \<Rightarrow> (string \<times> node) list option" where
  "mkdirs t [] fs = Some fs"
| "mkdirs t (d # ds) fs =
     (case map_of fs d of
        None \<Rightarrow> mkdirs t ds (fs @ [(d, Dir t)])
      | Some (Dir t') \<Rightarrow> mkdirs t ds fs
      | Some (File c t') \<Rightarrow> None)"

text \<open>\<open>fs.mkdir(p, {recursive: true})\<close>.\<close>

definition fs_mkdir :: "string \<Rightarrow> unit io" where
  "fs_mkdir p st =
     (if faults st OpMkdir p then (Inl (eacces p), st)
      else case mkdirs (now st) (ancestors p) (files st) of
        None \<Rightarrow> (Inl (ErrnoException ''EEXIST'' (''EEXIST: file already exists, '' @ p)), st)
      | Some fs' \<Rightarrow> (Inr (), st\<lparr>files := fs'\<rparr>))"

definition parentIsDir :: "(string \<times> node) list \<Rightarrow> string \<Rightarrow> bool" where
  "parentIsDir fs p =
     (dirname p = [] \<or> (case map_of fs (dirname p) of Some (Dir t) \<Rightarrow> True | _ \<Rightarrow> False))"

definition fs_writeFile :: "string \<Rightarrow> content \<Rightarrow> unit io" where
  "fs_writeFile p c st =
     (if faults st OpWriteFile p then (Inl (eacces p), st)
      else if \<not> parentIsDir (files st) p then (Inl (enoent p), st)
      else case map_of (files st) p of
        Some (Dir t) \<Rightarrow>
          (Inl (ErrnoException ''EISDIR'' (''EISDIR: illegal operation on a directory, '' @ p)), st)
      | _ \<Rightarrow> (Inr (), st\<lparr>files := AList.update p (File c (now st)) (files st)\<rparr>))"

text \<open>\<open>fs.rename\<close>; the store renames regular files only.\<close>

definition fs_rename :: "string \<Rightarrow> string \<Rightarrow> unit io" where
  "fs_rename src dst st =
     (if faults st OpRename src then (Inl (eacces src), st)
      else case map_of (files st) src of
        None \<Rightarrow> (Inl (enoent src), st)
      | Some (Dir t) \<Rightarrow>
          (Inl (ErrnoException ''EPERM'' (''EPERM: operation not permitted, '' @ src)), st)
      | Some (File c t) \<Rightarrow>
          (if \<not> parentIsDir (files st) dst then (Inl (enoent dst), st)
           else case map_of (files st) dst of
             Some (Dir t') \<Rightarrow>
               (Inl (ErrnoException ''EISDIR''
                  (''EISDIR: illegal operation on a directory, '' @ dst)), st)
           | _ \<Rightarrow>
               (Inr (), st\<lparr>files := AList.update dst (File c t) (AList.delete src (files st))\<rparr>)))"

definition fs_unlink :: "string \<Rightarrow> unit io" where
  "fs_unlink p st =
     (if faults st OpUnlink p then (Inl (eacces p), st)
      else case map_of (files st) p of
        None \<Rightarrow> (Inl (enoent p), st)
      | Some (Dir t) \<Rightarrow>
          (Inl (ErrnoException ''EISDIR'' (''EISDIR: illegal operation on a directory, '' @ p)), st)
      | Some (File c t) \<Rightarrow> (Inr (), st\<lparr>files := AList.delete p (files st)\<rparr>))"

definition under :: "string \<Rightarrow> string \<Rightarrow> bool" where
  "under p q \<longleftrightarrow> q = p \<or> prefix (p @ ''/'') q"

text \<open>\<open>fs.rm(p, {recursive: true, force: true})\<close>: a missing path is not an error.\<close>

definition fs_rm :: "string \<Rightarrow> unit io" where
  "fs_rm p st =
     (if faults st OpRm p then (Inl (eacces p), st)
      else (Inr (), st\<lparr>files := filter (\<lambda>(q, n). \<not> under p q) (files st)\<rparr>))"

definition fs_readFile :: "string \<Rightarrow> content io" where
  "fs_readFile p st =
     (if faults st OpReadFile p then (Inl (eacces p), st)
      else case map_of (files st) p of
        None \<Rightarrow> (Inl (enoent p), st)
      | Some (Dir t) \<Rightarrow>
          (Inl (ErrnoException ''EISDIR'' (''EISDIR: illegal operation on a directory, '' @ p)), st)
      | Some (File c t) \<Rightarrow> (Inr c, st))"

text \<open>The name of \<open>q\<close> inside directory \<open>p\<close>, when \<open>q\<close> is a direct child of \<open>p\<close>.\<close>

definition childName :: "string \<Rightarrow> string \<Rightarrow> string option" where
  "childName p q =
     (if prefix (p @ ''/'') q \<and> drop (length p + 1) q \<noteq> []
         \<and> CHR ''/'' \<notin> set (drop (length p + 1) q)
      then Some (drop (length p + 1) q) else None)"

definition children :: "(string \<times> node) list \<Rightarrow> string \<Rightarrow> (string \<times> node) list" where
  "children fs p =
     concat (map (\<lambda>(q, n). case childName p q of None \<Rightarrow> [] | Some name \<Rightarrow> [(name, n)]) fs)"

text \<open>\<open>fs.readdir(p, {withFileTypes: true})\<close>: names with their nodes.\<close>

definition fs_readdir :: "string \<Rightarrow> (string \<times> node) list io" where
  "fs_readdir p st =
     (if faults st OpReaddir p then (Inl (eacces p), st)
      else case map_of (files st) p of
        None \<Rightarrow> (Inl (enoent p), st)
      | Some (File c t) \<Rightarrow>
          (Inl (ErrnoException ''ENOTDIR'' (''ENOTDIR: not a directory, '' @ p)), st)
      | Some (Dir t) \<Rightarrow> (Inr (children (files st) p), st))"

definition fs_stat :: "string \<Rightarrow> node io" where
  "fs_stat p st =
     (if faults st OpStat p then (Inl (eacces p), st)
      else case map_of (files st) p of
        None \<Rightarrow> (Inl (enoent p), st)
      | Some n \<Rightarrow> (Inr n, st))"

section \<open>Listing cache\<close>

text \<open>A JavaScript \<open>number\<close> as the constructor of \<open>LRUCache\<close> tests it.\<close>

datatype number = Num rat | NaN | PosInfinity | NegInfinity

text \<open>\<open>constructor(maxSize: number = 50)\<close>: the argument is \<open>None\<close> when it is omitted.\<close>

definition LRUCache_maxSize :: "number option \<Rightarrow> nat" where
  "LRUCache_maxSize arg =
     (case arg of
        None \<Rightarrow> 50
      | Some (Num r) \<Rightarrow>
          (if r < 1 then 50 else if r > 10000 then 10000 else nat \<lfloor>r\<rfloor>)
      | Some _ \<Rightarrow> 50)"

definition new_LRUCache :: "number option \<Rightarrow> 'a LRUCache" where
  "new_LRUCache arg = \<lparr>cache = [], maxSize = LRUCache_maxSize arg\<rparr>"

text \<open>\<open>evictIfNeeded\<close>: the first key of the map is removed, unless it is falsy (the
  empty string).\<close>

definition evictIfNeeded :: "'a LRUCache \<Rightarrow> 'a LRUCache" where
  "evictIfNeeded c =
     (if length (cache c) \<le> maxSize c then c
      else case cache c of
        [] \<Rightarrow> c
      | (firstKey, e) # rest \<Rightarrow>
          (if firstKey \<noteq> [] then c\<lparr>cache := AList.delete firstKey (cache c)\<rparr> else c))"

definition lru_set :: "'a LRUCache \<Rightarrow> string \<Rightarrow> 'a \<Rightarrow> nat \<Rightarrow> nat \<Rightarrow> 'a LRUCache" where
  "lru_set c key d lastModified t =
     evictIfNeeded
       (c\<lparr>cache := AList.delete key (cache c)
            @ [(key, \<lparr>ce_data = d, ce_lastModified = lastModified, ce_lastAccessed = t\<rparr>)]\<rparr>)"

definition lru_get ::
    "'a LRUCache \<Rightarrow> string \<Rightarrow> nat \<Rightarrow> 'a CacheEntry option \<times> 'a LRUCache" where
  "lru_get c key t =
     (case map_of (cache c) key of
        None \<Rightarrow> (None, c)
      | Some e \<Rightarrow>
          (Some (e\<lparr>ce_lastAccessed := t\<rparr>),
           c\<lparr>cache := AList.delete key (cache c) @ [(key, e\<lparr>ce_lastAccessed := t\<rparr>)]\<rparr>))"

definition lru_delete :: "'a LRUCache \<Rightarrow> string \<Rightarrow> 'a LRUCache" where
  "lru_delete c key = c\<lparr>cache := AList.delete key (cache c)\<rparr>"

text \<open>
  \<open>getServerConfig().cacheSize\<close> of \<open>utils/env.ts\<close>: the variable must match \<open>^\d+$\<close> and
  lie between 1 and 10000; when the validation of the environment fails (this variable or
  another one, \<open>othersValid\<close>), every setting falls back to its default.
\<close>

definition digitsValue :: "string \<Rightarrow> nat" where
  "digitsValue s = foldl (\<lambda>acc c. 10 * acc + (of_char c - 48)) 0 s"

definition cacheSizeVarValid :: "string option \<Rightarrow> bool" where
  "cacheSizeVarValid v =
     (case v of
        None \<Rightarrow> True
      | Some s \<Rightarrow> s \<noteq> [] \<and> list_all isDigit s \<and> 1 \<le> digitsValue s \<and> digitsValue s \<le> 10000)"

definition config_cacheSize :: "bool \<Rightarrow> string option \<Rightarrow> nat" where
  "config_cacheSize othersValid v =
     (if othersValid \<and> cacheSizeVarValid v
      then (case v of None \<Rightarrow> 50 | Some s \<Rightarrow> digitsValue s)
      else 50)"

text \<open>The capacity of the two listing caches of a \<open>StorageManager\<close>.\<close>

definition listingCacheCapacity :: "bool \<Rightarrow> string option \<Rightarrow> nat" where
  "listingCacheCapacity othersValid v =
     LRUCache_maxSize (Some (Num (of_nat (config_cacheSize othersValid v))))"

text \<open>The operations of the cache, to speak about every history of calls.\<close>

datatype 'a lru_op =
  LruGet string nat | LruSet string 'a nat nat | LruDelete string | LruClear

fun opKey :: "'a lru_op \<Rightarrow> string option" where
  "opKey (LruGet k t) = Some k"
| "opKey (LruSet k d lm t) = Some k"
| "opKey (LruDelete k) = Some k"
| "opKey LruClear = None"

fun lru_step :: "'a LRUCache \<Rightarrow> 'a lru_op \<Rightarrow> 'a LRUCache" where
  "lru_step c (LruGet k t) = snd (lru_get c k t)"
| "lru_step c (LruSet k d lm t) = lru_set c k d lm t"
| "lru_step c (LruDelete k) = lru_delete c k"
| "lru_step c LruClear = c\<lparr>cache := []\<rparr>"

definition lru_run :: "'a LRUCache \<Rightarrow> 'a lru_op list \<Rightarrow> 'a LRUCache" where
  "lru_run c ops = foldl lru_step c ops"

text \<open>The time \<open>Date.now()\<close> of a call that records an access; a history is
  \<open>clockOrdered\<close> when these times do not decrease.\<close>

fun opTime :: "'a lru_op \<Rightarrow> nat option" where
  "opTime (LruGet k t) = Some t"
| "opTime (LruSet k d lm t) = Some t"
| "opTime (LruDelete k) = None"
| "opTime LruClear = None"

definition clockOrdered :: "'a lru_op list \<Rightarrow> bool" where
  "clockOrdered ops \<longleftrightarrow> sorted (List.map_filter opTime ops)"

definition lastAccessedOf :: "string \<times> 'a CacheEntry \<Rightarrow> nat" where
  "lastAccessedOf p = ce_lastAccessed (snd p)"

text \<open>The entries are in the order of their last access, and their times are among \<open>T\<close>.\<close>

definition inOrder :: "nat set \<Rightarrow> (string \<times> 'a CacheEntry) list \<Rightarrow> bool" where
  "inOrder T xs \<longleftrightarrow> sorted (map lastAccessedOf xs) \<and> lastAccessedOf ` set xs \<subseteq> T"

text \<open>The capacity as the specification words it: the configured size clamped to the
  range from 1 to 10000.\<close>

definition spec_clampedCapacity :: "rat \<Rightarrow> nat" where
  "spec_clampedCapacity r = nat (max 1 (min 10000 \<lfloor>r\<rfloor>))"

definition lru_ok :: "'a LRUCache \<Rightarrow> bool" where
  "lru_ok c \<longleftrightarrow> length (cache c) \<le> maxSize c \<and> [] \<notin> fst ` set (cache c)"

section \<open>Instance lock and stale-lock sweep\<close>

definition projectIndexPath :: "state \<Rightarrow> string" where
  "projectIndexPath st = path_join (workingDir st) ''.mcp-projects.json''"

definition instanceLockPath :: "state \<Rightarrow> string" where
  "instanceLockPath st = path_join (workingDir st) ''.mcp-instance''"

definition ensureDirectoryExists :: "string \<Rightarrow> unit io" where
  "ensureDirectoryExists dirPath =
     catch (fs_mkdir dirPath)
       (\<lambda>e. throw (Error (''Failed to create directory '' @ dirPath @ '': '' @ message e)))"

definition emptyIndex :: InternalProjectIndex where
  "emptyIndex = \<lparr>projects = [], lastActive = None\<rparr>"

definition initializeProjectIndex :: "unit io" where
  "initializeProjectIndex st =
     catch
       (catch (fs_access (projectIndexPath st))
          (\<lambda>e. if \<not> isENOENT e then throw e
                else bind (fs_writeFile (projectIndexPath st @ ''.tmp'') (IndexJson emptyIndex))
                  (\<lambda>_. bind (fs_rename (projectIndexPath st @ ''.tmp'') (projectIndexPath st))
                  (\<lambda>_ s. (Inr (), s\<lparr>projectIndexCache := None\<rparr>)))))
       (\<lambda>e. bind (ignoreErrors (fs_unlink (projectIndexPath st @ ''.tmp'')))
          (\<lambda>_. throw (Error (''Failed to initialize project index: '' @ message e))))
       st"

text \<open>
  \<open>lockfile.lock(file, {stale, retries})\<close> of proper-lockfile, as far as the store relies
  on it: the lock is the directory \<open>file.lock\<close>; it cannot be taken while that directory
  exists and is not older than \<open>stale\<close>; the failure's message is the library's
  \<open>Lock file is already being held\<close>.
\<close>

definition lockfile_lock :: "string \<Rightarrow> nat \<Rightarrow> unit io" where
  "lockfile_lock file stale st =
     (if faults st OpMkdir (file @ ''.lock'') then (Inl (eacces (file @ ''.lock'')), st)
      else case map_of (files st) (file @ ''.lock'') of
        None \<Rightarrow> (Inr (), st\<lparr>files := files st @ [(file @ ''.lock'', Dir (now st))]\<rparr>)
      | Some n \<Rightarrow>
          (if mtimeMs n + stale < now st
           then (Inr (), st\<lparr>files := AList.update (file @ ''.lock'') (Dir (now st)) (files st)\<rparr>)
           else (Inl (ErrnoException ''ELOCKED'' ''Lock file is already being held''), st)))"

text \<open>The body of the \<open>try\<close> of \<open>acquireInstanceLock\<close>.\<close>

definition acquireInstanceLock_try :: "unit io" where
  "acquireInstanceLock_try st =
     bind (ensureDirectoryExists (workingDir st))
       (\<lambda>_. bind initializeProjectIndex
       (\<lambda>_. bind (lockfile_lock (instanceLockPath st) 30000)
       (\<lambda>_ s. (Inr (), s\<lparr>instanceLockRelease := True\<rparr>)))) st"

definition alreadyRunningMessage :: "state \<Rightarrow> string" where
  "alreadyRunningMessage st =
     ''Another MCP Security Report instance is already running in '' @ workingDir st
     @ ''.'' @ [CHR 0x0A]
     @ ''Running multiple instances in the same directory can lead to data corruption.'' @ [CHR 0x0A]
     @ ''If you are certain no other instance is running, you can manually remove the lock file:''
     @ [CHR 0x0A]
     @ ''  rm -r \"'' @ instanceLockPath st @ ''.lock\"''"

definition acquireInstanceLock :: "unit io" where
  "acquireInstanceLock st =
     catch acquireInstanceLock_try
       (\<lambda>e. if sublist ''already being held'' (message e)
             then throw (Error (alreadyRunningMessage st))
             else throw (Error (''Failed to acquire instance lock: '' @ message e)))
       st"

text \<open>One iteration of the loop of \<open>cleanupStaleLocks\<close>; every error inside it is
  caught and logged.\<close>

definition cleanupLock :: "string \<Rightarrow> unit io" where
  "cleanupLock lockFile st =
     (let lockPath = path_join (workingDir st) lockFile in
      if lockPath = instanceLockPath st \<and> instanceLockRelease st then (Inr (), st)
      else ignoreErrors
        (bind (fs_stat lockPath)
           (\<lambda>stats s.
              let ageMs = int (now s) - int (mtimeMs stats);
                  staleTimeout = (if lockFile = ''.mcp-instance.lock'' then 60000
                                  else int (lockStaleMs s))
              in if ageMs > staleTimeout then fs_rm lockPath s else (Inr (), s))) st)"

fun cleanupLocks :: "string list \<Rightarrow> unit io" where
  "cleanupLocks [] st = (Inr (), st)"
| "cleanupLocks (lockFile # rest) st = cleanupLocks rest (snd (cleanupLock lockFile st))"

definition cleanupStaleLocks :: "unit io" where
  "cleanupStaleLocks st =
     ignoreErrors
       (bind (fs_readdir (workingDir st))
          (\<lambda>entries.
             cleanupLocks
               (filter (\<lambda>f. prefix ''.mcp-lock-'' f \<or> f = ''.mcp-instance.lock'')
                  (map fst entries)))) st"

section \<open>Project names\<close>

definition isAlnum :: "char \<Rightarrow> bool" where
  "isAlnum c \<longleftrightarrow> isLower c \<or> isUpper c \<or> isDigit c"

text \<open>\<open>.replace(/\s+/g, '-')\<close>: every maximal run of white space becomes one hyphen.\<close>

function replaceSpaceRuns :: "string \<Rightarrow> string" where
  "replaceSpaceRuns [] = []"
| "replaceSpaceRuns (c # cs) =
     (if isSpace c then CHR ''-'' # replaceSpaceRuns (dropWhile isSpace cs)
      else c # replaceSpaceRuns cs)"
  by pat_completeness auto
termination
  by (relation "measure length") (auto simp: length_dropWhile_le less_Suc_eq_le)

definition sanitizeProjectName :: "string \<Rightarrow> string" where
  "sanitizeProjectName name =
     trim (toLowerCase (replaceSpaceRuns
       (filter (\<lambda>c. isAlnum c \<or> c = CHR ''-'' \<or> c = CHR ''_'' \<or> isSpace c) name)))"

text \<open>The characters a sanitized project name is made of.\<close>

definition nameChar :: "char \<Rightarrow> bool" where
  "nameChar c \<longleftrightarrow> isLower c \<or> isDigit c \<or> c = CHR ''-'' \<or> c = CHR ''_''"

section \<open>Resource locks\<close>

definition lockTimeout :: "string \<Rightarrow> error" where
  "lockTimeout lockKey = Error (''Operation timed out waiting for lock: '' @ lockKey)"

definition lockArtifact :: "state \<Rightarrow> string \<Rightarrow> string" where
  "lockArtifact st lockKey = path_join (workingDir st) (''.mcp-lock-'' @ lockKey) @ ''.lock''"

text \<open>
  \<open>withLock\<close>. The lock of proper-lockfile is the directory \<open>.mcp-lock-<key>.lock\<close>,
  present while the operation runs. A lock that another operation holds throughout the
  retries (\<open>lockBusy\<close>) makes the library fail with \<open>Lock file is already being held\<close>;
  the \<open>catch\<close> turns every error whose message contains \<open>already being held\<close>, that
  of the operation included, into the time-out error.
\<close>

definition withLock :: "string \<Rightarrow> 'a io \<Rightarrow> 'a io" where
  "withLock lockKey operation st =
     (if lockBusy st lockKey then (Inl (lockTimeout lockKey), st)
      else case catch operation
                  (\<lambda>e. if sublist ''already being held'' (message e)
                        then throw (lockTimeout lockKey) else throw e)
                  (st\<lparr>files := AList.update (lockArtifact st lockKey) (Dir (now st)) (files st)\<rparr>)
           of (r, st') \<Rightarrow>
             (r, st'\<lparr>files := AList.delete (lockArtifact st lockKey) (files st')\<rparr>))"

section \<open>Project index store\<close>

definition corruptionCheckSkipped :: "state \<Rightarrow> bool" where
  "corruptionCheckSkipped st \<longleftrightarrow>
     sublist ''tmp'' (workingDir st) \<or> sublist ''temp'' (workingDir st)
     \<or> sublist ''test'' (workingDir st)
     \<or> NODE_ENV st = Some ''test'' \<or> VITEST st = Some ''true''"

definition isLockName :: "string \<Rightarrow> bool" where
  "isLockName name \<longleftrightarrow> prefix ''.mcp-lock-'' name \<or> name = ''.mcp-instance.lock''"

definition projectLikeDir :: "string \<times> node \<Rightarrow> bool" where
  "projectLikeDir entry \<longleftrightarrow>
     isDirectory (snd entry) \<and> \<not> prefix ''.'' (fst entry)
     \<and> \<not> prefix ''node_modules'' (fst entry)
     \<and> \<not> prefix ''tmp'' (fst entry) \<and> \<not> prefix ''temp'' (fst entry)"

definition hasProjectJson :: "state \<Rightarrow> string \<Rightarrow> bool" where
  "hasProjectJson st name \<longleftrightarrow>
     (case fst (fs_access (path_join (path_join (workingDir st) name) ''project.json'') st) of
        Inr u \<Rightarrow> True | Inl e \<Rightarrow> False)"

definition corruptionMessage :: "state \<Rightarrow> string list \<Rightarrow> string" where
  "corruptionMessage st actualProjectDirs =
     ''FATAL: MCP Security Report directory corruption detected!'' @ [CHR 0x0A]
     @ ''Found '' @ string_of_nat (length actualProjectDirs)
     @ '' project directories but missing .mcp-projects.json index file.'' @ [CHR 0x0A]
     @ ''Projects found: '' @ join '', '' actualProjectDirs @ [CHR 0x0A]
     @ ''Working directory: '' @ workingDir st @ [CHR 0x0A, CHR 0x0A]
     @ ''This indicates data corruption or manual deletion of the index file.'' @ [CHR 0x0A]
     @ ''To recover, either:'' @ [CHR 0x0A]
     @ ''1. Restore .mcp-projects.json from backup, or'' @ [CHR 0x0A]
     @ ''2. Move existing project directories to a safe location and reinitialize''
     @ [CHR 0x0A, CHR 0x0A]
     @ ''The server cannot safely continue operation in this state.''"

definition checkForCorruptedDirectory :: "unit io" where
  "checkForCorruptedDirectory =
     catch
       (\<lambda>st. if corruptionCheckSkipped st then (Inr (), st)
          else bind (fs_readdir (workingDir st))
            (\<lambda>entries s.
               let hasLockFiles = list_ex (\<lambda>entry. isLockName (fst entry)) entries;
                   projectLikeDirs = filter projectLikeDir entries;
                   actualProjectDirs = filter (hasProjectJson s) (map fst projectLikeDirs)
               in if length actualProjectDirs > 0
                     \<and> (hasLockFiles \<or> length actualProjectDirs > 1)
                  then (Inl (Error (corruptionMessage s actualProjectDirs)), s)
                  else (Inr (), s)) st)
       (\<lambda>e. if sublist ''FATAL: MCP Security Report directory corruption'' (message e)
             then throw e else return ())"

definition readProjectIndex :: "InternalProjectIndex io" where
  "readProjectIndex st =
     (case projectIndexCache st of
        Some index \<Rightarrow> (Inr index, st)
      | None \<Rightarrow>
          (case fs_readFile (projectIndexPath st) st of
             (Inr (IndexJson index), st1) \<Rightarrow> (Inr index, st1\<lparr>projectIndexCache := Some index\<rparr>)
           | (Inr other, st1) \<Rightarrow>
               (Inl (Error (''Failed to read project index: '' @ ''Unexpected token in JSON'')), st1)
           | (Inl e, st1) \<Rightarrow>
               (if isENOENT e
                then bind checkForCorruptedDirectory
                       (\<lambda>_ s. (Inr emptyIndex, s\<lparr>projectIndexCache := Some emptyIndex\<rparr>)) st1
                else (Inl (Error (''Failed to read project index: '' @ message e)), st1))))"

definition writeProjectIndex :: "InternalProjectIndex \<Rightarrow> unit io" where
  "writeProjectIndex index st =
     catch
       (bind (fs_writeFile (projectIndexPath st @ ''.tmp'') (IndexJson index))
          (\<lambda>_. bind (fs_rename (projectIndexPath st @ ''.tmp'') (projectIndexPath st))
          (\<lambda>_ s. (Inr (), s\<lparr>projectIndexCache := None\<rparr>))))
       (\<lambda>e. bind (ignoreErrors (fs_unlink (projectIndexPath st @ ''.tmp'')))
          (\<lambda>_. throw (Error (''Failed to write project index: '' @ message e))))
       st"

definition getProjectPath :: "string \<Rightarrow> string io" where
  "getProjectPath projectName st =
     (let projectPath = path_join (workingDir st) (sanitizeProjectName projectName)
      in if \<not> prefix (workingDir st) projectPath
         then (Inl (Error (''Invalid project path: '' @ projectName)), st)
         else (Inr projectPath, st))"

text \<open>The heuristic as the specification words it: subdirectories that contain their
  own \<open>project.json\<close> exist, and either more than one of them exists or lock artifacts
  exist.\<close>

definition spec_projectDirs :: "state \<Rightarrow> string list" where
  "spec_projectDirs st =
     map fst (filter (\<lambda>entry. isDirectory (snd entry)
        \<and> map_of (files st) (path_join (path_join (workingDir st) (fst entry)) ''project.json'') \<noteq> None)
       (children (files st) (workingDir st)))"

definition spec_lockArtifactsExist :: "state \<Rightarrow> bool" where
  "spec_lockArtifactsExist st = list_ex (\<lambda>entry. isLockName (fst entry)) (children (files st) (workingDir st))"

definition spec_corruptionFires :: "state \<Rightarrow> bool" where
  "spec_corruptionFires st \<longleftrightarrow>
     spec_projectDirs st \<noteq> [] \<and> (spec_lockArtifactsExist st \<or> length (spec_projectDirs st) > 1)"

text \<open>The subdirectories the check of the code counts, read off the directory tree.\<close>

definition orphanedProjectDirs :: "state \<Rightarrow> string list" where
  "orphanedProjectDirs st =
     filter (\<lambda>name. map_of (files st) (path_join (path_join (workingDir st) name) ''project.json'') \<noteq> None)
       (map fst (filter projectLikeDir (children (files st) (workingDir st))))"

section \<open>Projects\<close>

record CreateProjectInput =
  cp_name :: string
  cp_client :: "string option"
  cp_scope :: "string list option"
  cp_description :: "string option"

text \<open>\<open>UpdateProjectInput\<close>: a key is absent (\<open>None\<close>), or present with a value that
  may be \<open>undefined\<close>; the object spread copies every present key.\<close>

record UpdateProjectInput =
  up_client :: "string option option"
  up_scope :: "string list option option"
  up_description :: "string option option"
  up_status :: "ProjectStatus option"

definition noUpdates :: UpdateProjectInput where
  "noUpdates = \<lparr>up_client = None, up_scope = None, up_description = None, up_status = None\<rparr>"

datatype rollback = RemoveProjectDirectory string | RestoreProjectIndex InternalProjectIndex

fun rollbackDescription :: "rollback \<Rightarrow> string" where
  "rollbackDescription (RemoveProjectDirectory p) = ''Remove project directory''"
| "rollbackDescription (RestoreProjectIndex i) = ''Restore project index''"

fun rollbackOperation :: "rollback \<Rightarrow> unit io" where
  "rollbackOperation (RemoveProjectDirectory p) = fs_rm p"
| "rollbackOperation (RestoreProjectIndex i) =
     bind (writeProjectIndex i) (\<lambda>_ s. (Inr (), s\<lparr>projectIndexCache := None\<rparr>))"

text \<open>The rollback loop over the operations, last one first; it returns the messages of
  the rollback steps that failed.\<close>

fun runRollback :: "(rollback \<times> bool) list \<Rightarrow> state \<Rightarrow> string list \<times> state" where
  "runRollback [] st = ([], st)"
| "runRollback ((item, completed) # earlier) st =
     (if completed
      then (case rollbackOperation item st of
              (Inr u, st1) \<Rightarrow> runRollback earlier st1
            | (Inl e, st1) \<Rightarrow>
                (case runRollback earlier st1 of
                   (errs, st2) \<Rightarrow> ((rollbackDescription item @ '': '' @ message e) # errs, st2)))
      else runRollback earlier st)"

text \<open>The \<open>catch\<close> block of \<open>executeProjectCreationTransaction\<close>.\<close>

definition creationFailed :: "error \<Rightarrow> (rollback \<times> bool) list \<Rightarrow> ProjectMetadata io" where
  "creationFailed e operations st =
     (case runRollback (rev operations) st of
        (rollbackErrors, st1) \<Rightarrow>
          (Inl (Error (''Failed to create project: '' @ message e
                  @ (if rollbackErrors \<noteq> []
                     then ''. Rollback errors: '' @ join ''; '' rollbackErrors else []))),
           st1\<lparr>projectIndexCache := None\<rparr>))"

definition writeProjectFile :: "string \<Rightarrow> ProjectMetadata \<Rightarrow> unit io" where
  "writeProjectFile projectPath metadata =
     bind (fs_writeFile (path_join projectPath ''project.json'' @ ''.tmp'') (ProjectJson metadata))
       (\<lambda>_. fs_rename (path_join projectPath ''project.json'' @ ''.tmp'')
               (path_join projectPath ''project.json''))"

definition executeProjectCreationTransaction ::
    "string \<Rightarrow> string \<Rightarrow> ProjectMetadata \<Rightarrow> ProjectMetadata io" where
  "executeProjectCreationTransaction sanitizedName projectPath metadata st =
     (case ensureDirectoryExists projectPath st of
        (Inl e, st1) \<Rightarrow> creationFailed e [] st1
      | (Inr u, st1) \<Rightarrow>
          (case bind (ensureDirectoryExists (path_join projectPath ''findings''))
                  (\<lambda>_. bind (ensureDirectoryExists (path_join projectPath ''audit-trails''))
                  (\<lambda>_. bind (writeProjectFile projectPath metadata)
                  (\<lambda>_. readProjectIndex))) st1 of
             (Inl e, st2) \<Rightarrow> creationFailed e [(RemoveProjectDirectory projectPath, True)] st2
           | (Inr originalIndexState, st2) \<Rightarrow>
               (case writeProjectIndex
                       (originalIndexState\<lparr>projects :=
                          AList.update sanitizedName metadata (projects originalIndexState)\<rparr>)
                       st2 of
                  (Inl e, st3) \<Rightarrow>
                    creationFailed e
                      [(RemoveProjectDirectory projectPath, True),
                       (RestoreProjectIndex originalIndexState, False)] st3
                | (Inr u', st3) \<Rightarrow> (Inr metadata, st3))))"

text \<open>\<open>createProject\<close>; \<open>uuid\<close> is the value \<open>uuidv4()\<close> returns.\<close>

definition createProject :: "CreateProjectInput \<Rightarrow> string \<Rightarrow> ProjectMetadata io" where
  "createProject input uuid st =
     (let sanitizedName = sanitizeProjectName (cp_name input) in
      if sanitizedName = [] then (Inl (Error ''Invalid project name''), st)
      else bind (getProjectPath sanitizedName)
        (\<lambda>projectPath. withLock ''project-index''
           (\<lambda>s. case fs_access projectPath s of
              (Inr u, s1) \<Rightarrow> (Inl (ProjectExistsError sanitizedName), s1)
            | (Inl e, s1) \<Rightarrow>
                (if \<not> isENOENT e
                 then (Inl (Error (''Failed to check project existence: '' @ message e)), s1)
                 else executeProjectCreationTransaction sanitizedName projectPath
                   \<lparr>pm_id = uuid, pm_name = sanitizedName, pm_client = cp_client input,
                    pm_created = now s1, pm_updated = now s1, pm_scope = cp_scope input,
                    pm_status = InProgress, pm_description = cp_description input\<rparr> s1))) st)"

definition getProject :: "string \<Rightarrow> ProjectMetadata io" where
  "getProject projectName =
     bind readProjectIndex
       (\<lambda>index. case map_of (projects index) (sanitizeProjectName projectName) of
          None \<Rightarrow> throw (ProjectNotFoundError (sanitizeProjectName projectName))
        | Some metadata \<Rightarrow> return metadata)"

definition checkProjectNotCompleted :: "string \<Rightarrow> string \<Rightarrow> unit io" where
  "checkProjectNotCompleted projectName operation =
     bind (getProject projectName)
       (\<lambda>project. if pm_status project = Completed
          then throw (ProjectCompletedError projectName operation) else return ())"

definition applyUpdates :: "ProjectMetadata \<Rightarrow> UpdateProjectInput \<Rightarrow> nat \<Rightarrow> ProjectMetadata" where
  "applyUpdates metadata updates t =
     metadata\<lparr>
       pm_client := (case up_client updates of None \<Rightarrow> pm_client metadata | Some v \<Rightarrow> v),
       pm_scope := (case up_scope updates of None \<Rightarrow> pm_scope metadata | Some v \<Rightarrow> v),
       pm_description :=
         (case up_description updates of None \<Rightarrow> pm_description metadata | Some v \<Rightarrow> v),
       pm_updated := t,
       pm_status := (case up_status updates of None \<Rightarrow> pm_status metadata | Some v \<Rightarrow> v)\<rparr>"

text \<open>\<open>updateProject\<close>. \<open>readProjectIndex\<close> returns the cached object, and
  \<open>index.projects.set\<close> changes it in place before the index is written.\<close>

definition updateProject :: "string \<Rightarrow> UpdateProjectInput \<Rightarrow> ProjectMetadata io" where
  "updateProject projectName updates =
     withLock ''project-index''
       (bind (getProject projectName)
          (\<lambda>metadata s0.
             if pm_status metadata = Completed
             then (Inl (ProjectCompletedError projectName ''update''), s0)
             else bind (getProjectPath projectName)
               (\<lambda>projectPath.
                  catch
                    (bind (writeProjectFile projectPath (applyUpdates metadata updates (now s0)))
                       (\<lambda>_. bind readProjectIndex
                       (\<lambda>index s.
                          let index' = index\<lparr>projects :=
                                AList.update (sanitizeProjectName projectName)
                                  (applyUpdates metadata updates (now s0)) (projects index)\<rparr>
                          in bind (writeProjectIndex index')
                               (\<lambda>_. return (applyUpdates metadata updates (now s0)))
                               (s\<lparr>projectIndexCache := Some index'\<rparr>))))
                    (\<lambda>e. bind (ignoreErrors
                                 (fs_unlink (path_join projectPath ''project.json'' @ ''.tmp'')))
                       (\<lambda>_. throw (Error (''Failed to update project: '' @ message e))))) s0))"

definition deleteProject :: "string \<Rightarrow> unit io" where
  "deleteProject projectName =
     withLock ''project-index''
       (bind (getProject (sanitizeProjectName projectName))
       (\<lambda>_. bind (checkProjectNotCompleted (sanitizeProjectName projectName) ''delete'')
       (\<lambda>_. bind (getProjectPath (sanitizeProjectName projectName))
       (\<lambda>projectPath. bind readProjectIndex
       (\<lambda>originalIndex.
          catch
            (bind (writeProjectIndex
                     \<lparr>projects = AList.delete (sanitizeProjectName projectName)
                                   (projects originalIndex),
                      lastActive = (if lastActive originalIndex
                                        = Some (sanitizeProjectName projectName)
                                    then None else lastActive originalIndex)\<rparr>)
               (\<lambda>_. fs_rm projectPath))
            (\<lambda>e. bind (\<lambda>s. (Inr (), (snd (writeProjectIndex originalIndex s))
                                       \<lparr>projectIndexCache := None\<rparr>))
               (\<lambda>_. throw (Error (''Failed to delete project: '' @ message e)))))))))"

section \<open>Example states\<close>

text \<open>A working directory \<open>/data\<close> with an empty index and the instance lock's
  directory, created at time 0.\<close>

definition lockedState :: state where
  "lockedState = \<lparr>workingDir = ''/data'',
     files = [(''/data'', Dir 0), (''/data/.mcp-projects.json'', File (IndexJson emptyIndex) 0),
              (''/data/.mcp-instance.lock'', Dir 0)],
     now = 1000, faults = (\<lambda>_ _. False), lockBusy = (\<lambda>_. False),
     NODE_ENV = None, VITEST = None, yamlSizeLimit = 10240, yamlLength = (\<lambda>_. 0),
     auditYamlLength = (\<lambda>_. 0), lockStaleMs = 60000, cvssLib = (\<lambda>_. Inr 5),
     projectIndexCache = None, instanceLockRelease = False,
     findingsCache = new_LRUCache (Some (Num 50)),
     auditTrailsCache = new_LRUCache (Some (Num 50))\<rparr>"

text \<open>The same directory 100 seconds later, seen by the process that holds the lock.\<close>

definition sweepState :: state where
  "sweepState = lockedState\<lparr>now := 100000, instanceLockRelease := True\<rparr>"

text \<open>Two project directories and no index, in \<open>/data\<close> and in \<open>/tmp/audit\<close>.\<close>

definition orphanState :: state where
  "orphanState = lockedState\<lparr>files :=
      [(''/data'', Dir 0), (''/data/alpha'', Dir 0), (''/data/alpha/project.json'', File (Unparsable '''') 0),
       (''/data/beta'', Dir 0), (''/data/beta/project.json'', File (Unparsable '''') 0)]\<rparr>"

definition tmpOrphanState :: state where
  "tmpOrphanState = lockedState\<lparr>workingDir := ''/tmp/audit'', files :=
      [(''/tmp/audit'', Dir 0), (''/tmp/audit/alpha'', Dir 0), (''/tmp/audit/alpha/project.json'', File (Unparsable '''') 0),
       (''/tmp/audit/beta'', Dir 0), (''/tmp/audit/beta/project.json'', File (Unparsable '''') 0)]\<rparr>"

section \<open>Vocabulary of the frame properties\<close>

text \<open>The part of the state that no operation of the store changes: everything but the
  directory tree, the cached index, the listing caches and the lock handle.\<close>

definition static :: "state \<Rightarrow> state" where
  "static st = st\<lparr>files := [], projectIndexCache := None, instanceLockRelease := False,
     findingsCache := \<lparr>cache = [], maxSize = 0\<rparr>,
     auditTrailsCache := \<lparr>cache = [], maxSize = 0\<rparr>\<rparr>"

text \<open>\<open>keeps w K m\<close>: run in the working directory \<open>w\<close>, \<open>m\<close> changes no path of \<open>K\<close>,
  whatever its outcome.\<close>

definition keeps :: "string \<Rightarrow> string set \<Rightarrow> 'a io \<Rightarrow> bool" where
  "keeps w K m \<longleftrightarrow>
     (\<forall>st r st'. workingDir st = w \<and> m st = (r, st') \<longrightarrow>
        static st' = static st \<and> (\<forall>k \<in> K. map_of (files st') k = map_of (files st) k))"

text \<open>An empty store in \<open>/data\<close>; the same store where the rename of the index's temporary
  file is refused; and where the removal of directories is refused as well.\<close>

definition emptyStore :: state where
  "emptyStore = lockedState\<lparr>files :=
     [(''/data'', Dir 0), (''/data/.mcp-projects.json'', File (IndexJson emptyIndex) 0)]\<rparr>"

definition indexWriteFails :: state where
  "indexWriteFails = emptyStore\<lparr>faults :=
     (\<lambda>op p. op = OpRename \<and> p = ''/data/.mcp-projects.json.tmp'')\<rparr>"

definition readOnlyStore :: state where
  "readOnlyStore = emptyStore\<lparr>faults :=
     (\<lambda>op p. (op = OpRename \<and> p = ''/data/.mcp-projects.json.tmp'') \<or> op = OpRm)\<rparr>"

definition penTest :: CreateProjectInput where
  "penTest = \<lparr>cp_name = ''pen-test-1'', cp_client = None, cp_scope = None,
     cp_description = None\<rparr>"

section \<open>CVSS evaluator\<close>

text \<open>
  \<open>calculateCVSSScore\<close> of \<open>utils/cvss.ts\<close>. The calculator classes of the library are
  the parameter \<open>cvssLib\<close>: for a trimmed vector they give the base score, or the name and
  message of the error they throw. The result of the model is the \<open>score\<close> field.
\<close>

definition cvssVersion :: "string \<Rightarrow> string" where
  "cvssVersion cleanVector =
     (if prefix ''CVSS:4.0'' cleanVector then ''4.0''
      else if prefix ''CVSS:3.1'' cleanVector then ''3.1''
      else if prefix ''CVSS:3.0'' cleanVector then ''3.0''
      else ''2.0'')"

definition cvssLibraryError :: "string \<Rightarrow> string \<Rightarrow> error" where
  "cvssLibraryError name msg =
     (if sublist ''Cannot read properties of undefined'' msg
      then CVSSError ''Invalid CVSS vector format - missing required components''
      else if sublist ''Invalid'' msg then CVSSError (''CVSS validation failed: '' @ msg)
      else if name = ''TypeError'' then CVSSError ''CVSS vector has invalid type or structure''
      else if name = ''RangeError'' then CVSSError ''CVSS vector values are out of valid range''
      else CVSSError (''Failed to calculate CVSS score: '' @ msg))"

definition calculateCVSSScore :: "state \<Rightarrow> string \<Rightarrow> error + rat" where
  "calculateCVSSScore st vector =
     (if vector = [] \<or> trim vector = []
      then Inl (CVSSError ''Invalid CVSS vector: empty or null string'')
      else if cvssVersion (trim vector) = ''2.0''
              \<and> (CHR '':'' \<notin> set (trim vector)
                  \<or> length (filter (\<lambda>c. c = CHR ''/'') (trim vector)) + 1 < 3)
      then Inl (CVSSError ''Invalid CVSS vector format'')
      else case cvssLib st (trim vector) of
             Inl (name, msg) \<Rightarrow> Inl (cvssLibraryError name msg)
           | Inr base \<Rightarrow>
               (if base = 0
                then Inl (CVSSError (''CVSS '' @ cvssVersion (trim vector)
                            @ '' calculation returned invalid scores''))
                else Inr base))"

section \<open>Finding files\<close>

text \<open>\<open>sanitizeFindingId\<close>; \<open>randomId\<close> is \<open>randomBytes(4).toString('hex')\<close>.\<close>

definition sanitizeFindingId :: "string \<Rightarrow> string \<Rightarrow> string" where
  "sanitizeFindingId t randomId =
     ''FIND-'' @ randomId @ ''-''
       @ take 20 (toLowerCase (replaceSpaceRuns (filter (\<lambda>c. isAlnum c \<or> isSpace c) t)))"

definition newline :: string where
  "newline = [CHR 0x0A]"

text \<open>JavaScript truthiness of an optional string: defined and not empty.\<close>

definition truthy :: "string option \<Rightarrow> bool" where
  "truthy v \<longleftrightarrow> (case v of None \<Rightarrow> False | Some s \<Rightarrow> s \<noteq> [])"

text \<open>The body that \<open>createFinding\<close> and \<open>updateFinding\<close> hand to \<open>matter.stringify\<close>.\<close>

definition findingBody :: "string \<Rightarrow> string option \<Rightarrow> string option \<Rightarrow> string" where
  "findingBody d ev re =
     ''## Description'' @ newline @ newline @ d @ newline @ newline
     @ (if truthy ev then ''## Evidence'' @ newline @ newline @ the ev @ newline @ newline else [])
     @ (if truthy re then ''## Recommendations'' @ newline @ newline @ the re else [])"

text \<open>gray-matter writes the body after the metadata block and ends it with a line feed
  when it has none; parsing gives that text back as \<open>content\<close>.\<close>

definition withFinalNewline :: "string \<Rightarrow> string" where
  "withFinalNewline s = (if s \<noteq> [] \<and> last s = CHR 0x0A then s else s @ newline)"

text \<open>
  \<open>extractSection\<close> of \<open>getFinding\<close>: the regular expression
  \<open>## NAME\s*\n([\s\S]*?)(?=\n## |$)\<close> with the flag \<open>i\<close>, then \<open>trim\<close>.
  \<open>lazyUntilHeading\<close> is the lazy group with its look-ahead; \<open>sectionAt\<close> is a match
  attempt at the start of the text (the greedy \<open>\s*\<close> gives back characters until a line
  feed follows, so the group starts after the last line feed of the white space that
  follows the heading); \<open>findSection\<close> tries the positions from left to right.
\<close>

fun lazyUntilHeading :: "string \<Rightarrow> string" where
  "lazyUntilHeading [] = []"
| "lazyUntilHeading (c # cs) =
     (if prefix [CHR 0x0A, CHR ''#'', CHR ''#'', CHR '' ''] (c # cs) then []
      else c # lazyUntilHeading cs)"

definition afterLastNewline :: "string \<Rightarrow> string" where
  "afterLastNewline ws = rev (takeWhile (\<lambda>c. c \<noteq> CHR 0x0A) (rev ws))"

definition sectionAt :: "string \<Rightarrow> string \<Rightarrow> string option" where
  "sectionAt heading text =
     (if prefix (toLowerCase heading) (toLowerCase text)
         \<and> CHR 0x0A \<in> set (takeWhile isSpace (drop (length heading) text))
      then Some (lazyUntilHeading
             (afterLastNewline (takeWhile isSpace (drop (length heading) text))
              @ dropWhile isSpace (drop (length heading) text)))
      else None)"

fun findSection :: "string \<Rightarrow> string \<Rightarrow> string option" where
  "findSection heading [] = sectionAt heading []"
| "findSection heading (c # cs) =
     (case sectionAt heading (c # cs) of
        Some s \<Rightarrow> Some s
      | None \<Rightarrow> findSection heading cs)"

definition extractSection :: "string \<Rightarrow> string \<Rightarrow> string option" where
  "extractSection sectionName markdownContent =
     map_option trim (findSection (''## '' @ sectionName) markdownContent)"

definition frontmatterOf :: "Finding \<Rightarrow> FindingFrontmatter" where
  "frontmatterOf finding =
     \<lparr>fm_id = f_id finding, fm_title = title finding, fm_severity = severity finding,
      fm_created = created finding, fm_updated = updated finding, fm_cwe = cwe finding,
      fm_cvssString = cvssString finding, fm_cvssScore = cvssScore finding,
      fm_components = components finding\<rparr>"

definition findingFile :: "Finding \<Rightarrow> content" where
  "findingFile finding =
     FindingMd (frontmatterOf finding)
       (withFinalNewline
          (findingBody (description finding) (evidence finding) (recommendations finding)))"

text \<open>The \<open>parse\<close> engine of \<open>SAFE_MATTER_OPTIONS\<close> refuses a metadata block longer than
  the limit; \<open>Math.round(sizeLimit / 1024)\<close> is written with integers.\<close>

definition yamlTooLarge :: "state \<Rightarrow> error" where
  "yamlTooLarge st =
     Error (''YAML frontmatter too large (>''
            @ string_of_nat ((yamlSizeLimit st + 512) div 1024) @ ''KB)'')"

definition yamlParseError :: error where
  "yamlParseError = Error ''YAML frontmatter must be an object''"

text \<open>\<open>matter(content, SAFE_MATTER_OPTIONS)\<close> on the text of a finding file. A file of
  the directory that is not a finding file with a metadata block is taken to be rejected
  by the parser.\<close>

definition parseFindingFile :: "content \<Rightarrow> (FindingFrontmatter \<times> string) io" where
  "parseFindingFile c st =
     (case c of
        FindingMd fm body \<Rightarrow>
          (if yamlLength st fm > yamlSizeLimit st then (Inl (yamlTooLarge st), st)
           else (Inr (fm, body), st))
      | _ \<Rightarrow> (Inl yamlParseError, st))"

definition findingPathOf :: "string \<Rightarrow> string \<Rightarrow> string" where
  "findingPathOf projectPath findingId =
     path_join (path_join projectPath ''findings'') (findingId @ ''.md'')"

definition cvssStep :: "string option \<Rightarrow> rat option io" where
  "cvssStep v st =
     (if truthy v
      then (case calculateCVSSScore st (the v) of
              Inl e \<Rightarrow> (Inl (Error (''Invalid CVSS string: '' @ message e)), st)
            | Inr score \<Rightarrow> (Inr (Some score), st))
      else (Inr None, st))"

text \<open>The existence test of \<open>createFinding\<close>: the \<open>Error\<close> thrown inside the \<open>try\<close> has
  no code \<open>ENOENT\<close> and is thrown again, like every other error of \<open>fs.access\<close>.\<close>

definition mustNotExist :: "string \<Rightarrow> string \<Rightarrow> unit io" where
  "mustNotExist p alreadyExists =
     catch (bind (fs_access p) (\<lambda>_. throw (Error alreadyExists)))
       (\<lambda>e. if \<not> isENOENT e then throw e else return ())"

definition invalidateFindingsCache :: "string \<Rightarrow> unit io" where
  "invalidateFindingsCache projectName st =
     (Inr (), st\<lparr>findingsCache := lru_delete (findingsCache st) (projectName @ ''-findings'')\<rparr>)"

text \<open>The atomic write shared by \<open>createFinding\<close> and \<open>updateFinding\<close>, with its
  \<open>catch\<close>; \<open>what\<close> is \<open>create\<close> or \<open>update\<close>.\<close>

definition writeFinding :: "string \<Rightarrow> string \<Rightarrow> string \<Rightarrow> Finding \<Rightarrow> Finding io" where
  "writeFinding what projectName findingPath finding =
     catch
       (bind (fs_writeFile (findingPath @ ''.tmp'') (findingFile finding))
       (\<lambda>_. bind (fs_rename (findingPath @ ''.tmp'') findingPath)
       (\<lambda>_. bind (updateProject projectName noUpdates)
       (\<lambda>_. bind (invalidateFindingsCache projectName)
       (\<lambda>_. return finding)))))
       (\<lambda>e. bind (ignoreErrors (fs_unlink (findingPath @ ''.tmp'')))
          (\<lambda>_. throw (Error (''Failed to '' @ what @ '' finding: '' @ message e))))"

definition newFinding :: "FindingInput \<Rightarrow> string \<Rightarrow> nat \<Rightarrow> rat option \<Rightarrow> Finding" where
  "newFinding input randomId t score =
     \<lparr>title = title input, severity = severity input, cwe = cwe input,
      cvssString = cvssString input, components = components input,
      description = description input, evidence = evidence input,
      recommendations = recommendations input,
      f_id = sanitizeFindingId (title input) randomId, cvssScore = score,
      created = t, updated = t\<rparr>"

definition createFinding :: "string \<Rightarrow> FindingInput \<Rightarrow> string \<Rightarrow> Finding io" where
  "createFinding projectName input randomId =
     bind (getProject projectName)
     (\<lambda>_. bind (checkProjectNotCompleted projectName ''create finding'')
     (\<lambda>_ s0. bind (cvssStep (cvssString input))
     (\<lambda>score.
        let finding = newFinding input randomId (now s0) score in
        withLock (''finding-'' @ projectName @ ''-'' @ f_id finding)
          (bind (getProjectPath projectName)
          (\<lambda>projectPath.
             bind (mustNotExist (findingPathOf projectPath (f_id finding))
                     (''Finding with ID '' @ [CHR 0x27] @ f_id finding @ [CHR 0x27]
                      @ '' already exists''))
             (\<lambda>_. writeFinding ''create'' projectName
                     (findingPathOf projectPath (f_id finding)) finding)))) s0))"

definition findingOfFile :: "FindingFrontmatter \<Rightarrow> string \<Rightarrow> Finding" where
  "findingOfFile fm markdownContent =
     \<lparr>title = fm_title fm, severity = fm_severity fm, cwe = fm_cwe fm,
      cvssString = fm_cvssString fm, components = fm_components fm,
      description = (case extractSection ''Description'' markdownContent of
                       None \<Rightarrow> [] | Some d \<Rightarrow> d),
      evidence = extractSection ''Evidence'' markdownContent,
      recommendations = extractSection ''Recommendations'' markdownContent,
      f_id = fm_id fm, cvssScore = fm_cvssScore fm,
      created = fm_created fm, updated = fm_updated fm\<rparr>"

definition getFinding :: "string \<Rightarrow> string \<Rightarrow> Finding io" where
  "getFinding projectName findingId =
     bind (getProject projectName)
     (\<lambda>_. bind (getProjectPath projectName)
     (\<lambda>projectPath.
        catch
          (bind (fs_readFile (findingPathOf projectPath findingId))
          (\<lambda>c. bind (parseFindingFile c)
          (\<lambda>parsed. return (findingOfFile (fst parsed) (snd parsed)))))
          (\<lambda>e. if isENOENT e then throw (FindingNotFoundError findingId)
                else throw (Error (''Failed to read finding: '' @ message e)))))"

section \<open>Listing findings\<close>

definition getDirectoryLastModified :: "string \<Rightarrow> state \<Rightarrow> nat" where
  "getDirectoryLastModified dirPath st =
     (case fs_readdir dirPath st of
        (Inl e, s) \<Rightarrow> 0
      | (Inr entries, s) \<Rightarrow>
          foldr max
            (map (\<lambda>entry. case fs_stat (path_join dirPath (fst entry)) st of
                    (Inr n, s') \<Rightarrow> mtimeMs n
                  | (Inl e, s') \<Rightarrow> 0) entries) 0)"

text \<open>The settled \<open>fs.stat\<close> calls of one batch: the files whose \<open>stat\<close> succeeds, with
  their modification times.\<close>

definition statBatch :: "state \<Rightarrow> string \<Rightarrow> string list \<Rightarrow> (string \<times> nat) list" where
  "statBatch st dir batch =
     concat (map (\<lambda>file. case fs_stat (path_join dir file) st of
                     (Inr n, s) \<Rightarrow> [(file, mtimeMs n)]
                   | (Inl e, s) \<Rightarrow> []) batch)"

text \<open>\<open>sort((a, b) => b.mtime.getTime() - a.mtime.getTime())\<close>: a stable sort, latest
  first.\<close>

definition sortByMtimeDesc :: "(string \<times> nat) list \<Rightarrow> (string \<times> nat) list" where
  "sortByMtimeDesc xs = sort_key (\<lambda>x. - int (snd x)) xs"

definition batchSizeOf :: "nat \<Rightarrow> nat \<Rightarrow> nat" where
  "batchSizeOf limit n = (if n > 1000 then min 25 (limit * 2) else min 50 (limit * 3))"

definition memoryLimitOf :: "nat \<Rightarrow> nat \<Rightarrow> nat" where
  "memoryLimitOf offset limit =
     (if offset > 500 then min (offset + limit + 100) 2000 else offset + limit + 50)"

text \<open>
  The batch loop of \<open>listFindings\<close>, from index \<open>i\<close> with the entries collected so far.
  \<open>None\<close> stands for a loop that does not end: with a batch size of 0 the index never
  advances.
\<close>

function scanBatches ::
    "state \<Rightarrow> string \<Rightarrow> string list \<Rightarrow> nat \<Rightarrow> nat \<Rightarrow> nat \<Rightarrow> nat
      \<Rightarrow> (string \<times> nat) list \<Rightarrow> (string \<times> nat) list option" where
  "scanBatches st dir mdFiles batchSize memoryLimit targetCount i filesByMtime =
     (if i < length mdFiles
      then (if targetCount + min 20 batchSize
                 \<le> length (take memoryLimit (sortByMtimeDesc
                       (filesByMtime @ statBatch st dir (take batchSize (drop i mdFiles)))))
            then Some (take memoryLimit (sortByMtimeDesc
                         (filesByMtime @ statBatch st dir (take batchSize (drop i mdFiles)))))
            else if batchSize = 0 then None
            else scanBatches st dir mdFiles batchSize memoryLimit targetCount (i + batchSize)
                   (take memoryLimit (sortByMtimeDesc
                      (filesByMtime @ statBatch st dir (take batchSize (drop i mdFiles))))))
      else Some filesByMtime)"
  by pat_completeness auto
termination
  by (relation "measure (\<lambda>(st, dir, mdFiles, batchSize, memoryLimit, targetCount, i, acc).
        length mdFiles - i)") auto

text \<open>The record that \<open>listFindings\<close> builds from the metadata block of a file.\<close>

definition listedFinding :: "FindingFrontmatter \<Rightarrow> Finding" where
  "listedFinding fm =
     \<lparr>title = fm_title fm, severity = fm_severity fm, cwe = fm_cwe fm,
      cvssString = fm_cvssString fm, components = fm_components fm,
      description = [], evidence = None, recommendations = None,
      f_id = fm_id fm, cvssScore = fm_cvssScore fm,
      created = fm_created fm, updated = fm_updated fm\<rparr>"

text \<open>The settled reads of the page: the files that can be read and parsed.\<close>

definition readListed :: "state \<Rightarrow> string \<Rightarrow> string list \<Rightarrow> Finding list" where
  "readListed st dir page =
     concat (map (\<lambda>file.
        case bind (fs_readFile (path_join dir file)) parseFindingFile st of
          (Inr parsed, s) \<Rightarrow> [listedFinding (fst parsed)]
        | (Inl e, s) \<Rightarrow> []) page)"

definition sortByUpdatedDesc :: "Finding list \<Rightarrow> Finding list" where
  "sortByUpdatedDesc fs = sort_key (\<lambda>f. - int (updated f)) fs"

definition isMarkdownFile :: "string \<times> node \<Rightarrow> bool" where
  "isMarkdownFile entry \<longleftrightarrow> \<not> isDirectory (snd entry) \<and> suffix ''.md'' (fst entry)"

text \<open>The part of \<open>listFindings\<close> after the cache test: the selection of the page from
  the names of the directory.\<close>

definition selectPage ::
    "state \<Rightarrow> string \<Rightarrow> string list \<Rightarrow> nat \<Rightarrow> nat \<Rightarrow> string list option" where
  "selectPage st dir mdFiles limit offset =
     map_option (\<lambda>filesByMtime. map fst (take limit (drop offset (sortByMtimeDesc filesByMtime))))
       (scanBatches st dir mdFiles (batchSizeOf limit (length mdFiles))
          (memoryLimitOf offset limit) (offset + limit) 0 [])"

text \<open>\<open>listFindings(projectName, {limit, offset})\<close> for natural numbers \<open>limit\<close> and
  \<open>offset\<close>; the result is \<open>None\<close> when the batch loop does not end.\<close>

definition listFindings ::
    "string \<Rightarrow> nat \<Rightarrow> nat \<Rightarrow> state \<Rightarrow> ((error + Finding list) \<times> state) option" where
  "listFindings projectName limit offset st =
     (case bind (getProject projectName) (\<lambda>_. getProjectPath projectName) st of
        (Inl e, st1) \<Rightarrow> Some (Inl e, st1)
      | (Inr projectPath, st1) \<Rightarrow>
          (let findingsDir = path_join projectPath ''findings'';
               cacheKey = projectName @ ''-findings'';
               lastModified = getDirectoryLastModified findingsDir st1;
               cached = fst (lru_get (findingsCache st1) cacheKey (now st1));
               st2 = st1\<lparr>findingsCache := snd (lru_get (findingsCache st1) cacheKey (now st1))\<rparr>
           in if cached \<noteq> None \<and> lastModified \<le> ce_lastModified (the cached)
              then Some (Inr (take limit (drop offset (ce_data (the cached)))), st2)
              else (case fs_readdir findingsDir st2 of
                      (Inl e, st3) \<Rightarrow>
                        (if isENOENT e
                         then Some (Inr [],
                                st3\<lparr>findingsCache :=
                                  lru_set (findingsCache st3) cacheKey [] (now st3) (now st3)\<rparr>)
                         else Some (Inl (Error (''Failed to list findings: '' @ message e)), st3))
                    | (Inr entries, st3) \<Rightarrow>
                        (case selectPage st3 findingsDir
                                (map fst (filter isMarkdownFile entries)) limit offset of
                           None \<Rightarrow> None
                         | Some page \<Rightarrow>
                             Some (Inr (sortByUpdatedDesc (readListed st3 findingsDir page)),
                                   st3)))))"

section \<open>Updating and deleting findings\<close>

text \<open>\<open>Partial<FindingInput>\<close>: \<open>None\<close> is an absent key; a key of an optional field can
  be present with the value \<open>undefined\<close>.\<close>

record FindingUpdates =
  fu_title :: "string option"
  fu_severity :: "Severity option"
  fu_cwe :: "string option option"
  fu_cvssString :: "string option option"
  fu_components :: "string list option option"
  fu_description :: "string option"
  fu_evidence :: "string option option"
  fu_recommendations :: "string option option"

definition applyFindingUpdates :: "Finding \<Rightarrow> FindingUpdates \<Rightarrow> nat \<Rightarrow> Finding" where
  "applyFindingUpdates existing updates t =
     existing\<lparr>
       title := (case fu_title updates of None \<Rightarrow> title existing | Some v \<Rightarrow> v),
       severity := (case fu_severity updates of None \<Rightarrow> severity existing | Some v \<Rightarrow> v),
       cwe := (case fu_cwe updates of None \<Rightarrow> cwe existing | Some v \<Rightarrow> v),
       cvssString :=
         (case fu_cvssString updates of None \<Rightarrow> cvssString existing | Some v \<Rightarrow> v),
       components :=
         (case fu_components updates of None \<Rightarrow> components existing | Some v \<Rightarrow> v),
       description :=
         (case fu_description updates of None \<Rightarrow> description existing | Some v \<Rightarrow> v),
       evidence := (case fu_evidence updates of None \<Rightarrow> evidence existing | Some v \<Rightarrow> v),
       recommendations :=
         (case fu_recommendations updates of None \<Rightarrow> recommendations existing | Some v \<Rightarrow> v),
       updated := t\<rparr>"

text \<open>The score of an updated finding: recomputed when \<open>updates.cvssString\<close> is defined,
  cleared when it is the empty string, kept otherwise.\<close>

definition updatedScore :: "Finding \<Rightarrow> FindingUpdates \<Rightarrow> rat option io" where
  "updatedScore existing updates =
     (case fu_cvssString updates of
        Some (Some v) \<Rightarrow> cvssStep (Some v)
      | _ \<Rightarrow> return (cvssScore existing))"

definition updateFinding :: "string \<Rightarrow> string \<Rightarrow> FindingUpdates \<Rightarrow> Finding io" where
  "updateFinding projectName findingId updates =
     withLock (''finding-'' @ projectName @ ''-'' @ findingId)
       (bind (getFinding projectName findingId)
       (\<lambda>existing. bind (checkProjectNotCompleted projectName ''update finding'')
       (\<lambda>_ s0. bind (updatedScore existing updates)
       (\<lambda>score. bind (getProjectPath projectName)
       (\<lambda>projectPath.
          writeFinding ''update'' projectName (findingPathOf projectPath findingId)
            ((applyFindingUpdates existing updates (now s0))\<lparr>cvssScore := score\<rparr>))) s0)))"

definition deleteFinding :: "string \<Rightarrow> string \<Rightarrow> unit io" where
  "deleteFinding projectName findingId =
     withLock (''finding-'' @ projectName @ ''-'' @ findingId)
       (bind (getFinding projectName findingId)
       (\<lambda>_. bind (checkProjectNotCompleted projectName ''delete finding'')
       (\<lambda>_. bind (getProjectPath projectName)
       (\<lambda>projectPath.
          catch
            (bind (fs_unlink (findingPathOf projectPath findingId))
            (\<lambda>_. bind (updateProject projectName noUpdates)
            (\<lambda>_. invalidateFindingsCache projectName)))
            (\<lambda>e. throw (Error (''Failed to delete finding: '' @ message e)))))))"

section \<open>Audit trails\<close>

definition sanitizeAuditId :: "string \<Rightarrow> string \<Rightarrow> string" where
  "sanitizeAuditId t randomId =
     ''AUDIT-'' @ randomId @ ''-''
       @ take 20 (toLowerCase (replaceSpaceRuns (filter (\<lambda>c. isAlnum c \<or> isSpace c) t)))"

definition auditFrontmatterOf :: "AuditTrailEntry \<Rightarrow> AuditFrontmatter" where
  "auditFrontmatterOf entry =
     \<lparr>am_id = a_id entry, am_title = a_title entry, am_created = a_created entry,
      am_tools = a_tools entry, am_methodology = a_methodology entry,
      am_results = a_results entry, am_notes = a_notes entry\<rparr>"

definition auditPathOf :: "string \<Rightarrow> string \<Rightarrow> string" where
  "auditPathOf projectPath auditId =
     path_join (path_join projectPath ''audit-trails'') (auditId @ ''.md'')"

definition invalidateAuditCache :: "string \<Rightarrow> unit io" where
  "invalidateAuditCache projectName st =
     (Inr (), st\<lparr>auditTrailsCache :=
                  lru_delete (auditTrailsCache st) (projectName @ ''-audit-trails'')\<rparr>)"

definition newAuditTrail :: "AuditTrailInput \<Rightarrow> string \<Rightarrow> nat \<Rightarrow> AuditTrailEntry" where
  "newAuditTrail input randomId t =
     \<lparr>a_title = a_title input, a_description = a_description input, a_tools = a_tools input,
      a_methodology = a_methodology input, a_results = a_results input,
      a_notes = a_notes input,
      a_id = sanitizeAuditId (a_title input) randomId, a_created = t\<rparr>"

text \<open>\<open>createAuditTrail\<close>. The file holds the metadata block and the description as
  body (a description that itself starts with a metadata block is not modelled).\<close>

definition createAuditTrail :: "string \<Rightarrow> AuditTrailInput \<Rightarrow> string \<Rightarrow> AuditTrailEntry io" where
  "createAuditTrail projectName input randomId =
     bind (getProject projectName)
     (\<lambda>_. bind (checkProjectNotCompleted projectName ''create audit trail'')
     (\<lambda>_ s0.
        let entry = newAuditTrail input randomId (now s0) in
        withLock (''audit-'' @ projectName @ ''-'' @ a_id entry)
          (bind (getProjectPath projectName)
          (\<lambda>projectPath.
             bind (mustNotExist (auditPathOf projectPath (a_id entry))
                     (''Audit trail with ID '' @ [CHR 0x27] @ a_id entry @ [CHR 0x27]
                      @ '' already exists''))
             (\<lambda>_. catch
                (bind (ensureDirectoryExists (path_join projectPath ''audit-trails''))
                (\<lambda>_. bind (fs_writeFile (auditPathOf projectPath (a_id entry) @ ''.tmp'')
                             (AuditMd (auditFrontmatterOf entry)
                                (withFinalNewline (a_description entry))))
                (\<lambda>_. bind (fs_rename (auditPathOf projectPath (a_id entry) @ ''.tmp'')
                             (auditPathOf projectPath (a_id entry)))
                (\<lambda>_. bind (updateProject projectName noUpdates)
                (\<lambda>_. bind (invalidateAuditCache projectName)
                (\<lambda>_. return entry))))))
                (\<lambda>e. bind (ignoreErrors
                             (fs_unlink (auditPathOf projectPath (a_id entry) @ ''.tmp'')))
                   (\<lambda>_. throw (Error (''Failed to create audit trail: '' @ message e))))))) s0))"

definition parseAuditFile :: "content \<Rightarrow> (AuditFrontmatter \<times> string) io" where
  "parseAuditFile c st =
     (case c of
        AuditMd am body \<Rightarrow>
          (if auditYamlLength st am > yamlSizeLimit st then (Inl (yamlTooLarge st), st)
           else (Inr (am, body), st))
      | _ \<Rightarrow> (Inl yamlParseError, st))"

text \<open>The entry that \<open>getAuditTrail\<close> returns: identifier, title, body, tools and date.\<close>

definition auditOfFile :: "AuditFrontmatter \<Rightarrow> string \<Rightarrow> AuditTrailEntry" where
  "auditOfFile am body =
     \<lparr>a_title = am_title am, a_description = body, a_tools = am_tools am,
      a_methodology = None, a_results = None, a_notes = None,
      a_id = am_id am, a_created = am_created am\<rparr>"

definition getAuditTrail :: "string \<Rightarrow> string \<Rightarrow> AuditTrailEntry io" where
  "getAuditTrail projectName auditId =
     bind (getProject projectName)
     (\<lambda>_. bind (getProjectPath projectName)
     (\<lambda>projectPath.
        catch
          (bind (fs_readFile (auditPathOf projectPath auditId))
          (\<lambda>c. bind (parseAuditFile c)
          (\<lambda>parsed. return (auditOfFile (fst parsed) (snd parsed)))))
          (\<lambda>e. if isENOENT e then throw (AuditTrailNotFoundError auditId)
                else throw (Error (''Failed to read audit trail: '' @ message e)))))"

text \<open>The batch loop of \<open>listAuditTrails\<close>.\<close>

function scanAuditBatches ::
    "state \<Rightarrow> string \<Rightarrow> string list \<Rightarrow> nat \<Rightarrow> nat \<Rightarrow> nat
      \<Rightarrow> (string \<times> nat) list \<Rightarrow> (string \<times> nat) list option" where
  "scanAuditBatches st dir mdFiles batchSize targetCount i filesByMtime =
     (if i < length mdFiles
      then (if targetCount + 10
                 \<le> length (sortByMtimeDesc
                       (filesByMtime @ statBatch st dir (take batchSize (drop i mdFiles))))
            then Some (sortByMtimeDesc
                         (filesByMtime @ statBatch st dir (take batchSize (drop i mdFiles))))
            else if batchSize = 0 then None
            else scanAuditBatches st dir mdFiles batchSize targetCount (i + batchSize)
                   (sortByMtimeDesc
                      (filesByMtime @ statBatch st dir (take batchSize (drop i mdFiles)))))
      else Some filesByMtime)"
  by pat_completeness auto
termination
  by (relation "measure (\<lambda>(st, dir, mdFiles, batchSize, targetCount, i, acc).
        length mdFiles - i)") auto

definition listedAudit :: "AuditFrontmatter \<Rightarrow> AuditTrailEntry" where
  "listedAudit am =
     \<lparr>a_title = am_title am, a_description = [], a_tools = am_tools am,
      a_methodology = None, a_results = None, a_notes = None,
      a_id = am_id am, a_created = am_created am\<rparr>"

definition readListedAudits :: "state \<Rightarrow> string \<Rightarrow> string list \<Rightarrow> AuditTrailEntry list" where
  "readListedAudits st dir page =
     concat (map (\<lambda>file.
        case bind (fs_readFile (path_join dir file)) parseAuditFile st of
          (Inr parsed, s) \<Rightarrow> [listedAudit (fst parsed)]
        | (Inl e, s) \<Rightarrow> []) page)"

definition listAuditTrails ::
    "string \<Rightarrow> nat \<Rightarrow> nat \<Rightarrow> state \<Rightarrow> ((error + AuditTrailEntry list) \<times> state) option" where
  "listAuditTrails projectName limit offset st =
     (case bind (getProject projectName) (\<lambda>_. getProjectPath projectName) st of
        (Inl e, st1) \<Rightarrow> Some (Inl e, st1)
      | (Inr projectPath, st1) \<Rightarrow>
          (let auditDir = path_join projectPath ''audit-trails'';
               cacheKey = projectName @ ''-audit-trails'';
               lastModified = getDirectoryLastModified auditDir st1;
               cached = fst (lru_get (auditTrailsCache st1) cacheKey (now st1));
               st2 = st1\<lparr>auditTrailsCache :=
                          snd (lru_get (auditTrailsCache st1) cacheKey (now st1))\<rparr>
           in if cached \<noteq> None \<and> lastModified \<le> ce_lastModified (the cached)
              then Some (Inr (take limit (drop offset (ce_data (the cached)))), st2)
              else (case fs_readdir auditDir st2 of
                      (Inl e, st3) \<Rightarrow>
                        (if isENOENT e
                         then Some (Inr [],
                                st3\<lparr>auditTrailsCache :=
                                  lru_set (auditTrailsCache st3) cacheKey [] (now st3) (now st3)\<rparr>)
                         else Some (Inl (Error (''Failed to list audit trails: '' @ message e)),
                                    st3))
                    | (Inr entries, st3) \<Rightarrow>
                        (case scanAuditBatches st3 auditDir
                                (map fst (filter isMarkdownFile entries))
                                (min 50 (limit * 3)) (offset + limit) 0 [] of
                           None \<Rightarrow> None
                         | Some filesByMtime \<Rightarrow>
                             Some (Inr (sort_key (\<lambda>a. - int (a_created a))
                                     (readListedAudits st3 auditDir
                                        (map fst (take limit (drop offset
                                           (sortByMtimeDesc filesByMtime)))))),
                                   st3)))))"

section \<open>Vocabulary of the round trip\<close>

text \<open>A section text that the file format can carry: not empty, without white space at
  its ends, and without the heading marker \<open>## \<close>.\<close>

definition plainSection :: "string \<Rightarrow> bool" where
  "plainSection s \<longleftrightarrow> s \<noteq> [] \<and> trim s = s \<and> \<not> sublist ''## '' s"

text \<open>An optional section as it is read back: an empty one is absent.\<close>

definition readBack :: "string option \<Rightarrow> string option" where
  "readBack v = (if truthy v then v else None)"

definition optionalSectionOk :: "string option \<Rightarrow> bool" where
  "optionalSectionOk v \<longleftrightarrow> (truthy v \<longrightarrow> plainSection (the v))"

section \<open>Example findings\<close>

text \<open>The store of \<open>/data\<close> with one project in progress.\<close>

definition penTestMetadata :: ProjectMetadata where
  "penTestMetadata = \<lparr>pm_id = ''uuid'', pm_name = ''pen-test-1'', pm_client = None,
     pm_created = 0, pm_updated = 0, pm_scope = None, pm_status = InProgress,
     pm_description = None\<rparr>"

definition projectStore :: state where
  "projectStore = lockedState\<lparr>files :=
     [(''/data'', Dir 0),
      (''/data/.mcp-projects.json'',
         File (IndexJson \<lparr>projects = [(''pen-test-1'', penTestMetadata)], lastActive = None\<rparr>) 0),
      (''/data/pen-test-1'', Dir 0),
      (''/data/pen-test-1/project.json'', File (ProjectJson penTestMetadata) 0),
      (''/data/pen-test-1/findings'', Dir 0),
      (''/data/pen-test-1/audit-trails'', Dir 0)]\<rparr>"

text \<open>A finding with an empty evidence section, and one whose description has a
  heading of its own.\<close>

definition sqlInjection :: FindingInput where
  "sqlInjection = \<lparr>title = ''SQL injection'', severity = High, cwe = Some ''CWE-89'',
     cvssString = None, components = None,
     description = ''The login form is injectable.'', evidence = Some [],
     recommendations = Some ''Use prepared statements.''\<rparr>"

definition subheadingInput :: FindingInput where
  "subheadingInput = \<lparr>title = ''SQL injection'', severity = High, cwe = Some ''CWE-89'',
     cvssString = None, components = None,
     description = ''Overview'' @ [CHR 0x0A] @ ''## Details'' @ [CHR 0x0A] @ ''More'',
     evidence = None, recommendations = None\<rparr>"

section \<open>Example vectors\<close>

text \<open>The store of \<open>/data\<close> with a CVSS library that knows one vector.\<close>

definition scoredStore :: state where
  "scoredStore = projectStore\<lparr>cvssLib :=
     (\<lambda>v. if v = ''CVSS:3.1/AV:N/AC:L/PR:N/UI:N/S:U/C:H/I:H/A:H'' then Inr (49 / 5)
          else Inl (''Error'', ''Invalid CVSS vector''))\<rparr>"

definition scoredInput :: FindingInput where
  "scoredInput = sqlInjection\<lparr>cvssString := Some ''CVSS:3.1/AV:N/AC:L/PR:N/UI:N/S:U/C:H/I:H/A:H''\<rparr>"

definition brokenVectorInput :: FindingInput where
  "brokenVectorInput = sqlInjection\<lparr>cvssString := Some ''not-a-vector''\<rparr>"

definition emptyVectorInput :: FindingInput where
  "emptyVectorInput = sqlInjection\<lparr>cvssString := Some []\<rparr>"

section \<open>Vocabulary of the listing\<close>

text \<open>A finding as the list shows it: no description, evidence or recommendations.\<close>

definition summaryOnly :: "Finding \<Rightarrow> bool" where
  "summaryOnly f \<longleftrightarrow> description f = [] \<and> evidence f = None \<and> recommendations f = None"

text \<open>The lists that a cache holds, and the states whose cache of findings holds
  summaries only.\<close>

definition cachedData :: "'a LRUCache \<Rightarrow> 'a set" where
  "cachedData c = (\<lambda>entry. ce_data (snd entry)) ` set (cache c)"

definition cacheHoldsSummaries :: "state \<Rightarrow> bool" where
  "cacheHoldsSummaries st \<longleftrightarrow> (\<forall>d \<in> cachedData (findingsCache st). \<forall>f \<in> set d. summaryOnly f)"

text \<open>The store of \<open>/data\<close> with one finding in its project.\<close>

definition findingStore :: state where
  "findingStore = projectStore\<lparr>files := files projectStore
     @ [(''/data/pen-test-1/findings/FIND-a1b2c3d4-sql-injection.md'',
         File (findingFile (newFinding sqlInjection ''a1b2c3d4'' 1000 None)) 1000)]\<rparr>"

text \<open>\<open>cacheShrinks m\<close>: whatever its outcome, \<open>m\<close> adds no list to the cache of
  findings.\<close>

definition cacheShrinks :: "'a io \<Rightarrow> bool" where
  "cacheShrinks m \<longleftrightarrow>
     (\<forall>st r st'. m st = (r, st')
        \<longrightarrow> cachedData (findingsCache st') \<subseteq> cachedData (findingsCache st))"

section \<open>Properties\<close>

lemma sublist_mid: "sublist x (a @ x @ b)"
  unfolding sublist_def by blast

subsection \<open>Association lists\<close>

lemma length_delete_le: "length (AList.delete k xs) \<le> length xs"
  by (induction xs) auto

lemma length_delete_hd: "length (AList.delete k ((k, v) # xs)) \<le> length xs"
  by (simp add: length_delete_le)

lemma length_delete_mem: "(k, e) \<in> set xs \<Longrightarrow> length (AList.delete k xs) < length xs"
  by (induction xs) (auto simp: less_Suc_eq_le length_delete_le)

lemma keys_delete: "fst ` set (AList.delete k xs) \<subseteq> fst ` set xs"
  by (induction xs) auto

subsection \<open>The listing cache stays within its capacity\<close>

lemma lru_ok_set:
  assumes ok: "lru_ok c" and k: "k \<noteq> []"
  shows "lru_ok (lru_set c k d lm t) \<and> maxSize (lru_set c k d lm t) = maxSize c"
proof -
  let ?xs = "AList.delete k (cache c)
    @ [(k, \<lparr>ce_data = d, ce_lastModified = lm, ce_lastAccessed = t\<rparr>)]"
  have len: "length ?xs \<le> Suc (maxSize c)"
    using ok length_delete_le[of k "cache c"] by (simp add: lru_ok_def)
  have keys: "[] \<notin> fst ` set ?xs"
    using ok k keys_delete[of k "cache c"] by (auto simp: lru_ok_def)
  show ?thesis
  proof (cases "length ?xs \<le> maxSize c")
    case True
    then show ?thesis using keys by (simp add: lru_set_def evictIfNeeded_def lru_ok_def)
  next
    case False
    then obtain fk e rest where xs: "?xs = (fk, e) # rest"
      by (cases ?xs) auto
    have fk: "fk \<noteq> []" using keys xs by (metis fst_conv image_eqI list.set_intros(1))
    have "length (AList.delete fk ?xs) \<le> length rest"
      unfolding xs by (rule length_delete_hd)
    moreover have "length rest \<le> maxSize c" using len xs by simp
    moreover have "[] \<notin> fst ` set (AList.delete fk ?xs)"
      using keys keys_delete[of fk ?xs] by blast
    ultimately show ?thesis using False xs fk
      by (simp add: lru_set_def evictIfNeeded_def lru_ok_def)
  qed
qed

lemma lru_ok_get:
  assumes ok: "lru_ok c"
  shows "lru_ok (snd (lru_get c k t)) \<and> maxSize (snd (lru_get c k t)) = maxSize c"
proof (cases "map_of (cache c) k")
  case None
  then show ?thesis using ok by (simp add: lru_get_def)
next
  case (Some e)
  have mem: "(k, e) \<in> set (cache c)" using Some by (rule map_of_SomeD)
  then have kne: "k \<noteq> []" using ok by (force simp: lru_ok_def)
  have "length (AList.delete k (cache c)) < length (cache c)"
    using mem by (rule length_delete_mem)
  moreover have "[] \<notin> fst ` set (AList.delete k (cache c))"
    using ok keys_delete[of k "cache c"] by (auto simp: lru_ok_def)
  ultimately show ?thesis using ok kne Some
    by (simp add: lru_get_def lru_ok_def)
qed

lemma lru_ok_delete:
  "lru_ok c \<Longrightarrow> lru_ok (lru_delete c k) \<and> maxSize (lru_delete c k) = maxSize c"
  using length_delete_le[of k "cache c"] keys_delete[of k "cache c"]
  by (auto simp: lru_ok_def lru_delete_def)

lemma lru_ok_step:
  "lru_ok c \<Longrightarrow> opKey x \<noteq> Some [] \<Longrightarrow>
   lru_ok (lru_step c x) \<and> maxSize (lru_step c x) = maxSize c"
  by (cases x) (simp_all add: lru_ok_set lru_ok_get lru_ok_delete, simp add: lru_ok_def)

lemma lru_ok_run:
  "lru_ok c \<Longrightarrow> \<forall>x \<in> set ops. opKey x \<noteq> Some [] \<Longrightarrow>
   lru_ok (lru_run c ops) \<and> maxSize (lru_run c ops) = maxSize c"
  unfolding lru_run_def
  by (induction ops arbitrary: c) (simp_all add: lru_ok_step)

lemma maxSize_bounds: "1 \<le> LRUCache_maxSize arg \<and> LRUCache_maxSize arg \<le> 10000"
proof (cases arg)
  case None
  then show ?thesis by (simp add: LRUCache_maxSize_def)
next
  case (Some n)
  show ?thesis
  proof (cases n)
    case (Num r)
    have "1 \<le> r \<Longrightarrow> r \<le> 10000 \<Longrightarrow> 1 \<le> nat \<lfloor>r\<rfloor> \<and> nat \<lfloor>r\<rfloor> \<le> 10000"
      by (simp add: le_floor_iff floor_le_iff nat_le_iff) linarith
    then show ?thesis using Some Num by (auto simp: LRUCache_maxSize_def)
  qed (use Some in \<open>simp_all add: LRUCache_maxSize_def\<close>)
qed

lemma config_cacheSize_bounds: "1 \<le> config_cacheSize ov v \<and> config_cacheSize ov v \<le> 10000"
  by (auto simp: config_cacheSize_def cacheSizeVarValid_def split: option.splits)

lemma listingCacheCapacity_eq: "listingCacheCapacity ov v = config_cacheSize ov v"
  using config_cacheSize_bounds[of ov v]
  by (simp add: listingCacheCapacity_def LRUCache_maxSize_def)

subsection \<open>The order of the entries of the listing cache\<close>

lemma delete_filter: "AList.delete k xs = filter (\<lambda>p. fst p \<noteq> k) xs"
  by (induction xs) auto

lemma distinct_keys_delete:
  "distinct (map fst xs) \<Longrightarrow> distinct (map fst (AList.delete k xs))"
  by (simp add: delete_filter distinct_map_filter)

lemma key_not_in_delete: "k \<notin> fst ` set (AList.delete k xs)"
  by (auto simp: delete_filter)

lemma delete_absent: "k \<notin> fst ` set xs \<Longrightarrow> AList.delete k xs = xs"
  by (induction xs) auto

lemma evictIfNeeded_cases:
  "cache (evictIfNeeded c) = cache c
   \<or> (\<exists>k. cache (evictIfNeeded c) = AList.delete k (cache c))"
  by (auto simp: evictIfNeeded_def split: list.splits)

lemma evictIfNeeded_distinct:
  "distinct (map fst (cache c)) \<Longrightarrow> distinct (map fst (cache (evictIfNeeded c)))"
  using evictIfNeeded_cases[of c] by (auto simp: distinct_keys_delete)

lemma lru_distinct_step:
  assumes "distinct (map fst (cache c))"
  shows "distinct (map fst (cache (lru_step c x)))"
proof (cases x)
  case (LruGet k t)
  show ?thesis
  proof (cases "map_of (cache c) k")
    case None
    then show ?thesis using assms LruGet by (simp add: lru_get_def)
  next
    case (Some e)
    then show ?thesis
      using assms LruGet distinct_keys_delete[of "cache c" k] key_not_in_delete[of k "cache c"]
      by (simp add: lru_get_def)
  qed
next
  case (LruSet k d lm t)
  have "distinct (map fst (AList.delete k (cache c)
      @ [(k, \<lparr>ce_data = d, ce_lastModified = lm, ce_lastAccessed = t\<rparr>)]))"
    using assms distinct_keys_delete[of "cache c" k] key_not_in_delete[of k "cache c"] by simp
  then show ?thesis
    using LruSet
      evictIfNeeded_distinct[of "c\<lparr>cache := AList.delete k (cache c)
        @ [(k, \<lparr>ce_data = d, ce_lastModified = lm, ce_lastAccessed = t\<rparr>)]\<rparr>"]
    by (simp add: lru_set_def)
next
  case (LruDelete k)
  then show ?thesis using assms distinct_keys_delete[of "cache c" k] by (simp add: lru_delete_def)
next
  case LruClear
  then show ?thesis by simp
qed

lemma lru_distinct_run:
  "distinct (map fst (cache c)) \<Longrightarrow> distinct (map fst (cache (lru_run c ops)))"
  unfolding lru_run_def
  by (induction ops arbitrary: c) (simp_all add: lru_distinct_step)

lemma inOrder_delete: "inOrder T xs \<Longrightarrow> inOrder T (AList.delete k xs)"
  by (auto simp: inOrder_def delete_filter sorted_filter)

lemma inOrder_evict:
  "inOrder T (cache c) \<Longrightarrow> inOrder T (cache (evictIfNeeded c))"
  using evictIfNeeded_cases[of c] by (auto simp: inOrder_delete)

lemma inOrder_append:
  assumes "inOrder T xs" and "\<forall>u \<in> T. u \<le> t" and "lastAccessedOf p = t"
  shows "inOrder (insert t T) (xs @ [p])"
  using assms by (auto simp: inOrder_def sorted_append)

lemma inOrder_mono: "inOrder T xs \<Longrightarrow> T \<subseteq> T' \<Longrightarrow> inOrder T' xs"
  by (auto simp: inOrder_def)

lemma clockOrdered_snoc:
  assumes "clockOrdered (ops @ [x])"
  shows "clockOrdered ops"
    and "opTime x = Some t \<Longrightarrow> \<forall>u \<in> set (List.map_filter opTime ops). u \<le> t"
  using assms by (auto simp: clockOrdered_def map_filter_def sorted_append)

lemma map_filter_snoc_times:
  "set (List.map_filter opTime (ops @ [x]))
     = set (List.map_filter opTime ops) \<union> (case opTime x of None \<Rightarrow> {} | Some t \<Rightarrow> {t})"
  by (auto simp: map_filter_def split: option.splits)

lemma lru_run_snoc: "lru_run c (ops @ [x]) = lru_step (lru_run c ops) x"
  by (simp add: lru_run_def)

lemma lru_inOrder_run:
  fixes ops :: "'a lru_op list"
  assumes "clockOrdered ops" and "cache c = []"
  shows "inOrder (set (List.map_filter opTime ops)) (cache (lru_run c ops))"
  using assms(1)
proof (induction ops rule: rev_induct)
  case Nil
  then show ?case using assms(2) by (simp add: lru_run_def inOrder_def)
next
  case (snoc x ops)
  let ?T = "set (List.map_filter opTime ops)"
  let ?c = "lru_run c ops"
  have ih: "inOrder ?T (cache ?c)" using snoc.IH clockOrdered_snoc(1)[OF snoc.prems] by simp
  show ?case
  proof (cases x)
    case (LruGet k t)
    have le: "\<forall>u \<in> ?T. u \<le> t" using clockOrdered_snoc(2)[OF snoc.prems, of t] LruGet by simp
    have T': "set (List.map_filter opTime (ops @ [x])) = insert t ?T"
      using LruGet by (simp add: map_filter_snoc_times)
    show ?thesis
    proof (cases "map_of (cache ?c) k")
      case None
      then show ?thesis using ih LruGet T' inOrder_mono[of ?T "cache ?c" "insert t ?T"]
        by (auto simp: lru_run_snoc lru_get_def)
    next
      case (Some e)
      have "inOrder (insert t ?T) (AList.delete k (cache ?c) @ [(k, e\<lparr>ce_lastAccessed := t\<rparr>)])"
        by (rule inOrder_append[OF inOrder_delete[OF ih] le]) (simp add: lastAccessedOf_def)
      then show ?thesis using LruGet T' Some by (simp add: lru_run_snoc lru_get_def)
    qed
  next
    case (LruSet k d lm t)
    have le: "\<forall>u \<in> ?T. u \<le> t" using clockOrdered_snoc(2)[OF snoc.prems, of t] LruSet by simp
    have T': "set (List.map_filter opTime (ops @ [x])) = insert t ?T"
      using LruSet by (simp add: map_filter_snoc_times)
    have "inOrder (insert t ?T) (AList.delete k (cache ?c)
        @ [(k, \<lparr>ce_data = d, ce_lastModified = lm, ce_lastAccessed = t\<rparr>)])"
      by (rule inOrder_append[OF inOrder_delete[OF ih] le]) (simp add: lastAccessedOf_def)
    then have "inOrder (insert t ?T) (cache (evictIfNeeded (?c\<lparr>cache := AList.delete k (cache ?c)
        @ [(k, \<lparr>ce_data = d, ce_lastModified = lm, ce_lastAccessed = t\<rparr>)]\<rparr>)))"
      using inOrder_evict[of "insert t ?T" "?c\<lparr>cache := AList.delete k (cache ?c)
        @ [(k, \<lparr>ce_data = d, ce_lastModified = lm, ce_lastAccessed = t\<rparr>)]\<rparr>"] by simp
    then show ?thesis using LruSet T' by (simp add: lru_run_snoc lru_set_def)
  next
    case (LruDelete k)
    then show ?thesis using inOrder_delete[OF ih, of k]
      by (simp add: lru_run_snoc lru_delete_def map_filter_snoc_times)
  next
    case LruClear
    then show ?thesis by (simp add: lru_run_snoc inOrder_def)
  qed
qed

text \<open>A \<open>set\<close> with a new key on a full cache removes the first entry and nothing else.\<close>

lemma lru_set_evicts_first:
  assumes ok: "lru_ok c" and d: "distinct (map fst (cache c))"
    and k: "k \<noteq> []" "k \<notin> fst ` set (cache c)"
    and full: "length (cache c) = maxSize c" "1 \<le> maxSize c"
  shows "cache (lru_set c k v lm t)
    = tl (cache c) @ [(k, \<lparr>ce_data = v, ce_lastModified = lm, ce_lastAccessed = t\<rparr>)]"
proof -
  obtain fk e0 rest where c: "cache c = (fk, e0) # rest"
    using full by (cases "cache c") auto
  have fk: "fk \<noteq> []" "fk \<noteq> k" "fk \<notin> fst ` set rest"
    using ok k(2) d c by (auto simp: lru_ok_def)
  let ?e = "(k, \<lparr>ce_data = v, ce_lastModified = lm, ce_lastAccessed = t\<rparr>)"
  have del: "AList.delete k (cache c) = cache c" by (rule delete_absent[OF k(2)])
  have r: "AList.delete fk rest = rest" by (rule delete_absent[OF fk(3)])
  have s: "lru_set c k v lm t = evictIfNeeded (c\<lparr>cache := cache c @ [?e]\<rparr>)"
    unfolding lru_set_def del by (rule refl)
  have "cache (evictIfNeeded (c\<lparr>cache := ((fk, e0) # rest) @ [?e]\<rparr>)) = rest @ [?e]"
    using fk full c r by (simp add: evictIfNeeded_def)
  then show ?thesis unfolding s c by simp
qed

text \<open>
  C9 (as the code has it). The capacity of a cache always lies between 1 and 10000: a
  size between 1 and 10000 is taken (rounded down), a larger one is capped at 10000, and
  a missing one or one below 1 gives the default 50. The capacity of the listing caches
  is the configured size when the whole environment is valid (the variable is a decimal
  number from 1 to 10000 and every other variable passes its validation), and 50
  otherwise. In every history of \<open>get\<close>, \<open>set\<close>, \<open>delete\<close> and \<open>clear\<close> calls with
  non-empty keys on a new cache, the number of entries never exceeds the capacity; a \<open>set\<close>
  with a new key on a full cache removes the first entry and nothing else; and when the
  clock of the history does not go back, the entries are in the order of their last
  access, so that the first entry is the least recently used one.
\<close>

theorem lru_capacity_and_bound:
  fixes ops :: "'a lru_op list"
  assumes "\<forall>x \<in> set ops. opKey x \<noteq> Some []"
  shows "1 \<le> LRUCache_maxSize arg \<and> LRUCache_maxSize arg \<le> 10000
    \<and> (\<forall>r. 1 \<le> r \<and> r \<le> 10000 \<longrightarrow> LRUCache_maxSize (Some (Num r)) = nat \<lfloor>r\<rfloor>)
    \<and> (\<forall>r. 10000 < r \<longrightarrow> LRUCache_maxSize (Some (Num r)) = 10000)
    \<and> (\<forall>r. r < 1 \<longrightarrow> LRUCache_maxSize (Some (Num r)) = 50)
    \<and> LRUCache_maxSize None = 50
    \<and> listingCacheCapacity othersValid v =
         (if othersValid \<and> cacheSizeVarValid v \<and> v \<noteq> None then digitsValue (the v) else 50)
    \<and> maxSize (lru_run (new_LRUCache arg) ops) = LRUCache_maxSize arg
    \<and> length (cache (lru_run (new_LRUCache arg) ops)) \<le> LRUCache_maxSize arg
    \<and> (\<forall>k d lm t. k \<noteq> [] \<and> k \<notin> fst ` set (cache (lru_run (new_LRUCache arg) ops))
           \<and> length (cache (lru_run (new_LRUCache arg) ops)) = LRUCache_maxSize arg
         \<longrightarrow> cache (lru_set (lru_run (new_LRUCache arg) ops) k d lm t)
             = tl (cache (lru_run (new_LRUCache arg) ops))
               @ [(k, \<lparr>ce_data = d, ce_lastModified = lm, ce_lastAccessed = t\<rparr>)])
    \<and> (clockOrdered ops
         \<longrightarrow> sorted (map lastAccessedOf (cache (lru_run (new_LRUCache arg) ops))))"
proof -
  let ?c = "new_LRUCache arg :: 'a LRUCache"
  have ok0: "lru_ok ?c" by (simp add: lru_ok_def new_LRUCache_def)
  have run: "lru_ok (lru_run ?c ops) \<and> maxSize (lru_run ?c ops) = maxSize ?c"
    using ok0 assms by (rule lru_ok_run)
  have m0: "maxSize ?c = LRUCache_maxSize arg" by (simp add: new_LRUCache_def)
  have cap: "listingCacheCapacity othersValid v =
         (if othersValid \<and> cacheSizeVarValid v \<and> v \<noteq> None then digitsValue (the v) else 50)"
    by (auto simp: listingCacheCapacity_eq config_cacheSize_def split: option.splits)
  have size: "1 \<le> LRUCache_maxSize arg \<and> LRUCache_maxSize arg \<le> 10000
    \<and> (\<forall>r. 1 \<le> r \<and> r \<le> 10000 \<longrightarrow> LRUCache_maxSize (Some (Num r)) = nat \<lfloor>r\<rfloor>)
    \<and> (\<forall>r. 10000 < r \<longrightarrow> LRUCache_maxSize (Some (Num r)) = 10000)
    \<and> (\<forall>r. r < 1 \<longrightarrow> LRUCache_maxSize (Some (Num r)) = 50)
    \<and> LRUCache_maxSize None = 50
    \<and> maxSize (lru_run ?c ops) = LRUCache_maxSize arg
    \<and> length (cache (lru_run ?c ops)) \<le> LRUCache_maxSize arg"
    using maxSize_bounds[of arg] run m0 by (auto simp: lru_ok_def LRUCache_maxSize_def)
  have dist: "distinct (map fst (cache (lru_run ?c ops)))"
    by (rule lru_distinct_run) (simp add: new_LRUCache_def)
  have evict: "cache (lru_set (lru_run ?c ops) k d lm t)
        = tl (cache (lru_run ?c ops))
          @ [(k, \<lparr>ce_data = d, ce_lastModified = lm, ce_lastAccessed = t\<rparr>)]"
    if "k \<noteq> []" "k \<notin> fst ` set (cache (lru_run ?c ops))"
      "length (cache (lru_run ?c ops)) = LRUCache_maxSize arg" for k d lm t
    using lru_set_evicts_first[of "lru_run ?c ops" k d lm t] run dist that m0
      maxSize_bounds[of arg] by simp
  have order: "sorted (map lastAccessedOf (cache (lru_run ?c ops)))" if "clockOrdered ops"
    using lru_inOrder_run[OF that, of ?c] by (simp add: new_LRUCache_def inOrder_def)
  show ?thesis using size cap evict order by blast
qed

theorem lru_capacity_and_bound_witness:
  "length (cache (lru_run (new_LRUCache (Some (Num 2)))
       [LruSet ''a-findings'' ([]::Finding list) 1 1, LruSet ''b-findings'' [] 2 2,
        LruGet ''a-findings'' 3])) \<le> 2
   \<and> map fst (cache (lru_run (new_LRUCache (Some (Num 2)))
       [LruSet ''a-findings'' ([]::Finding list) 1 1, LruSet ''b-findings'' [] 2 2,
        LruGet ''a-findings'' 3])) = [''b-findings'', ''a-findings'']
   \<and> map fst (cache (lru_set (lru_run (new_LRUCache (Some (Num 2)))
       [LruSet ''a-findings'' ([]::Finding list) 1 1, LruSet ''b-findings'' [] 2 2,
        LruGet ''a-findings'' 3]) ''c-findings'' [] 4 4)) = [''a-findings'', ''c-findings'']
   \<and> sorted (map lastAccessedOf (cache (lru_run (new_LRUCache (Some (Num 2)))
       [LruSet ''a-findings'' ([]::Finding list) 1 1, LruSet ''b-findings'' [] 2 2,
        LruGet ''a-findings'' 3])))
   \<and> listingCacheCapacity True (Some ''7'') = 7
   \<and> listingCacheCapacity False (Some ''7'') = 50"
proof -
  let ?ops = "[LruSet ''a-findings'' ([]::Finding list) 1 1, LruSet ''b-findings'' [] 2 2,
        LruGet ''a-findings'' 3]"
  have h: "\<forall>x \<in> set ?ops. opKey x \<noteq> Some []" by simp
  have c: "LRUCache_maxSize (Some (Num 2)) = 2" by (simp add: LRUCache_maxSize_def)
  have keys: "map fst (cache (lru_run (new_LRUCache (Some (Num 2))) ?ops))
      = [''b-findings'', ''a-findings'']"
    by (simp add: lru_run_def new_LRUCache_def c lru_set_def lru_get_def evictIfNeeded_def)
  have len: "length (cache (lru_run (new_LRUCache (Some (Num 2))) ?ops)) = 2"
    using arg_cong[OF keys, of length] by simp
  have fresh: "''c-findings'' \<notin> fst ` set (cache (lru_run (new_LRUCache (Some (Num 2))) ?ops))"
    using arg_cong[OF keys, of set] by simp
  have clock: "clockOrdered ?ops" by (simp add: clockOrdered_def map_filter_def)
  have valid: "cacheSizeVarValid (Some ''7'')" "digitsValue ''7'' = 7"
    by (simp_all add: cacheSizeVarValid_def digitsValue_def isDigit_def)
  note inst = lru_capacity_and_bound[OF h, of "Some (Num 2)"]
  have tl: "map fst (tl (cache (lru_run (new_LRUCache (Some (Num 2))) ?ops))) = [''a-findings'']"
    using arg_cong[OF keys, of tl] by (simp add: map_tl)
  have ev: "map fst (cache (lru_set (lru_run (new_LRUCache (Some (Num 2))) ?ops)
      ''c-findings'' [] 4 4)) = [''a-findings'', ''c-findings'']"
    using inst[of True None] fresh len c tl by simp
  have so: "sorted (map lastAccessedOf (cache (lru_run (new_LRUCache (Some (Num 2))) ?ops)))"
    using inst[of True None] clock by blast
  have c7: "listingCacheCapacity True (Some ''7'') = 7"
    using inst[of True "Some ''7''"] valid by simp
  have c50: "listingCacheCapacity False (Some ''7'') = 50"
    using inst[of False "Some ''7''"] by simp
  show ?thesis using keys len ev so c7 c50 by simp
qed

text \<open>A configured size of 0, or of 20000, gives the capacity 50, where clamping to the
  range from 1 to 10000 would give 1, or 10000.\<close>

theorem lru_capacity_not_clamped:
  "listingCacheCapacity True (Some ''0'') = 50
   \<and> spec_clampedCapacity (of_nat (digitsValue ''0'')) = 1
   \<and> listingCacheCapacity True (Some ''20000'') = 50
   \<and> spec_clampedCapacity (of_nat (digitsValue ''20000'')) = 10000"
  by (simp add: listingCacheCapacity_def config_cacheSize_def cacheSizeVarValid_def
      digitsValue_def isDigit_def LRUCache_maxSize_def spec_clampedCapacity_def)

subsection \<open>The message of a refused instance lock\<close>

text \<open>
  C6. When \<open>acquireInstanceLock\<close> fails because the lock is already being held, the
  error it throws has a message that contains the working directory, the warning that
  running several instances in one directory can corrupt data, and the \<open>rm\<close> command for
  the lock's directory.
\<close>

theorem acquireInstanceLock_held_message:
  assumes "acquireInstanceLock_try st = (Inl e, st')"
    and "sublist ''already being held'' (message e)"
  shows "\<exists>m. acquireInstanceLock st = (Inl (Error m), st')
    \<and> sublist (workingDir st) m
    \<and> sublist ''Running multiple instances in the same directory can lead to data corruption.'' m
    \<and> sublist (''rm -r \"'' @ path_join (workingDir st) ''.mcp-instance.lock'' @ ''\"'') m"
proof -
  let ?m = "alreadyRunningMessage st"
  have r: "acquireInstanceLock st = (Inl (Error ?m), st')"
    using assms by (simp add: acquireInstanceLock_def catch_def throw_def)
  have a: "sublist (workingDir st) ?m"
    unfolding alreadyRunningMessage_def by (rule sublist_mid)
  have b: "sublist
      ''Running multiple instances in the same directory can lead to data corruption.'' ?m"
    unfolding alreadyRunningMessage_def sublist_def
    by (rule exI[of _ "''Another MCP Security Report instance is already running in ''
          @ workingDir st @ ''.'' @ [CHR 0x0A]"], rule exI) simp
  have c: "sublist (''rm -r \"'' @ path_join (workingDir st) ''.mcp-instance.lock'' @ ''\"'') ?m"
    unfolding alreadyRunningMessage_def sublist_def instanceLockPath_def path_join_def
    by (rule exI[of _ "''Another MCP Security Report instance is already running in ''
          @ workingDir st @ ''.'' @ [CHR 0x0A]
          @ ''Running multiple instances in the same directory can lead to data corruption.''
          @ [CHR 0x0A]
          @ ''If you are certain no other instance is running, you can manually remove the lock file:''
          @ [CHR 0x0A] @ ''  ''"], rule exI[of _ "[]"]) simp
  show ?thesis using r a b c by blast
qed

theorem acquireInstanceLock_held_message_witness:
  "\<exists>m. fst (acquireInstanceLock lockedState) = Inl (Error m)
    \<and> sublist ''/data'' m
    \<and> sublist ''Running multiple instances in the same directory can lead to data corruption.'' m
    \<and> sublist ''rm -r \"/data/.mcp-instance.lock\"'' m"
proof -
  have t: "acquireInstanceLock_try lockedState
      = (Inl (ErrnoException ''ELOCKED'' ''Lock file is already being held''), lockedState)"
    by (simp add: acquireInstanceLock_try_def lockedState_def bind_def catch_def
        ensureDirectoryExists_def fs_mkdir_def ancestors_def initializeProjectIndex_def
        fs_access_def projectIndexPath_def path_join_def lockfile_lock_def instanceLockPath_def)
  have h: "sublist ''already being held''
      (message (ErrnoException ''ELOCKED'' ''Lock file is already being held''))"
    by code_simp
  have w: "workingDir lockedState = ''/data''" by (simp add: lockedState_def)
  show ?thesis
    using acquireInstanceLock_held_message[OF t h] by (auto simp: w path_join_def)
qed

subsection \<open>The sweep of stale locks\<close>

text \<open>
  C7 (what the code does). The process holds the instance lock, whose directory
  \<open>/data/.mcp-instance.lock\<close> is 100 seconds old; the sweep removes it. The guard of
  \<open>cleanupStaleLocks\<close> compares the artifact's path with \<open>instanceLockPath\<close>, which
  lacks the suffix \<open>.lock\<close>.
\<close>

theorem cleanupStaleLocks_removes_own_lock:
  "instanceLockRelease sweepState
   \<and> map_of (files sweepState) ''/data/.mcp-instance.lock'' = Some (Dir 0)
   \<and> map_of (files (snd (cleanupStaleLocks sweepState))) ''/data/.mcp-instance.lock'' = None"
  by (simp add: sweepState_def lockedState_def cleanupStaleLocks_def ignoreErrors_def bind_def
      fs_readdir_def children_def childName_def cleanupLock_def path_join_def
      instanceLockPath_def fs_stat_def fs_rm_def under_def Let_def)

subsection \<open>Reading a missing index\<close>

lemma sublist_app_left: "sublist x y \<Longrightarrow> sublist x (p @ y)"
  unfolding sublist_def by (metis append.assoc)

lemma sublist_app_right: "sublist x y \<Longrightarrow> sublist x (y @ s)"
  unfolding sublist_def by (metis append.assoc)

lemma sublist_join: "d \<in> set ds \<Longrightarrow> sublist d (join sep ds)"
proof (induction sep ds rule: join.induct)
  case (3 sep x y ys)
  show ?case
  proof (cases "d = x")
    case True
    then show ?thesis by simp
  next
    case False
    then have "sublist d (join sep (y # ys))" using 3 by simp
    then have "sublist d (x @ sep @ join sep (y # ys))"
      by (intro sublist_app_left)
    then show ?thesis by simp
  qed
qed simp_all

lemma corruptionMessage_names: "d \<in> set ds \<Longrightarrow> sublist d (corruptionMessage st ds)"
proof -
  assume "d \<in> set ds"
  then have "sublist d (join '', '' ds)" by (rule sublist_join)
  then obtain a b where "join '', '' ds = a @ d @ b" unfolding sublist_def by blast
  then show ?thesis unfolding corruptionMessage_def sublist_def
    by (metis append.assoc)
qed

lemma corruptionMessage_fatal:
  "sublist ''FATAL: MCP Security Report directory corruption'' (corruptionMessage st ds)"
  unfolding corruptionMessage_def sublist_def
  by (rule exI[of _ "[]"], rule exI) simp

lemma hasProjectJson_eq:
  "\<forall>p. \<not> faults st OpAccess p \<Longrightarrow>
   hasProjectJson st name \<longleftrightarrow> map_of (files st) (path_join (path_join (workingDir st) name) ''project.json'') \<noteq> None"
  by (auto simp: hasProjectJson_def fs_access_def split: option.splits)

text \<open>
  C5 (as the code has it). With no index cached and the index file absent, the read
  returns the empty index when the check is skipped (the working directory's path contains
  \<open>tmp\<close>, \<open>temp\<close> or \<open>test\<close>, or the process runs under test). Otherwise, when the
  directory can be listed, it fails with the corruption diagnostic exactly when at least
  one counted subdirectory (a directory whose name starts with none of \<open>.\<close>,
  \<open>node_modules\<close>, \<open>tmp\<close>, \<open>temp\<close>) holds a \<open>project.json\<close> and either lock
  artifacts exist or more than one such subdirectory exists; the diagnostic contains the
  name of every such subdirectory. In every other case it returns the empty index.
\<close>

theorem readProjectIndex_missing_index:
  assumes cache: "projectIndexCache st = None"
    and absent: "map_of (files st) (projectIndexPath st) = None"
    and rd: "\<not> faults st OpReadFile (projectIndexPath st)"
  shows "(corruptionCheckSkipped st \<longrightarrow>
            readProjectIndex st = (Inr emptyIndex, st\<lparr>projectIndexCache := Some emptyIndex\<rparr>))
    \<and> (\<not> corruptionCheckSkipped st \<and> (\<forall>p. \<not> faults st OpAccess p)
         \<and> \<not> faults st OpReaddir (workingDir st)
         \<and> (\<exists>t. map_of (files st) (workingDir st) = Some (Dir t)) \<longrightarrow>
          (if orphanedProjectDirs st \<noteq> []
               \<and> (list_ex (\<lambda>entry. isLockName (fst entry)) (children (files st) (workingDir st))
                  \<or> length (orphanedProjectDirs st) > 1)
           then readProjectIndex st = (Inl (Error (corruptionMessage st (orphanedProjectDirs st))), st)
                \<and> (\<forall>d \<in> set (orphanedProjectDirs st).
                      sublist d (corruptionMessage st (orphanedProjectDirs st)))
           else readProjectIndex st = (Inr emptyIndex, st\<lparr>projectIndexCache := Some emptyIndex\<rparr>)))"
proof -
  have rf: "fs_readFile (projectIndexPath st) st = (Inl (enoent (projectIndexPath st)), st)"
    using absent rd by (simp add: fs_readFile_def)
  have r: "readProjectIndex st =
      bind checkForCorruptedDirectory
        (\<lambda>_ s. (Inr emptyIndex, s\<lparr>projectIndexCache := Some emptyIndex\<rparr>)) st"
    using cache rf by (simp add: readProjectIndex_def enoent_def)
  have skipped: "corruptionCheckSkipped st \<Longrightarrow> checkForCorruptedDirectory st = (Inr (), st)"
    by (simp add: checkForCorruptedDirectory_def catch_def)
  have A: "corruptionCheckSkipped st \<longrightarrow>
            readProjectIndex st = (Inr emptyIndex, st\<lparr>projectIndexCache := Some emptyIndex\<rparr>)"
    using r skipped by (simp add: bind_def)
  have B: "(if orphanedProjectDirs st \<noteq> []
               \<and> (list_ex (\<lambda>entry. isLockName (fst entry)) (children (files st) (workingDir st))
                  \<or> length (orphanedProjectDirs st) > 1)
           then readProjectIndex st = (Inl (Error (corruptionMessage st (orphanedProjectDirs st))), st)
                \<and> (\<forall>d \<in> set (orphanedProjectDirs st).
                      sublist d (corruptionMessage st (orphanedProjectDirs st)))
           else readProjectIndex st = (Inr emptyIndex, st\<lparr>projectIndexCache := Some emptyIndex\<rparr>))"
    if ns: "\<not> corruptionCheckSkipped st" and acc: "\<forall>p. \<not> faults st OpAccess p"
      and nrd: "\<not> faults st OpReaddir (workingDir st)"
      and wd: "map_of (files st) (workingDir st) = Some (Dir t)" for t
  proof -
    have ls: "fs_readdir (workingDir st) st = (Inr (children (files st) (workingDir st)), st)"
      using nrd wd by (simp add: fs_readdir_def)
    have dirs: "filter (hasProjectJson st) (map fst (filter projectLikeDir (children (files st) (workingDir st))))
        = orphanedProjectDirs st"
      unfolding orphanedProjectDirs_def using hasProjectJson_eq[OF acc] by (intro filter_cong) auto
    have c: "checkForCorruptedDirectory st =
        (if orphanedProjectDirs st \<noteq> []
            \<and> (list_ex (\<lambda>entry. isLockName (fst entry)) (children (files st) (workingDir st))
               \<or> length (orphanedProjectDirs st) > 1)
         then (Inl (Error (corruptionMessage st (orphanedProjectDirs st))), st)
         else (Inr (), st))"
      apply (simp only: checkForCorruptedDirectory_def catch_def ns if_False bind_def ls
          prod.case sum.case Let_def dirs)
      using corruptionMessage_fatal[of st "orphanedProjectDirs st"]
      by (simp add: throw_def return_def)
    show ?thesis
      using corruptionMessage_names[of _ "orphanedProjectDirs st" st]
      by (simp add: r bind_def c)
  qed
  show ?thesis using A B by blast
qed



lemma orphanState_not_skipped: "\<not> corruptionCheckSkipped orphanState"
  by (simp add: corruptionCheckSkipped_def orphanState_def lockedState_def sublist_Cons_right)

lemma orphanState_children: "children (files orphanState) (workingDir orphanState) = [(''alpha'', Dir 0), (''beta'', Dir 0)]"
  by (simp add: orphanState_def lockedState_def children_def childName_def)

lemma orphanState_dirs: "orphanedProjectDirs orphanState = [''alpha'', ''beta'']"
  by (simp add: orphanedProjectDirs_def orphanState_children projectLikeDir_def) (simp add: orphanState_def lockedState_def path_join_def)

lemma tmpOrphanState_skipped: "corruptionCheckSkipped tmpOrphanState"
  by (simp add: corruptionCheckSkipped_def tmpOrphanState_def lockedState_def sublist_Cons_right)


theorem readProjectIndex_missing_index_witness:
  "fst (readProjectIndex orphanState) = Inl (Error (corruptionMessage orphanState [''alpha'', ''beta'']))
   \<and> sublist ''alpha'' (corruptionMessage orphanState [''alpha'', ''beta''])
   \<and> sublist ''beta'' (corruptionMessage orphanState [''alpha'', ''beta''])"
proof -
  have h1: "projectIndexCache orphanState = None" by (simp add: orphanState_def lockedState_def)
  have h2: "map_of (files orphanState) (projectIndexPath orphanState) = None"
    by (simp add: orphanState_def lockedState_def projectIndexPath_def path_join_def)
  have h3: "\<not> faults orphanState OpReadFile (projectIndexPath orphanState)"
    by (simp add: orphanState_def lockedState_def)
  have f: "(\<forall>p. \<not> faults orphanState OpAccess p) \<and> \<not> faults orphanState OpReaddir (workingDir orphanState)
      \<and> (\<exists>t. map_of (files orphanState) (workingDir orphanState) = Some (Dir t))"
    by (simp add: orphanState_def lockedState_def)
  show ?thesis
    using readProjectIndex_missing_index[OF h1 h2 h3] orphanState_not_skipped f
    by (simp add: orphanState_dirs)
qed

text \<open>In \<open>/tmp/audit\<close> two subdirectories hold a \<open>project.json\<close> and the index is
  absent: the heuristic of the specification fires, and the read returns the empty index.\<close>

theorem readProjectIndex_skips_check_in_tmp:
  "projectIndexCache tmpOrphanState = None
   \<and> map_of (files tmpOrphanState) (projectIndexPath tmpOrphanState) = None
   \<and> spec_projectDirs tmpOrphanState = [''alpha'', ''beta'']
   \<and> spec_corruptionFires tmpOrphanState
   \<and> fst (readProjectIndex tmpOrphanState) = Inr emptyIndex"
proof -
  have c: "children (files tmpOrphanState) (workingDir tmpOrphanState)
      = [(''alpha'', Dir 0), (''beta'', Dir 0)]"
    by (simp add: tmpOrphanState_def lockedState_def children_def childName_def)
  have d: "spec_projectDirs tmpOrphanState = [''alpha'', ''beta'']"
    by (simp add: spec_projectDirs_def c) (simp add: tmpOrphanState_def lockedState_def path_join_def)
  have cache: "projectIndexCache tmpOrphanState = None"
    by (simp add: tmpOrphanState_def lockedState_def)
  have rf: "fs_readFile (projectIndexPath tmpOrphanState) tmpOrphanState
      = (Inl (enoent (projectIndexPath tmpOrphanState)), tmpOrphanState)"
    by (simp add: fs_readFile_def projectIndexPath_def path_join_def tmpOrphanState_def
        lockedState_def)
  have ck: "checkForCorruptedDirectory tmpOrphanState = (Inr (), tmpOrphanState)"
    using tmpOrphanState_skipped by (simp add: checkForCorruptedDirectory_def catch_def)
  have r: "fst (readProjectIndex tmpOrphanState) = Inr emptyIndex"
    by (simp add: readProjectIndex_def cache rf enoent_def bind_def ck)
  show ?thesis using d r
    by (simp add: spec_corruptionFires_def) (simp add: tmpOrphanState_def lockedState_def projectIndexPath_def path_join_def)
qed

subsection \<open>Sanitized project names\<close>

lemma nameChar_not_space: "nameChar c \<Longrightarrow> \<not> isSpace c"
  by (auto simp: nameChar_def isSpace_def isLower_def isDigit_def)

lemma nameChar_not_upper: "nameChar c \<Longrightarrow> \<not> isUpper c"
  by (auto simp: nameChar_def isUpper_def isLower_def isDigit_def)

lemma nameChar_allowed: "nameChar c \<Longrightarrow> isAlnum c \<or> c = CHR ''-'' \<or> c = CHR ''_'' \<or> isSpace c"
  by (auto simp: nameChar_def isAlnum_def)

lemma lowerChar_nameChar:
  "isAlnum c \<or> c = CHR ''-'' \<or> c = CHR ''_'' \<Longrightarrow> nameChar (lowerChar c)"
  by (auto simp: nameChar_def isAlnum_def lowerChar_def isUpper_def isLower_def isDigit_def)

lemma replaceSpaceRuns_chars:
  "c \<in> set (replaceSpaceRuns s) \<Longrightarrow> c = CHR ''-'' \<or> (c \<in> set s \<and> \<not> isSpace c)"
proof (induction s rule: replaceSpaceRuns.induct)
  case 1
  then show ?case by simp
next
  case (2 d ds)
  then show ?case
    by (auto split: if_splits dest: set_dropWhileD)
qed

lemma replaceSpaceRuns_id: "\<forall>c \<in> set s. \<not> isSpace c \<Longrightarrow> replaceSpaceRuns s = s"
  by (induction s rule: replaceSpaceRuns.induct) auto

lemma set_trim: "set (trim s) \<subseteq> set s"
  unfolding trim_def by (auto dest!: set_dropWhileD)

lemma trim_id: "\<forall>c \<in> set s. \<not> isSpace c \<Longrightarrow> trim s = s"
proof -
  assume a: "\<forall>c \<in> set s. \<not> isSpace c"
  have d: "\<And>xs. \<forall>c \<in> set xs. \<not> isSpace c \<Longrightarrow> dropWhile isSpace xs = xs"
    by (case_tac xs) auto
  show ?thesis unfolding trim_def using a by (simp add: d)
qed

lemma sanitize_chars: "c \<in> set (sanitizeProjectName n) \<Longrightarrow> nameChar c"
proof -
  assume "c \<in> set (sanitizeProjectName n)"
  then have "c \<in> set (toLowerCase (replaceSpaceRuns
       (filter (\<lambda>c. isAlnum c \<or> c = CHR ''-'' \<or> c = CHR ''_'' \<or> isSpace c) n)))"
    unfolding sanitizeProjectName_def using set_trim by blast
  then obtain d where d: "d \<in> set (replaceSpaceRuns
       (filter (\<lambda>c. isAlnum c \<or> c = CHR ''-'' \<or> c = CHR ''_'' \<or> isSpace c) n))"
      and c: "c = lowerChar d"
    by (auto simp: toLowerCase_def)
  from replaceSpaceRuns_chars[OF d] have "isAlnum d \<or> d = CHR ''-'' \<or> d = CHR ''_''"
    by auto
  then show ?thesis unfolding c by (rule lowerChar_nameChar)
qed

lemma sanitize_fixed: "\<forall>c \<in> set s. nameChar c \<Longrightarrow> sanitizeProjectName s = s"
proof -
  assume a: "\<forall>c \<in> set s. nameChar c"
  have f: "filter (\<lambda>c. isAlnum c \<or> c = CHR ''-'' \<or> c = CHR ''_'' \<or> isSpace c) s = s"
    using a nameChar_allowed by (simp add: filter_id_conv)
  have r: "replaceSpaceRuns s = s" using a nameChar_not_space by (intro replaceSpaceRuns_id) blast
  have l: "toLowerCase s = s" using a nameChar_not_upper
    by (simp add: toLowerCase_def lowerChar_def map_idI)
  have t: "trim s = s" using a nameChar_not_space by (intro trim_id) blast
  show ?thesis by (simp add: sanitizeProjectName_def f r l t)
qed

lemma sanitize_idem: "sanitizeProjectName (sanitizeProjectName n) = sanitizeProjectName n"
  by (rule sanitize_fixed) (simp add: sanitize_chars)

lemma sanitize_no_dot: "CHR ''.'' \<notin> set (sanitizeProjectName n)"
  using sanitize_chars[of "CHR ''.''" n] by (auto simp: nameChar_def isLower_def isDigit_def)

lemma sanitize_no_slash: "CHR ''/'' \<notin> set (sanitizeProjectName n)"
  using sanitize_chars[of "CHR ''/''" n] by (auto simp: nameChar_def isLower_def isDigit_def)

lemma sanitize_no_space: "CHR '' '' \<notin> set (sanitizeProjectName n)"
  using sanitize_chars[of "CHR '' ''" n] by (auto simp: nameChar_def isLower_def isDigit_def)

subsection \<open>Frame lemmas of the file operations\<close>

lemma static_simps [simp]:
  "static (st\<lparr>files := f\<rparr>) = static st"
  "static (st\<lparr>projectIndexCache := c\<rparr>) = static st"
  "static (st\<lparr>instanceLockRelease := b\<rparr>) = static st"
  "static (st\<lparr>findingsCache := fc\<rparr>) = static st"
  "static (st\<lparr>auditTrailsCache := ac\<rparr>) = static st"
  by (simp_all add: static_def)

lemma static_fields:
  assumes "static a = static b"
  shows "workingDir a = workingDir b" "faults a = faults b" "now a = now b"
    "lockBusy a = lockBusy b" "NODE_ENV a = NODE_ENV b" "VITEST a = VITEST b"
    "yamlSizeLimit a = yamlSizeLimit b" "yamlLength a = yamlLength b"
    "auditYamlLength a = auditYamlLength b" "lockStaleMs a = lockStaleMs b"
    "cvssLib a = cvssLib b"
proof -
  have "workingDir (static a) = workingDir (static b)" "faults (static a) = faults (static b)"
    "now (static a) = now (static b)" "lockBusy (static a) = lockBusy (static b)"
    "NODE_ENV (static a) = NODE_ENV (static b)" "VITEST (static a) = VITEST (static b)"
    "yamlSizeLimit (static a) = yamlSizeLimit (static b)"
    "yamlLength (static a) = yamlLength (static b)"
    "auditYamlLength (static a) = auditYamlLength (static b)"
    "lockStaleMs (static a) = lockStaleMs (static b)"
    "cvssLib (static a) = cvssLib (static b)"
    using assms by simp_all
  then show "workingDir a = workingDir b" "faults a = faults b" "now a = now b"
    "lockBusy a = lockBusy b" "NODE_ENV a = NODE_ENV b" "VITEST a = VITEST b"
    "yamlSizeLimit a = yamlSizeLimit b" "yamlLength a = yamlLength b"
    "auditYamlLength a = auditYamlLength b" "lockStaleMs a = lockStaleMs b"
    "cvssLib a = cvssLib b"
    by (simp_all add: static_def)
qed

lemma static_paths:
  assumes "static a = static b"
  shows "projectIndexPath a = projectIndexPath b" "instanceLockPath a = instanceLockPath b"
    "lockArtifact a k = lockArtifact b k"
  using static_fields(1)[OF assms]
  by (simp_all add: projectIndexPath_def instanceLockPath_def lockArtifact_def)

lemma keepsI:
  "(\<And>st r st'. workingDir st = w \<Longrightarrow> m st = (r, st') \<Longrightarrow>
      static st' = static st \<and> (\<forall>k \<in> K. map_of (files st') k = map_of (files st) k))
   \<Longrightarrow> keeps w K m"
  unfolding keeps_def by blast

lemma keepsD:
  "keeps (workingDir st) K m \<Longrightarrow> m st = (r, st') \<Longrightarrow>
     static st' = static st \<and> (\<forall>k \<in> K. map_of (files st') k = map_of (files st) k)"
  unfolding keeps_def by blast

lemma keeps_return [intro!, simp]: "keeps w K (return x)"
  by (simp add: keeps_def return_def)

lemma keeps_throw [intro!, simp]: "keeps w K (throw e)"
  by (simp add: keeps_def throw_def)

lemma keeps_bind [intro!]:
  assumes "keeps w K m" and "\<And>x. keeps w K (f x)"
  shows "keeps w K (bind m f)"
proof (rule keepsI)
  fix st r st'
  assume w: "workingDir st = w" and b: "bind m f st = (r, st')"
  obtain r1 st1 where m: "m st = (r1, st1)" by (cases "m st")
  have k1: "static st1 = static st \<and> (\<forall>k \<in> K. map_of (files st1) k = map_of (files st) k)"
    using keepsD[of st K m r1 st1] assms(1) w m by simp
  then have w1: "workingDir st1 = w" using w static_fields(1)[of st1 st] by simp
  show "static st' = static st \<and> (\<forall>k \<in> K. map_of (files st') k = map_of (files st) k)"
  proof (cases r1)
    case (Inl e)
    then show ?thesis using b m k1 by (simp add: bind_def)
  next
    case (Inr x)
    then have "f x st1 = (r, st')" using b m by (simp add: bind_def)
    then show ?thesis using keepsD[of st1 K "f x" r st'] assms(2)[of x] w1 k1 by simp
  qed
qed

lemma keeps_catch [intro!]:
  assumes "keeps w K m" and "\<And>e. keeps w K (h e)"
  shows "keeps w K (catch m h)"
proof (rule keepsI)
  fix st r st'
  assume w: "workingDir st = w" and b: "catch m h st = (r, st')"
  obtain r1 st1 where m: "m st = (r1, st1)" by (cases "m st")
  have k1: "static st1 = static st \<and> (\<forall>k \<in> K. map_of (files st1) k = map_of (files st) k)"
    using keepsD[of st K m r1 st1] assms(1) w m by simp
  then have w1: "workingDir st1 = w" using w static_fields(1)[of st1 st] by simp
  show "static st' = static st \<and> (\<forall>k \<in> K. map_of (files st') k = map_of (files st) k)"
  proof (cases r1)
    case (Inr x)
    then show ?thesis using b m k1 by (simp add: catch_def)
  next
    case (Inl e)
    then have "h e st1 = (r, st')" using b m by (simp add: catch_def)
    then show ?thesis using keepsD[of st1 K "h e" r st'] assms(2)[of e] w1 k1 by simp
  qed
qed

lemma keeps_ignoreErrors [intro!]:
  assumes "keeps w K m"
  shows "keeps w K (ignoreErrors m)"
proof (rule keepsI)
  fix st r st'
  assume w: "workingDir st = w" and b: "ignoreErrors m st = (r, st')"
  obtain r1 st1 where m: "m st = (r1, st1)" by (cases "m st")
  from keepsD[of st K m r1 st1] assms w b m show
    "static st' = static st \<and> (\<forall>k \<in> K. map_of (files st') k = map_of (files st) k)"
    by (simp add: ignoreErrors_def)
qed

lemma keeps_if [intro!]: "keeps w K a \<Longrightarrow> keeps w K b \<Longrightarrow> keeps w K (if c then a else b)"
  by simp

lemma keeps_cache_update [intro!, simp]:
  "keeps w K (\<lambda>s. (r, s\<lparr>projectIndexCache := c s\<rparr>))"
  by (simp add: keeps_def)

lemma keeps_access [intro!, simp]: "keeps w K (fs_access p)"
  by (auto simp: keeps_def fs_access_def split: option.splits if_splits)

lemma keeps_readFile [intro!, simp]: "keeps w K (fs_readFile p)"
  by (auto simp: keeps_def fs_readFile_def split: option.splits if_splits node.splits)

lemma keeps_readdir [intro!, simp]: "keeps w K (fs_readdir p)"
  by (auto simp: keeps_def fs_readdir_def split: option.splits if_splits node.splits)

lemma keeps_stat [intro!, simp]: "keeps w K (fs_stat p)"
  by (auto simp: keeps_def fs_stat_def split: option.splits if_splits)

lemma map_of_update: "map_of (AList.update p v xs) k = (if k = p then Some v else map_of xs k)"
  by (simp add: update_conv')

lemma map_of_delete: "map_of (AList.delete p xs) k = (if k = p then None else map_of xs k)"
  by (simp add: delete_conv')

lemma keeps_writeFile [intro]: "p \<notin> K \<Longrightarrow> keeps w K (fs_writeFile p c)"
  by (auto simp: keeps_def fs_writeFile_def map_of_update split: option.splits if_splits node.splits)

lemma keeps_rename [intro]: "a \<notin> K \<Longrightarrow> b \<notin> K \<Longrightarrow> keeps w K (fs_rename a b)"
  by (auto simp: keeps_def fs_rename_def map_of_update map_of_delete
      split: option.splits if_splits node.splits)

lemma keeps_unlink [intro]: "p \<notin> K \<Longrightarrow> keeps w K (fs_unlink p)"
  by (auto simp: keeps_def fs_unlink_def map_of_delete split: option.splits if_splits node.splits)

lemma map_of_filter_keys:
  "map_of (filter (\<lambda>(q, n). P q) xs) k = (if P k then map_of xs k else None)"
  by (induction xs) auto

lemma keeps_rm [intro]: "\<forall>k \<in> K. \<not> under p k \<Longrightarrow> keeps w K (fs_rm p)"
  by (auto simp: keeps_def fs_rm_def map_of_filter_keys split: if_splits)

lemma mkdirs_keeps:
  "mkdirs t ds fs = Some fs' \<Longrightarrow> k \<notin> set ds \<Longrightarrow> map_of fs' k = map_of fs k"
proof (induction ds arbitrary: fs)
  case Nil
  then show ?case by simp
next
  case (Cons d ds)
  then show ?case
    by (auto split: option.splits node.splits simp: map_of_append map_add_def)
qed

lemma keeps_mkdir [intro]: "K \<inter> set (ancestors p) = {} \<Longrightarrow> keeps w K (fs_mkdir p)"
  by (auto simp: keeps_def fs_mkdir_def split: option.splits if_splits dest: mkdirs_keeps)

lemma keeps_ensureDirectoryExists [intro]:
  "K \<inter> set (ancestors p) = {} \<Longrightarrow> keeps w K (ensureDirectoryExists p)"
  unfolding ensureDirectoryExists_def by (intro keeps_catch keeps_mkdir keeps_throw)

lemma checkForCorruptedDirectory_state:
  "checkForCorruptedDirectory st = (r, st') \<Longrightarrow> st' = st"
  by (auto simp: checkForCorruptedDirectory_def catch_def bind_def fs_readdir_def Let_def
      throw_def return_def split: if_splits option.splits node.splits sum.splits prod.splits)

lemma readProjectIndex_files:
  "readProjectIndex st = (r, st') \<Longrightarrow> files st' = files st \<and> static st' = static st"
  by (auto simp: readProjectIndex_def fs_readFile_def bind_def
      split: option.splits if_splits node.splits sum.splits prod.splits content.splits
      dest!: checkForCorruptedDirectory_state)

lemma keeps_readProjectIndex [intro!, simp]: "keeps w K readProjectIndex"
  by (rule keepsI) (auto dest: readProjectIndex_files)

subsection \<open>Paths of the working directory\<close>

lemma ancestors_prefix: "q \<in> set (ancestors p) \<Longrightarrow> prefix q p"
  by (auto simp: ancestors_def take_is_prefix)

lemma dot_prefix_1: "s \<noteq> [] \<Longrightarrow> CHR ''.'' \<notin> set s \<Longrightarrow> \<not> prefix (CHR ''.'' # y) (s @ x)"
  by (cases s) auto

lemma dot_prefix_2: "s \<noteq> [] \<Longrightarrow> CHR ''.'' \<notin> set s \<Longrightarrow> \<not> prefix (s @ x) (CHR ''.'' # y)"
  by (cases s) auto

text \<open>Paths of the working directory whose name starts with a dot are outside a project
  directory and are not among the ancestors of any path inside it.\<close>

lemma dotfile_not_under:
  assumes "s \<noteq> []" "CHR ''.'' \<notin> set s"
  shows "\<not> under (path_join w s) (w @ ''/.'' @ y)"
  using assms dot_prefix_2[of s "''/''" y] 
  by (auto simp: under_def path_join_def)

lemma dotfile_not_prefix:
  assumes "s \<noteq> []" "CHR ''.'' \<notin> set s"
  shows "\<not> prefix (w @ ''/.'' @ y) (path_join w s @ x)"
  using assms dot_prefix_1[of s y x] by (simp add: path_join_def)

lemma dotfile_not_ancestor:
  assumes "s \<noteq> []" "CHR ''.'' \<notin> set s"
  shows "w @ ''/.'' @ y \<notin> set (ancestors (path_join w s @ x))"
  using dotfile_not_prefix[OF assms] ancestors_prefix by blast

lemma dotfile_not_ancestor0:
  assumes "s \<noteq> []" "CHR ''.'' \<notin> set s"
  shows "w @ ''/.'' @ y \<notin> set (ancestors (path_join w s))"
  using dotfile_not_ancestor[OF assms, of w y "[]"] by simp

lemma projectIndexPath_eq: "projectIndexPath st = workingDir st @ ''/.'' @ ''mcp-projects.json''"
  by (simp add: projectIndexPath_def path_join_def)

lemma lockArtifact_eq: "lockArtifact st k = workingDir st @ ''/.'' @ (''mcp-lock-'' @ k @ ''.lock'')"
  by (simp add: lockArtifact_def path_join_def)

lemma under_self_child: "under p (path_join p x)"
  by (simp add: under_def path_join_def)

lemma under_child_tmp: "x \<noteq> [] \<Longrightarrow> under p (path_join p x @ y)"
  by (simp add: under_def path_join_def)

lemma fs_rm_removes:
  "fs_rm p st = (Inr u, st') \<Longrightarrow> under p q \<Longrightarrow> map_of (files st') q = None"
  by (auto simp: fs_rm_def map_of_filter_keys split: if_splits)

lemma fs_rm_ok: "\<not> faults st OpRm p \<Longrightarrow> \<exists>st'. fs_rm p st = (Inr (), st')"
  by (simp add: fs_rm_def)

text \<open>A failed write of the index changes no path except the temporary file.\<close>

lemma writeProjectIndex_failure:
  assumes "writeProjectIndex index st = (Inl e, st')"
  shows "static st' = static st
    \<and> (\<forall>k. k \<noteq> projectIndexPath st @ ''.tmp'' \<longrightarrow> map_of (files st') k = map_of (files st) k)"
proof -
  let ?T = "projectIndexPath st @ ''.tmp''"
  obtain r1 s1 where w: "fs_writeFile ?T (IndexJson index) st = (r1, s1)"
    by (cases "fs_writeFile ?T (IndexJson index) st")
  have k1: "static s1 = static st
      \<and> (\<forall>k. k \<noteq> ?T \<longrightarrow> map_of (files s1) k = map_of (files st) k)"
    using w by (auto simp: fs_writeFile_def map_of_update split: if_splits option.splits node.splits)
  have un: "\<And>s r s'. ignoreErrors (fs_unlink ?T) s = (r, s') \<Longrightarrow>
      static s' = static s \<and> (\<forall>k. k \<noteq> ?T \<longrightarrow> map_of (files s') k = map_of (files s) k)"
    by (auto simp: ignoreErrors_def fs_unlink_def map_of_delete
        split: if_splits option.splits node.splits)
  show ?thesis
  proof (cases r1)
    case (Inl e1)
    then have "st' = snd (ignoreErrors (fs_unlink ?T) s1)"
      using assms w by (simp add: writeProjectIndex_def catch_def bind_def throw_def ignoreErrors_def)
    then show ?thesis using un[of s1 "Inr ()" st'] k1 by (simp add: ignoreErrors_def)
  next
    case (Inr u)
    obtain r2 s2 where rn: "fs_rename ?T (projectIndexPath st) s1 = (r2, s2)"
      by (cases "fs_rename ?T (projectIndexPath st) s1")
    show ?thesis
    proof (cases r2)
      case (Inl e2)
      then have s2: "s2 = s1" using rn
        by (auto simp: fs_rename_def split: if_splits option.splits node.splits)
      have "st' = snd (ignoreErrors (fs_unlink ?T) s1)"
        using assms w rn Inr Inl s2
        by (simp add: writeProjectIndex_def catch_def bind_def throw_def ignoreErrors_def)
      then show ?thesis using un[of s1 "Inr ()" st'] k1 by (simp add: ignoreErrors_def)
    next
      case (Inr u2)
      then show ?thesis using assms w rn \<open>r1 = Inr u\<close>
        by (simp add: writeProjectIndex_def catch_def bind_def)
    qed
  qed
qed

subsection \<open>Rollback of a failed project creation\<close>

lemma ensureDirectoryExists_failure:
  "ensureDirectoryExists p st = (Inl e, st') \<Longrightarrow> st' = st"
  by (auto simp: ensureDirectoryExists_def catch_def throw_def fs_mkdir_def
      split: if_splits option.splits)

lemma creationFailed_remove:
  assumes rm: "\<not> faults st OpRm P"
    and r: "creationFailed e ((RemoveProjectDirectory P, True) # later) st = (r, st')"
    and later: "\<forall>x \<in> set later. \<not> snd x"
  shows "static st' = static st
    \<and> (\<forall>q. under P q \<longrightarrow> map_of (files st') q = None)
    \<and> (\<forall>q. \<not> under P q \<longrightarrow> map_of (files st') q = map_of (files st) q)"
proof -
  have skip: "\<And>xs s. \<forall>x \<in> set xs. \<not> snd x \<Longrightarrow>
      runRollback (xs @ [(RemoveProjectDirectory P, True)]) s
        = runRollback [(RemoveProjectDirectory P, True)] s"
  proof -
    fix xs :: "(rollback \<times> bool) list" and s
    show "\<forall>x \<in> set xs. \<not> snd x \<Longrightarrow>
      runRollback (xs @ [(RemoveProjectDirectory P, True)]) s
        = runRollback [(RemoveProjectDirectory P, True)] s"
      by (induction xs) auto
  qed
  have rr: "runRollback (rev ((RemoveProjectDirectory P, True) # later)) st
      = ([], st\<lparr>files := filter (\<lambda>(q, n). \<not> under P q) (files st)\<rparr>)"
    using skip[of "rev later" st] later rm by (simp add: fs_rm_def)
  have "st' = st\<lparr>files := filter (\<lambda>(q, n). \<not> under P q) (files st), projectIndexCache := None\<rparr>"
    using r unfolding creationFailed_def rr by simp
  then show ?thesis by (simp add: map_of_filter_keys)
qed

lemma transaction_failure:
  assumes tx: "executeProjectCreationTransaction n P md st = (Inl e, st')"
    and rm: "\<not> faults st OpRm P"
    and P: "P = path_join (workingDir st) s" "s \<noteq> []" "CHR ''.'' \<notin> set s"
  shows "static st' = static st
    \<and> ((\<forall>q. under P q \<longrightarrow> map_of (files st') q = None) \<or> files st' = files st)
    \<and> map_of (files st') (projectIndexPath st) = map_of (files st) (projectIndexPath st)"
proof -
  let ?I = "projectIndexPath st"
  have I: "?I = workingDir st @ ''/.'' @ ''mcp-projects.json''" by (rule projectIndexPath_eq)
  have nu: "\<not> under P ?I" unfolding I P(1) using P(2,3) by (rule dotfile_not_under)
  have a0: "{?I} \<inter> set (ancestors P) = {}"
    unfolding I P(1) using dotfile_not_ancestor0[OF P(2,3)] by simp
  have a1: "{?I} \<inter> set (ancestors (path_join P x)) = {}" for x
    unfolding I P(1) using dotfile_not_ancestor[OF P(2,3), of "workingDir st" _ "''/'' @ x"]
      dotfile_not_ancestor0[OF P(2,3), of "workingDir st"]
    by (simp add: path_join_def)
  have f1: "?I \<noteq> path_join P ''project.json''" "?I \<noteq> path_join P ''project.json'' @ ''.tmp''"
    using nu under_self_child[of P "''project.json''"]
      under_child_tmp[of "''project.json''" P "''.tmp''"] by auto
  obtain r1 st1 where e1: "ensureDirectoryExists P st = (r1, st1)"
    by (cases "ensureDirectoryExists P st")
  have k1: "static st1 = static st \<and> map_of (files st1) ?I = map_of (files st) ?I"
    using keepsD[OF keeps_ensureDirectoryExists[OF a0] e1] by simp
  show ?thesis
  proof (cases r1)
    case (Inl e1')
    then have "st1 = st" using e1 ensureDirectoryExists_failure by blast
    then have "st' = st\<lparr>projectIndexCache := None\<rparr>"
      using tx e1 Inl by (simp add: executeProjectCreationTransaction_def creationFailed_def)
    then show ?thesis by simp
  next
    case (Inr u)
    let ?m2 = "bind (ensureDirectoryExists (path_join P ''findings''))
                  (\<lambda>_. bind (ensureDirectoryExists (path_join P ''audit-trails''))
                  (\<lambda>_. bind (writeProjectFile P md)
                  (\<lambda>_. readProjectIndex)))"
    have km2: "keeps (workingDir st1) {?I} ?m2"
      unfolding writeProjectFile_def
      using a1 f1 by (intro keeps_bind keeps_ensureDirectoryExists keeps_writeFile keeps_rename
          keeps_readProjectIndex) auto
    obtain r2 st2 where e2: "?m2 st1 = (r2, st2)" by (cases "?m2 st1")
    have k2: "static st2 = static st \<and> map_of (files st2) ?I = map_of (files st) ?I"
      using keepsD[OF km2 e2] k1 by simp
    have rm2: "\<not> faults st2 OpRm P" using rm static_fields(2)[of st2 st] k2 by simp
    show ?thesis
    proof (cases r2)
      case (Inl e2')
      then have cf: "creationFailed e2' [(RemoveProjectDirectory P, True)] st2 = (Inl e, st')"
        using tx e1 \<open>r1 = Inr u\<close> e2 by (simp add: executeProjectCreationTransaction_def)
      from creationFailed_remove[OF rm2 cf] k2 nu show ?thesis by simp
    next
      case (Inr idx)
      let ?idx = "idx\<lparr>projects := AList.update n md (projects idx)\<rparr>"
      obtain r3 st3 where e3: "writeProjectIndex ?idx st2 = (r3, st3)"
        by (cases "writeProjectIndex ?idx st2")
      show ?thesis
      proof (cases r3)
        case (Inr u3)
        then show ?thesis using tx e1 \<open>r1 = Inr u\<close> e2 \<open>r2 = Inr idx\<close> e3
          by (simp add: executeProjectCreationTransaction_def)
      next
        case (Inl e3')
        have I2: "projectIndexPath st2 = ?I" using k2 static_paths(1) by blast
        have k3: "static st3 = static st \<and> map_of (files st3) ?I = map_of (files st) ?I"
          using writeProjectIndex_failure[of ?idx st2 e3' st3] e3 Inl k2 I2 by simp
        have rm3: "\<not> faults st3 OpRm P" using rm static_fields(2)[of st3 st] k3 by simp
        have cf: "creationFailed e3' ((RemoveProjectDirectory P, True)
              # [(RestoreProjectIndex idx, False)]) st3 = (Inl e, st')"
          using tx e1 \<open>r1 = Inr u\<close> e2 \<open>r2 = Inr idx\<close> e3 Inl
          by (simp add: executeProjectCreationTransaction_def)
        from creationFailed_remove[OF rm3 cf] k3 nu show ?thesis by simp
      qed
    qed
  qed
qed

subsection \<open>Project creation: failure and rollback\<close>

lemmas monad_defs = bind_def catch_def throw_def return_def ignoreErrors_def

lemmas fs_defs = fs_access_def fs_mkdir_def fs_writeFile_def fs_rename_def fs_unlink_def fs_rm_def
  fs_readFile_def fs_readdir_def fs_stat_def ancestors_def parentIsDir_def dirname_def under_def
  children_def childName_def enoent_def eacces_def path_join_def

lemmas index_defs = projectIndexPath_def readProjectIndex_def writeProjectIndex_def
  checkForCorruptedDirectory_def corruptionCheckSkipped_def getProjectPath_def withLock_def
  lockArtifact_def lockTimeout_def ensureDirectoryExists_def

lemmas project_defs = createProject_def executeProjectCreationTransaction_def creationFailed_def
  writeProjectFile_def getProject_def checkProjectNotCompleted_def updateProject_def
  applyUpdates_def deleteProject_def

lemmas example_defs = lockedState_def emptyStore_def indexWriteFails_def readOnlyStore_def
  penTest_def emptyIndex_def

lemma sanitize_penTest: "sanitizeProjectName ''pen-test-1'' = ''pen-test-1''"
  by (rule sanitize_fixed) (simp add: nameChar_def isLower_def isDigit_def)

text \<open>
  C3 (as the code has it). When \<open>createProject\<close> fails for a project whose directory did
  not exist before the call, and the removal of that directory is not itself refused,
  then after the call nothing exists at or below the project's path, and the index file
  is what it was before the call. This covers the failure at the index-write step and
  every other failure after the existence check.
\<close>

theorem createProject_failure_rolls_back:
  assumes cp: "createProject input uuid st = (Inl e, st')"
    and rm: "\<not> faults st OpRm (path_join (workingDir st) (sanitizeProjectName (cp_name input)))"
    and fresh: "\<forall>q. under (path_join (workingDir st) (sanitizeProjectName (cp_name input))) q
                  \<longrightarrow> map_of (files st) q = None"
  shows "(\<forall>q. under (path_join (workingDir st) (sanitizeProjectName (cp_name input))) q
              \<longrightarrow> map_of (files st') q = None)
    \<and> map_of (files st') (projectIndexPath st) = map_of (files st) (projectIndexPath st)"
proof -
  let ?s = "sanitizeProjectName (cp_name input)"
  let ?P = "path_join (workingDir st) ?s"
  let ?I = "projectIndexPath st"
  let ?L = "lockArtifact st ''project-index''"
  show ?thesis
  proof (cases "?s = []")
    case True
    then have "st' = st" using cp by (simp add: createProject_def)
    then show ?thesis using fresh by simp
  next
    case False
    have nd: "CHR ''.'' \<notin> set ?s" by (rule sanitize_no_dot)
    have gp: "getProjectPath ?s st = (Inr ?P, st)"
      by (simp add: getProjectPath_def sanitize_idem path_join_def)
    show ?thesis
    proof (cases "lockBusy st ''project-index''")
      case True
      then have "st' = st" using cp False gp by (simp add: createProject_def bind_def withLock_def)
      then show ?thesis using fresh by simp
    next
      case nb: False
      let ?sL = "st\<lparr>files := AList.update ?L (Dir (now st)) (files st)\<rparr>"
      let ?op = "\<lambda>s. case fs_access ?P s of
              (Inr u, s1) \<Rightarrow> (Inl (ProjectExistsError ?s), s1)
            | (Inl e, s1) \<Rightarrow>
                (if \<not> isENOENT e
                 then (Inl (Error (''Failed to check project existence: '' @ message e)), s1)
                 else executeProjectCreationTransaction ?s ?P
                   \<lparr>pm_id = uuid, pm_name = ?s, pm_client = cp_client input,
                    pm_created = now s1, pm_updated = now s1, pm_scope = cp_scope input,
                    pm_status = InProgress, pm_description = cp_description input\<rparr> s1)"
      obtain r2 s2 where op: "?op ?sL = (r2, s2)" by (cases "?op ?sL")
      have IL: "?I \<noteq> ?L" by (simp add: projectIndexPath_eq lockArtifact_eq)
      have fl: "\<forall>q. under ?P q \<and> q \<noteq> ?L \<longrightarrow> map_of (files ?sL) q = None"
        using fresh by (simp add: map_of_update)
      have iL: "map_of (files ?sL) ?I = map_of (files st) ?I"
        using IL by (simp add: map_of_update)
      have main: "static s2 = static st
          \<and> (\<forall>q. under ?P q \<and> q \<noteq> ?L \<longrightarrow> map_of (files s2) q = None)
          \<and> map_of (files s2) ?I = map_of (files st) ?I"
      proof (cases "\<exists>s1. fs_access ?P ?sL = (Inl (enoent ?P), s1)")
        case False
        then have "s2 = ?sL" using op
          by (auto simp: fs_access_def enoent_def eacces_def split: if_splits option.splits)
        then show ?thesis using fl iL by simp
      next
        case True
        then have acc: "fs_access ?P ?sL = (Inl (enoent ?P), ?sL)"
          by (auto simp: fs_access_def split: if_splits option.splits)
        show ?thesis
        proof (cases r2)
          case (Inr md)
          then have "r = Inr md" if "catch (\<lambda>s. ?op s) h ?sL = (r, s)" for r s h
            using that op by (simp add: catch_def)
          then show ?thesis using cp False gp nb op Inr
            by (simp add: createProject_def bind_def withLock_def catch_def Let_def)
        next
          case (Inl e2)
          then have tx: "executeProjectCreationTransaction ?s ?P
                   \<lparr>pm_id = uuid, pm_name = ?s, pm_client = cp_client input,
                    pm_created = now ?sL, pm_updated = now ?sL, pm_scope = cp_scope input,
                    pm_status = InProgress, pm_description = cp_description input\<rparr> ?sL
                 = (Inl e2, s2)"
            using op acc by (simp add: enoent_def)
          have rmL: "\<not> faults ?sL OpRm ?P" using rm by simp
          have PL: "?P = path_join (workingDir ?sL) ?s" by simp
          from transaction_failure[OF tx rmL PL False nd]
          have t: "static s2 = static ?sL"
            "(\<forall>q. under ?P q \<longrightarrow> map_of (files s2) q = None) \<or> files s2 = files ?sL"
            "map_of (files s2) (projectIndexPath ?sL) = map_of (files ?sL) (projectIndexPath ?sL)"
            by blast+
          have "projectIndexPath ?sL = ?I" by (simp add: projectIndexPath_def)
          then show ?thesis using t fl iL by auto
        qed
      qed
      have st': "files st' = AList.delete ?L (files s2)"
        using cp False gp nb op
        by (auto simp: createProject_def bind_def withLock_def catch_def Let_def throw_def
            split: sum.splits if_splits)
      show ?thesis using main IL by (simp add: st' map_of_delete)
    qed
  qed
qed


lemma createProject_indexWriteFails:
  "createProject penTest ''uuid'' indexWriteFails =
     (Inl (Error (''Failed to create project: Failed to write project index: ''
        @ ''EACCES: permission denied, /data/.mcp-projects.json.tmp'')),
      snd (createProject penTest ''uuid'' indexWriteFails))"
proof -
  have "fst (createProject penTest ''uuid'' indexWriteFails) =
     Inl (Error (''Failed to create project: Failed to write project index: ''
        @ ''EACCES: permission denied, /data/.mcp-projects.json.tmp''))"
    by (simp add: project_defs index_defs fs_defs monad_defs example_defs sanitize_penTest
        Let_def sublist_Cons_right)
  then show ?thesis by (metis prod.collapse)
qed

theorem createProject_failure_rolls_back_witness:
  "fst (createProject penTest ''uuid'' indexWriteFails) =
     Inl (Error (''Failed to create project: Failed to write project index: ''
        @ ''EACCES: permission denied, /data/.mcp-projects.json.tmp''))
   \<and> map_of (files (snd (createProject penTest ''uuid'' indexWriteFails))) ''/data/pen-test-1'' = None
   \<and> map_of (files (snd (createProject penTest ''uuid'' indexWriteFails)))
        ''/data/pen-test-1/project.json'' = None
   \<and> map_of (files (snd (createProject penTest ''uuid'' indexWriteFails)))
        ''/data/.mcp-projects.json'' = Some (File (IndexJson emptyIndex) 0)"
proof -
  have P: "path_join (workingDir indexWriteFails) (sanitizeProjectName (cp_name penTest))
      = ''/data/pen-test-1''"
    by (simp add: example_defs sanitize_penTest path_join_def)
  have rm: "\<not> faults indexWriteFails OpRm
      (path_join (workingDir indexWriteFails) (sanitizeProjectName (cp_name penTest)))"
    by (simp add: example_defs)
  have fresh: "\<forall>q. under (path_join (workingDir indexWriteFails)
        (sanitizeProjectName (cp_name penTest))) q \<longrightarrow> map_of (files indexWriteFails) q = None"
    unfolding P by (auto simp: example_defs under_def)
  have I: "projectIndexPath indexWriteFails = ''/data/.mcp-projects.json''"
    by (simp add: projectIndexPath_def path_join_def example_defs)
  have u1: "under ''/data/pen-test-1'' ''/data/pen-test-1''"
    and u2: "under ''/data/pen-test-1'' ''/data/pen-test-1/project.json''"
    by (simp_all add: under_def)
  have i0: "map_of (files indexWriteFails) ''/data/.mcp-projects.json''
      = Some (File (IndexJson emptyIndex) 0)"
    by (simp add: example_defs)
  show ?thesis
    using createProject_failure_rolls_back[OF createProject_indexWriteFails rm fresh]
      createProject_indexWriteFails u1 u2 i0
    unfolding P I by (metis fst_conv)
qed

text \<open>When the removal of the directory is refused too, the failure at the index-write
  step leaves the project directory and its \<open>project.json\<close> behind.\<close>

theorem createProject_rollback_can_fail:
  "fst (createProject penTest ''uuid'' readOnlyStore) =
     Inl (Error (''Failed to create project: Failed to write project index: ''
        @ ''EACCES: permission denied, /data/.mcp-projects.json.tmp''
        @ ''. Rollback errors: Remove project directory: ''
        @ ''EACCES: permission denied, /data/pen-test-1''))
   \<and> map_of (files (snd (createProject penTest ''uuid'' readOnlyStore))) ''/data/pen-test-1''
       = Some (Dir 1000)
   \<and> map_of (files (snd (createProject penTest ''uuid'' readOnlyStore)))
        ''/data/pen-test-1/project.json'' \<noteq> None"
  by (simp add: project_defs index_defs fs_defs monad_defs example_defs sanitize_penTest
      Let_def sublist_Cons_right)

subsection \<open>Trimming\<close>

lemma isSpace_nl [simp]: "isSpace (CHR 0x0A)"
  by (simp add: isSpace_def)

lemma trim_hd_last:
  assumes "s \<noteq> []" "trim s = s"
  shows "\<not> isSpace (hd s) \<and> \<not> isSpace (last s)"
proof -
  have a: "dropWhile isSpace s \<noteq> []"
    using assms unfolding trim_def by (metis dropWhile.simps(1) rev.simps(1))
  have l1: "length (dropWhile isSpace (rev (dropWhile isSpace s))) \<le> length (dropWhile isSpace s)"
    by (metis length_dropWhile_le length_rev)
  have l2: "length (dropWhile isSpace s) \<le> length s" by (rule length_dropWhile_le)
  have "length (trim s) = length s" using assms by simp
  then have e1: "length (dropWhile isSpace s) = length s"
    and e2: "length (dropWhile isSpace (rev (dropWhile isSpace s))) = length (dropWhile isSpace s)"
    using l1 l2 unfolding trim_def by simp_all
  have d1: "dropWhile isSpace s = s"
    using e1 by (metis dropWhile_eq_drop drop_eq_Nil2 drop_0 length_takeWhile_le
        takeWhile_dropWhile_id append_eq_conv_conj length_0_conv length_append add_cancel_right_left
        diff_is_0_eq' length_drop)
  have d2: "dropWhile isSpace (rev s) = rev s"
    using e2 d1
    by (metis (no_types) append_self_conv2 length_0_conv length_append add_cancel_right_left
        takeWhile_dropWhile_id length_rev)
  have "\<not> isSpace (hd s)" using d1 assms(1) by (metis hd_dropWhile)
  moreover have "\<not> isSpace (hd (rev s))" using d2 assms(1) by (metis hd_dropWhile rev_is_Nil_conv)
  ultimately show ?thesis using assms(1) by (simp add: hd_rev)
qed

lemma trim_append_spaces:
  assumes "s \<noteq> []" "trim s = s" "\<forall>c \<in> set ws. isSpace c"
  shows "trim (s @ ws) = s"
proof -
  from trim_hd_last[OF assms(1,2)] have h: "\<not> isSpace (hd s)" and l: "\<not> isSpace (last s)" by auto
  obtain c cs where s: "s = c # cs" using assms(1) by (cases s) auto
  have d: "dropWhile isSpace (s @ ws) = s @ ws" using h s by simp
  have "rev (s @ ws) = rev ws @ rev s" by simp
  moreover have "dropWhile isSpace (rev ws @ rev s) = dropWhile isSpace (rev s)"
    using assms(3) by (simp add: dropWhile_append)
  moreover have "dropWhile isSpace (rev s) = rev s"
    using l assms(1) by (metis dropWhile_eq_Nil_conv hd_dropWhile hd_rev rev_is_Nil_conv
        dropWhile.simps(2) list.collapse)
  ultimately show ?thesis unfolding trim_def d by simp
qed

subsection \<open>The section pattern\<close>

lemma no_straddle:
  assumes "prefix p (d @ c # t)" "c \<notin> set p"
  shows "prefix p d"
proof -
  from assms(1) have "prefix p d \<or> (\<exists>us. p = d @ us \<and> prefix us (c # t))"
    by (simp add: prefix_append)
  then show ?thesis
  proof
    assume "\<exists>us. p = d @ us \<and> prefix us (c # t)"
    then obtain us where p: "p = d @ us" and u: "prefix us (c # t)" by blast
    show ?thesis
    proof (cases us)
      case Nil
      then show ?thesis using p by simp
    next
      case (Cons a as)
      then have "a = c" using u by simp
      then have "c \<in> set p" using p Cons by simp
      then show ?thesis using assms(2) by simp
    qed
  qed simp
qed

lemma prefix_imp_sublist: "prefix p d \<Longrightarrow> sublist p d"
  by (auto simp: prefix_def sublist_def intro: exI[of _ "[]"])

lemma sublist_Cons_mono: "\<not> sublist p (c # d) \<Longrightarrow> \<not> sublist p d"
  by (metis sublist_Cons_right)

text \<open>The lazy group runs through a text without heading marker up to the line feed
  before the next heading, or to the end.\<close>

lemma lazy_to_heading:
  "\<not> sublist ''## '' d \<Longrightarrow>
   lazyUntilHeading (d @ [CHR 0x0A, CHR 0x0A, CHR ''#'', CHR ''#'', CHR '' ''] @ rest)
     = d @ [CHR 0x0A]"
proof (induction d)
  case Nil
  then show ?case by simp
next
  case (Cons c d)
  have nd: "\<not> sublist ''## '' d" using Cons.prems by (rule sublist_Cons_mono)
  have "\<not> prefix [CHR 0x0A, CHR ''#'', CHR ''#'', CHR '' '']
            ((c # d) @ [CHR 0x0A, CHR 0x0A, CHR ''#'', CHR ''#'', CHR '' ''] @ rest)"
  proof
    assume "prefix [CHR 0x0A, CHR ''#'', CHR ''#'', CHR '' '']
            ((c # d) @ [CHR 0x0A, CHR 0x0A, CHR ''#'', CHR ''#'', CHR '' ''] @ rest)"
    then have "prefix ''## '' (d @ CHR 0x0A # ([CHR 0x0A, CHR ''#'', CHR ''#'', CHR '' ''] @ rest))"
      by auto
    then have "prefix ''## '' d" by (rule no_straddle) simp
    then show False using nd prefix_imp_sublist by blast
  qed
  then show ?case using Cons.IH[OF nd] by simp
qed

lemma lazy_to_end:
  "\<not> sublist ''## '' d \<Longrightarrow> ws = [CHR 0x0A] \<or> ws = [CHR 0x0A, CHR 0x0A] \<Longrightarrow>
   lazyUntilHeading (d @ ws) = d @ ws"
proof (induction d)
  case Nil
  then show ?case by auto
next
  case (Cons c d)
  have nd: "\<not> sublist ''## '' d" using Cons.prems(1) by (rule sublist_Cons_mono)
  obtain w where ws: "ws = CHR 0x0A # w" using Cons.prems(2) by auto
  have "\<not> prefix [CHR 0x0A, CHR ''#'', CHR ''#'', CHR '' ''] ((c # d) @ ws)"
  proof
    assume "prefix [CHR 0x0A, CHR ''#'', CHR ''#'', CHR '' ''] ((c # d) @ ws)"
    then have "prefix ''## '' (d @ CHR 0x0A # w)" using ws by auto
    then have "prefix ''## '' d" by (rule no_straddle) simp
    then show False using nd prefix_imp_sublist by blast
  qed
  then show ?case using Cons.IH[OF nd Cons.prems(2)] by simp
qed

lemma lowerChar_upper_range:
  assumes "isUpper c"
  shows "(97::nat) \<le> of_char (lowerChar c) \<and> of_char (lowerChar c) \<le> (122::nat)"
proof -
  have "of_char (lowerChar c) = ((of_char c + 32) mod 256 :: nat)"
    using assms by (simp add: lowerChar_def)
  then show ?thesis using assms by (simp add: isUpper_def)
qed

lemma lowerChar_hash [simp]: "lowerChar c = CHR ''#'' \<longleftrightarrow> c = CHR ''#''"
proof (cases "isUpper c")
  case True
  from lowerChar_upper_range[OF True] have "lowerChar c \<noteq> CHR ''#''" by auto
  moreover have "c \<noteq> CHR ''#''" using True by (auto simp: isUpper_def)
  ultimately show ?thesis by simp
next
  case False
  then show ?thesis by (simp add: lowerChar_def)
qed

lemma lowerChar_space [simp]: "lowerChar c = CHR '' '' \<longleftrightarrow> c = CHR '' ''"
proof (cases "isUpper c")
  case True
  from lowerChar_upper_range[OF True] have "lowerChar c \<noteq> CHR '' ''" by auto
  moreover have "c \<noteq> CHR '' ''" using True by (auto simp: isUpper_def)
  ultimately show ?thesis by simp
next
  case False
  then show ?thesis by (simp add: lowerChar_def)
qed

lemma lowerChar_marker [simp]:
  "lowerChar (CHR ''#'') = CHR ''#''" "lowerChar (CHR '' '') = CHR '' ''"
  by (simp_all add: lowerChar_def isUpper_def)

lemma lower_prefix_marker:
  assumes "prefix (toLowerCase (''## '' @ name)) (toLowerCase t)"
  shows "prefix ''## '' t"
proof -
  from assms have "prefix (toLowerCase ''## '') (toLowerCase t)"
    by (metis append_prefixD map_append toLowerCase_def)
  then obtain r where "toLowerCase t = toLowerCase ''## '' @ r" by (auto simp: prefix_def)
  then show ?thesis
    by (cases t; cases "tl t"; cases "tl (tl t)") (auto simp: toLowerCase_def)
qed

text \<open>The search for a heading passes over a text without heading marker that is
  followed by a line feed.\<close>

lemma find_skip_text:
  "\<not> sublist ''## '' d \<Longrightarrow>
   findSection (''## '' @ name) (d @ CHR 0x0A # rest)
     = findSection (''## '' @ name) (CHR 0x0A # rest)"
proof (induction d)
  case Nil
  then show ?case by simp
next
  case (Cons c d)
  have nd: "\<not> sublist ''## '' d" using Cons.prems by (rule sublist_Cons_mono)
  have "sectionAt (''## '' @ name) ((c # d) @ CHR 0x0A # rest) = None"
  proof (rule ccontr)
    assume "sectionAt (''## '' @ name) ((c # d) @ CHR 0x0A # rest) \<noteq> None"
    then have "prefix (toLowerCase (''## '' @ name)) (toLowerCase ((c # d) @ CHR 0x0A # rest))"
      by (auto simp: sectionAt_def split: if_splits)
    then have "prefix ''## '' ((c # d) @ CHR 0x0A # rest)" by (rule lower_prefix_marker)
    then have "prefix ''## '' (c # d)" by (rule no_straddle) simp
    then show False using Cons.prems prefix_imp_sublist by blast
  qed
  then show ?case using Cons.IH[OF nd] by simp
qed

subsection \<open>Capturing a section\<close>

lemma plainSection_ends:
  assumes "plainSection x"
  shows "x \<noteq> []" "\<not> isSpace (hd x)" "\<not> isSpace (last x)" "\<not> sublist ''## '' x" "trim x = x"
  using assms trim_hd_last[of x] by (auto simp: plainSection_def)

lemma spaces_before_plain:
  assumes "plainSection x"
  shows "takeWhile isSpace (x @ rest) = []" and "dropWhile isSpace (x @ rest) = x @ rest"
proof -
  obtain c cs where x: "x = c # cs" using plainSection_ends(1)[OF assms] by (cases x) auto
  have c: "\<not> isSpace c" using plainSection_ends(2)[OF assms] x by simp
  show "takeWhile isSpace (x @ rest) = []" and "dropWhile isSpace (x @ rest) = x @ rest"
    using c by (simp_all add: x)
qed

lemma afterLastNewline_two [simp]: "afterLastNewline [CHR 0x0A, CHR 0x0A] = []"
  by (simp add: afterLastNewline_def)

text \<open>A match at a heading that is followed by an empty line and a plain section text
  captures that text, whether the text's end is the end of the file or the next heading.\<close>

lemma section_capture:
  assumes x: "plainSection x"
    and after: "after = [CHR 0x0A] \<or> after = [CHR 0x0A, CHR 0x0A]
        \<or> (\<exists>rest. after = [CHR 0x0A, CHR 0x0A, CHR ''#'', CHR ''#'', CHR '' ''] @ rest)"
  shows "map_option trim (sectionAt h (h @ CHR 0x0A # CHR 0x0A # x @ after)) = Some x"
proof -
  have p: "prefix (toLowerCase h) (toLowerCase (h @ CHR 0x0A # CHR 0x0A # x @ after))"
    by (simp add: toLowerCase_def)
  have l: "trim (lazyUntilHeading (x @ after)) = x"
  proof -
    consider "after = [CHR 0x0A]" | "after = [CHR 0x0A, CHR 0x0A]"
      | rest where "after = [CHR 0x0A, CHR 0x0A, CHR ''#'', CHR ''#'', CHR '' ''] @ rest"
      using after by blast
    then show ?thesis
    proof cases
      case 1
      then have "lazyUntilHeading (x @ after) = x @ [CHR 0x0A]"
        using lazy_to_end[OF plainSection_ends(4)[OF x], of after] by simp
      then show ?thesis
        using trim_append_spaces[OF plainSection_ends(1)[OF x] plainSection_ends(5)[OF x],
            of "[CHR 0x0A]"] by simp
    next
      case 2
      then have "lazyUntilHeading (x @ after) = x @ [CHR 0x0A, CHR 0x0A]"
        using lazy_to_end[OF plainSection_ends(4)[OF x], of after] by simp
      then show ?thesis
        using trim_append_spaces[OF plainSection_ends(1)[OF x] plainSection_ends(5)[OF x],
            of "[CHR 0x0A, CHR 0x0A]"] by simp
    next
      case 3
      then have "lazyUntilHeading (x @ after) = x @ [CHR 0x0A]"
        using lazy_to_heading[OF plainSection_ends(4)[OF x], of rest] by simp
      then show ?thesis
        using trim_append_spaces[OF plainSection_ends(1)[OF x] plainSection_ends(5)[OF x],
            of "[CHR 0x0A]"] by simp
    qed
  qed
  show ?thesis
    using p l by (simp add: sectionAt_def spaces_before_plain[OF x])
qed

subsection \<open>Searching the headings of a finding file\<close>

lemma hash_lowerChar [simp]: "CHR ''#'' = lowerChar c \<longleftrightarrow> c = CHR ''#''"
  by (metis lowerChar_hash)

lemma space_lowerChar [simp]: "CHR '' '' = lowerChar c \<longleftrightarrow> c = CHR '' ''"
  by (metis lowerChar_space)

lemma skip_char:
  "c \<noteq> CHR ''#'' \<Longrightarrow>
   findSection (CHR ''#'' # CHR ''#'' # CHR '' '' # name) (c # cs)
     = findSection (CHR ''#'' # CHR ''#'' # CHR '' '' # name) cs"
  by (simp add: sectionAt_def toLowerCase_def)

lemma skip_hash:
  "c \<noteq> CHR ''#'' \<Longrightarrow>
   findSection (CHR ''#'' # CHR ''#'' # CHR '' '' # name) (CHR ''#'' # c # cs)
     = findSection (CHR ''#'' # CHR ''#'' # CHR '' '' # name) (c # cs)"
  by (simp add: sectionAt_def toLowerCase_def)

lemma skip_heading:
  "lowerChar n \<noteq> lowerChar x \<Longrightarrow>
   findSection (CHR ''#'' # CHR ''#'' # CHR '' '' # n # name)
      (CHR ''#'' # CHR ''#'' # CHR '' '' # x # cs)
     = findSection (CHR ''#'' # CHR ''#'' # CHR '' '' # n # name) (CHR ''#'' # CHR '' '' # x # cs)"
  by (simp add: sectionAt_def toLowerCase_def)

lemma find_end: "findSection (CHR ''#'' # CHR ''#'' # CHR '' '' # name) [] = None"
  by (simp add: sectionAt_def toLowerCase_def)

lemma skip_text:
  "\<not> sublist ''## '' d \<Longrightarrow>
   findSection (CHR ''#'' # CHR ''#'' # CHR '' '' # name) (d @ CHR 0x0A # rest)
     = findSection (CHR ''#'' # CHR ''#'' # CHR '' '' # name) (CHR 0x0A # rest)"
  using find_skip_text[of d name rest] by simp

lemma find_hit:
  assumes "plainSection x"
    and "after = [CHR 0x0A] \<or> after = [CHR 0x0A, CHR 0x0A]
        \<or> (\<exists>rest. after = [CHR 0x0A, CHR 0x0A, CHR ''#'', CHR ''#'', CHR '' ''] @ rest)"
  shows "map_option trim (findSection (CHR ''#'' # h) (CHR ''#'' # h @ CHR 0x0A # CHR 0x0A # x @ after))
     = Some x"
proof -
  from section_capture[OF assms, of "CHR ''#'' # h"]
  obtain s where s: "sectionAt (CHR ''#'' # h) (CHR ''#'' # h @ CHR 0x0A # CHR 0x0A # x @ after) = Some s"
    and t: "trim s = x"
    by (cases "sectionAt (CHR ''#'' # h) (CHR ''#'' # h @ CHR 0x0A # CHR 0x0A # x @ after)") auto
  show ?thesis by (simp add: s t)
qed

lemma withFinalNewline_text:
  "s \<noteq> [] \<Longrightarrow> last s \<noteq> CHR 0x0A \<Longrightarrow> withFinalNewline (p @ s) = p @ s @ [CHR 0x0A]"
  by (simp add: withFinalNewline_def newline_def)

lemma withFinalNewline_done: "withFinalNewline (p @ [CHR 0x0A]) = p @ [CHR 0x0A]"
  by (simp add: withFinalNewline_def)

lemma plain_last_not_newline: "plainSection x \<Longrightarrow> last x \<noteq> CHR 0x0A"
  using plainSection_ends(3)[of x] by auto

text \<open>The text of a finding file, in the four cases of the optional sections.\<close>

lemma body_shape:
  assumes "optionalSectionOk ev" "optionalSectionOk re"
  shows "withFinalNewline (findingBody d ev re) =
    ''## Description'' @ CHR 0x0A # CHR 0x0A # d @
      (if truthy ev
       then (if truthy re
             then CHR 0x0A # CHR 0x0A # ''## Evidence'' @ CHR 0x0A # CHR 0x0A # the ev
                  @ CHR 0x0A # CHR 0x0A # ''## Recommendations'' @ CHR 0x0A # CHR 0x0A # the re
                  @ [CHR 0x0A]
             else CHR 0x0A # CHR 0x0A # ''## Evidence'' @ CHR 0x0A # CHR 0x0A # the ev
                  @ [CHR 0x0A, CHR 0x0A])
       else (if truthy re
             then CHR 0x0A # CHR 0x0A # ''## Recommendations'' @ CHR 0x0A # CHR 0x0A # the re
                  @ [CHR 0x0A]
             else [CHR 0x0A, CHR 0x0A]))"
proof (cases "truthy re")
  case True
  then have r: "plainSection (the re)" using assms(2) by (simp add: optionalSectionOk_def)
  note n = plainSection_ends(1)[OF r] plain_last_not_newline[OF r]
  show ?thesis
  proof (cases "truthy ev")
    case True
    let ?P = "''## Description'' @ CHR 0x0A # CHR 0x0A # d @ CHR 0x0A # CHR 0x0A
        # ''## Evidence'' @ CHR 0x0A # CHR 0x0A # the ev @ CHR 0x0A # CHR 0x0A
        # ''## Recommendations'' @ [CHR 0x0A, CHR 0x0A]"
    have fb: "findingBody d ev re = ?P @ the re"
      using True \<open>truthy re\<close> by (simp add: findingBody_def newline_def)
    have "withFinalNewline (findingBody d ev re) = ?P @ the re @ [CHR 0x0A]"
      by (simp only: fb withFinalNewline_text[OF n])
    then show ?thesis using True \<open>truthy re\<close> by simp
  next
    case False
    let ?P = "''## Description'' @ CHR 0x0A # CHR 0x0A # d @ CHR 0x0A # CHR 0x0A
        # ''## Recommendations'' @ [CHR 0x0A, CHR 0x0A]"
    have fb: "findingBody d ev re = ?P @ the re"
      using False \<open>truthy re\<close> by (simp add: findingBody_def newline_def)
    have "withFinalNewline (findingBody d ev re) = ?P @ the re @ [CHR 0x0A]"
      by (simp only: fb withFinalNewline_text[OF n])
    then show ?thesis using False \<open>truthy re\<close> by simp
  qed
next
  case False
  show ?thesis
  proof (cases "truthy ev")
    case True
    let ?P = "''## Description'' @ CHR 0x0A # CHR 0x0A # d @ CHR 0x0A # CHR 0x0A
        # ''## Evidence'' @ CHR 0x0A # CHR 0x0A # the ev @ [CHR 0x0A]"
    have fb: "findingBody d ev re = ?P @ [CHR 0x0A]"
      using True False by (simp add: findingBody_def newline_def)
    have "withFinalNewline (findingBody d ev re) = ?P @ [CHR 0x0A]"
      by (simp only: fb withFinalNewline_done)
    then show ?thesis using True False by simp
  next
    case f: False
    let ?P = "''## Description'' @ CHR 0x0A # CHR 0x0A # d @ [CHR 0x0A]"
    have fb: "findingBody d ev re = ?P @ [CHR 0x0A]"
      using f False by (simp add: findingBody_def newline_def)
    have "withFinalNewline (findingBody d ev re) = ?P @ [CHR 0x0A]"
      by (simp only: fb withFinalNewline_done)
    then show ?thesis using f False by simp
  qed
qed

subsection \<open>Reading the sections back\<close>

lemmas skip_rules = skip_heading skip_hash skip_char skip_text find_end

lemma lowerChar_D [simp]: "lowerChar (CHR ''D'') = CHR ''d''"
  by code_simp

lemma lowerChar_E [simp]: "lowerChar (CHR ''E'') = CHR ''e''"
  by code_simp

lemma lowerChar_R [simp]: "lowerChar (CHR ''R'') = CHR ''r''"
  by code_simp

lemma skip_description_for_evidence:
  "\<not> sublist ''## '' d \<Longrightarrow>
   findSection ''## Evidence'' (''## Description'' @ CHR 0x0A # CHR 0x0A # d @ CHR 0x0A # CHR 0x0A # rest)
     = findSection ''## Evidence'' rest"
  by (simp add: skip_rules del: findSection.simps)

lemma skip_description_for_recommendations:
  "\<not> sublist ''## '' d \<Longrightarrow>
   findSection ''## Recommendations''
       (''## Description'' @ CHR 0x0A # CHR 0x0A # d @ CHR 0x0A # CHR 0x0A # rest)
     = findSection ''## Recommendations'' rest"
  by (simp add: skip_rules del: findSection.simps)

lemma skip_evidence_for_recommendations:
  "\<not> sublist ''## '' e \<Longrightarrow>
   findSection ''## Recommendations''
       (''## Evidence'' @ CHR 0x0A # CHR 0x0A # e @ CHR 0x0A # CHR 0x0A # rest)
     = findSection ''## Recommendations'' rest"
  by (simp add: skip_rules del: findSection.simps)

lemma skip_recommendations_for_evidence:
  "\<not> sublist ''## '' r \<Longrightarrow>
   findSection ''## Evidence'' (''## Recommendations'' @ CHR 0x0A # CHR 0x0A # r @ [CHR 0x0A]) = None"
  by (simp add: skip_rules del: findSection.simps)

lemma hit_description:
  assumes "plainSection d"
    and "after = [CHR 0x0A] \<or> after = [CHR 0x0A, CHR 0x0A]
        \<or> (\<exists>rest. after = [CHR 0x0A, CHR 0x0A, CHR ''#'', CHR ''#'', CHR '' ''] @ rest)"
  shows "map_option trim (findSection ''## Description''
           (''## Description'' @ CHR 0x0A # CHR 0x0A # d @ after)) = Some d"
  using find_hit[OF assms, of "''# Description''"] by (simp del: findSection.simps)

lemma hit_evidence:
  assumes "plainSection e"
    and "after = [CHR 0x0A] \<or> after = [CHR 0x0A, CHR 0x0A]
        \<or> (\<exists>rest. after = [CHR 0x0A, CHR 0x0A, CHR ''#'', CHR ''#'', CHR '' ''] @ rest)"
  shows "map_option trim (findSection ''## Evidence''
           (''## Evidence'' @ CHR 0x0A # CHR 0x0A # e @ after)) = Some e"
  using find_hit[OF assms, of "''# Evidence''"] by (simp del: findSection.simps)

lemma hit_recommendations:
  assumes "plainSection r"
  shows "map_option trim (findSection ''## Recommendations''
           (''## Recommendations'' @ CHR 0x0A # CHR 0x0A # r @ [CHR 0x0A])) = Some r"
  using find_hit[OF assms, of "[CHR 0x0A]" "''# Recommendations''"]
  by (simp del: findSection.simps)

text \<open>What \<open>getFinding\<close> extracts from the text that \<open>createFinding\<close> writes.\<close>

lemma body_extract:
  assumes d: "plainSection d" and ev: "optionalSectionOk ev" and re: "optionalSectionOk re"
  shows "extractSection ''Description'' (withFinalNewline (findingBody d ev re)) = Some d
    \<and> extractSection ''Evidence'' (withFinalNewline (findingBody d ev re)) = readBack ev
    \<and> extractSection ''Recommendations'' (withFinalNewline (findingBody d ev re)) = readBack re"
proof -
  note nd = plainSection_ends(4)[OF d]
  show ?thesis
  proof (cases "truthy ev")
    case tev: True
    then have e: "plainSection (the ev)" using ev by (simp add: optionalSectionOk_def)
    note ne = plainSection_ends(4)[OF e]
    show ?thesis
    proof (cases "truthy re")
      case tre: True
      then have r: "plainSection (the re)" using re by (simp add: optionalSectionOk_def)
      let ?R = "''## Recommendations'' @ CHR 0x0A # CHR 0x0A # the re @ [CHR 0x0A]"
      let ?E = "''## Evidence'' @ CHR 0x0A # CHR 0x0A # the ev @ CHR 0x0A # CHR 0x0A # ?R"
      have b: "withFinalNewline (findingBody d ev re)
          = ''## Description'' @ CHR 0x0A # CHR 0x0A # d @ CHR 0x0A # CHR 0x0A # ?E"
        using body_shape[OF ev re, of d] tev tre by simp
      have 1: "map_option trim (findSection ''## Description''
          (''## Description'' @ CHR 0x0A # CHR 0x0A # d @ CHR 0x0A # CHR 0x0A # ?E)) = Some d"
        by (rule hit_description[OF d]) simp
      have 2: "map_option trim (findSection ''## Evidence''
          (''## Description'' @ CHR 0x0A # CHR 0x0A # d @ CHR 0x0A # CHR 0x0A # ?E)) = Some (the ev)"
        unfolding skip_description_for_evidence[OF nd]
        by (rule hit_evidence[OF e]) simp
      have 3: "map_option trim (findSection ''## Recommendations''
          (''## Description'' @ CHR 0x0A # CHR 0x0A # d @ CHR 0x0A # CHR 0x0A # ?E)) = Some (the re)"
        unfolding skip_description_for_recommendations[OF nd]
          skip_evidence_for_recommendations[OF ne]
        by (rule hit_recommendations[OF r])
      have rb: "readBack ev = Some (the ev)" "readBack re = Some (the re)"
        using tev tre by (auto simp: readBack_def truthy_def split: option.splits)
      have c1: "extractSection ''Description'' (withFinalNewline (findingBody d ev re)) = Some d"
        unfolding extractSection_def b using 1 by (simp only: append.simps)
      have c2: "extractSection ''Evidence'' (withFinalNewline (findingBody d ev re)) = readBack ev"
        unfolding extractSection_def b rb using 2 by (simp only: append.simps)
      have c3: "extractSection ''Recommendations'' (withFinalNewline (findingBody d ev re))
          = readBack re"
        unfolding extractSection_def b rb using 3 by (simp only: append.simps)
      show ?thesis using c1 c2 c3 by blast
    next
      case fre: False
      let ?E = "''## Evidence'' @ CHR 0x0A # CHR 0x0A # the ev @ CHR 0x0A # CHR 0x0A # []"
      have b: "withFinalNewline (findingBody d ev re)
          = ''## Description'' @ CHR 0x0A # CHR 0x0A # d @ CHR 0x0A # CHR 0x0A # ?E"
        using body_shape[OF ev re, of d] tev fre by simp
      have 1: "map_option trim (findSection ''## Description''
          (''## Description'' @ CHR 0x0A # CHR 0x0A # d @ CHR 0x0A # CHR 0x0A # ?E)) = Some d"
        by (rule hit_description[OF d]) simp
      have 2: "map_option trim (findSection ''## Evidence''
          (''## Description'' @ CHR 0x0A # CHR 0x0A # d @ CHR 0x0A # CHR 0x0A # ?E)) = Some (the ev)"
        unfolding skip_description_for_evidence[OF nd]
        by (rule hit_evidence[OF e]) simp
      have 3: "map_option trim (findSection ''## Recommendations''
          (''## Description'' @ CHR 0x0A # CHR 0x0A # d @ CHR 0x0A # CHR 0x0A # ?E)) = None"
        unfolding skip_description_for_recommendations[OF nd]
          skip_evidence_for_recommendations[OF ne]
        by (simp add: find_end del: findSection.simps)
      have rb: "readBack ev = Some (the ev)" "readBack re = None"
        using tev fre by (auto simp: readBack_def truthy_def split: option.splits)
      have c1: "extractSection ''Description'' (withFinalNewline (findingBody d ev re)) = Some d"
        unfolding extractSection_def b using 1 by (simp only: append.simps)
      have c2: "extractSection ''Evidence'' (withFinalNewline (findingBody d ev re)) = readBack ev"
        unfolding extractSection_def b rb using 2 by (simp only: append.simps)
      have c3: "extractSection ''Recommendations'' (withFinalNewline (findingBody d ev re))
          = readBack re"
        unfolding extractSection_def b rb using 3 by (simp only: append.simps)
      show ?thesis using c1 c2 c3 by blast
    qed
  next
    case fev: False
    show ?thesis
    proof (cases "truthy re")
      case tre: True
      then have r: "plainSection (the re)" using re by (simp add: optionalSectionOk_def)
      note nr = plainSection_ends(4)[OF r]
      let ?R = "''## Recommendations'' @ CHR 0x0A # CHR 0x0A # the re @ [CHR 0x0A]"
      have b: "withFinalNewline (findingBody d ev re)
          = ''## Description'' @ CHR 0x0A # CHR 0x0A # d @ CHR 0x0A # CHR 0x0A # ?R"
        using body_shape[OF ev re, of d] fev tre by simp
      have 1: "map_option trim (findSection ''## Description''
          (''## Description'' @ CHR 0x0A # CHR 0x0A # d @ CHR 0x0A # CHR 0x0A # ?R)) = Some d"
        by (rule hit_description[OF d]) simp
      have 2: "map_option trim (findSection ''## Evidence''
          (''## Description'' @ CHR 0x0A # CHR 0x0A # d @ CHR 0x0A # CHR 0x0A # ?R)) = None"
        unfolding skip_description_for_evidence[OF nd] skip_recommendations_for_evidence[OF nr]
        by (simp del: findSection.simps)
      have 3: "map_option trim (findSection ''## Recommendations''
          (''## Description'' @ CHR 0x0A # CHR 0x0A # d @ CHR 0x0A # CHR 0x0A # ?R)) = Some (the re)"
        unfolding skip_description_for_recommendations[OF nd]
        by (rule hit_recommendations[OF r])
      have rb: "readBack ev = None" "readBack re = Some (the re)"
        using fev tre by (auto simp: readBack_def truthy_def split: option.splits)
      have c1: "extractSection ''Description'' (withFinalNewline (findingBody d ev re)) = Some d"
        unfolding extractSection_def b using 1 by (simp only: append.simps)
      have c2: "extractSection ''Evidence'' (withFinalNewline (findingBody d ev re)) = readBack ev"
        unfolding extractSection_def b rb using 2 by (simp only: append.simps)
      have c3: "extractSection ''Recommendations'' (withFinalNewline (findingBody d ev re))
          = readBack re"
        unfolding extractSection_def b rb using 3 by (simp only: append.simps)
      show ?thesis using c1 c2 c3 by blast
    next
      case fre: False
      have b: "withFinalNewline (findingBody d ev re)
          = ''## Description'' @ CHR 0x0A # CHR 0x0A # d @ CHR 0x0A # CHR 0x0A # []"
        using body_shape[OF ev re, of d] fev fre by simp
      have 1: "map_option trim (findSection ''## Description''
          (''## Description'' @ CHR 0x0A # CHR 0x0A # d @ CHR 0x0A # CHR 0x0A # [])) = Some d"
        by (rule hit_description[OF d]) simp
      have 2: "map_option trim (findSection ''## Evidence''
          (''## Description'' @ CHR 0x0A # CHR 0x0A # d @ CHR 0x0A # CHR 0x0A # [])) = None"
        unfolding skip_description_for_evidence[OF nd] by (simp add: find_end del: findSection.simps)
      have 3: "map_option trim (findSection ''## Recommendations''
          (''## Description'' @ CHR 0x0A # CHR 0x0A # d @ CHR 0x0A # CHR 0x0A # [])) = None"
        unfolding skip_description_for_recommendations[OF nd]
        by (simp add: find_end del: findSection.simps)
      have rb: "readBack ev = None" "readBack re = None"
        using fev fre by (auto simp: readBack_def truthy_def split: option.splits)
      have c1: "extractSection ''Description'' (withFinalNewline (findingBody d ev re)) = Some d"
        unfolding extractSection_def b using 1 by (simp only: append.simps)
      have c2: "extractSection ''Evidence'' (withFinalNewline (findingBody d ev re)) = readBack ev"
        unfolding extractSection_def b rb using 2 by (simp only: append.simps)
      have c3: "extractSection ''Recommendations'' (withFinalNewline (findingBody d ev re))
          = readBack re"
        unfolding extractSection_def b rb using 3 by (simp only: append.simps)
      show ?thesis using c1 c2 c3 by blast
    qed
  qed
qed

subsection \<open>Decomposing runs of the store\<close>

lemma bind_Inr:
  "bind m f st = (Inr y, st') \<Longrightarrow> \<exists>x s1. m st = (Inr x, s1) \<and> f x s1 = (Inr y, st')"
  by (auto simp: bind_def split: prod.splits sum.splits)

lemma bind_ok: "m st = (Inr x, s1) \<Longrightarrow> bind m f st = f x s1"
  by (simp add: bind_def)

lemma bind_err: "m st = (Inl e, s1) \<Longrightarrow> bind m f st = (Inl e, s1)"
  by (simp add: bind_def)

lemma catch_ok: "m st = (Inr x, s1) \<Longrightarrow> catch m h st = (Inr x, s1)"
  by (simp add: catch_def)

lemma catch_err: "m st = (Inl e, s1) \<Longrightarrow> catch m h st = h e s1"
  by (simp add: catch_def)

text \<open>A handler that always throws: a caught block that succeeds did so without it.\<close>

lemma catch_Inr:
  assumes "catch m h st = (Inr y, st')" and "\<And>e s. \<exists>e' s'. h e s = (Inl e', s')"
  shows "m st = (Inr y, st')"
proof (cases "m st")
  case (Pair r s1)
  show ?thesis
  proof (cases r)
    case (Inl e)
    then have "h e s1 = (Inr y, st')" using assms(1) Pair by (simp add: catch_def)
    then show ?thesis using assms(2)[of e s1] by auto
  next
    case (Inr x)
    then show ?thesis using assms(1) Pair by (simp add: catch_def)
  qed
qed

lemma withLock_Inr:
  assumes "withLock k op st = (Inr y, st')"
  shows "\<not> lockBusy st k
    \<and> (\<exists>s2. op (st\<lparr>files := AList.update (lockArtifact st k) (Dir (now st)) (files st)\<rparr>)
              = (Inr y, s2)
         \<and> st' = s2\<lparr>files := AList.delete (lockArtifact st k) (files s2)\<rparr>)"
proof -
  have nb: "\<not> lockBusy st k" using assms by (auto simp: withLock_def lockTimeout_def split: if_splits)
  let ?sL = "st\<lparr>files := AList.update (lockArtifact st k) (Dir (now st)) (files st)\<rparr>"
  obtain r s2 where op: "op ?sL = (r, s2)" by (cases "op ?sL")
  have "r = Inr y \<and> st' = s2\<lparr>files := AList.delete (lockArtifact st k) (files s2)\<rparr>"
    using assms nb op
    by (cases r) (auto simp: withLock_def catch_def throw_def lockTimeout_def split: if_splits)
  then show ?thesis using nb op by auto
qed

lemma keeps_withLock:
  assumes "keeps w K op" and "path_join w (''.mcp-lock-'' @ k) @ ''.lock'' \<notin> K"
  shows "keeps w K (withLock k op)"
proof (rule keepsI)
  fix st r st'
  assume w: "workingDir st = w" and wl: "withLock k op st = (r, st')"
  let ?L = "lockArtifact st k"
  have L: "?L \<notin> K" using assms(2) w by (simp add: lockArtifact_def)
  show "static st' = static st \<and> (\<forall>q \<in> K. map_of (files st') q = map_of (files st) q)"
  proof (cases "lockBusy st k")
    case True
    then show ?thesis using wl by (simp add: withLock_def)
  next
    case False
    let ?sL = "st\<lparr>files := AList.update ?L (Dir (now st)) (files st)\<rparr>"
    let ?c = "catch op (\<lambda>e. if sublist ''already being held'' (message e)
                        then throw (lockTimeout k) else throw e)"
    obtain r2 s2 where c: "?c ?sL = (r2, s2)" by (cases "?c ?sL")
    have kc: "keeps w K ?c" using assms(1) by (intro keeps_catch) auto
    have wL: "workingDir ?sL = w" using w by simp
    have k2: "static s2 = static ?sL \<and> (\<forall>q \<in> K. map_of (files s2) q = map_of (files ?sL) q)"
      using keepsD[of ?sL K ?c r2 s2] kc wL c by simp
    have "st' = s2\<lparr>files := AList.delete ?L (files s2)\<rparr>"
      using wl False c by (simp add: withLock_def)
    then show ?thesis using k2 L by (auto simp: map_of_delete map_of_update)
  qed
qed

lemma keeps_writeProjectIndex:
  assumes "path_join w ''.mcp-projects.json'' \<notin> K" "path_join w ''.mcp-projects.json'' @ ''.tmp'' \<notin> K"
  shows "keeps w K (writeProjectIndex index)"
proof (rule keepsI)
  fix st r st'
  assume w: "workingDir st = w" and wr: "writeProjectIndex index st = (r, st')"
  let ?I = "projectIndexPath st"
  have I: "?I \<notin> K" "?I @ ''.tmp'' \<notin> K" using assms w by (simp_all add: projectIndexPath_def)
  let ?m = "catch
       (bind (fs_writeFile (?I @ ''.tmp'') (IndexJson index))
          (\<lambda>_. bind (fs_rename (?I @ ''.tmp'') ?I)
          (\<lambda>_ s. (Inr (), s\<lparr>projectIndexCache := None\<rparr>))))
       (\<lambda>e. bind (ignoreErrors (fs_unlink (?I @ ''.tmp'')))
          (\<lambda>_. throw (Error (''Failed to write project index: '' @ message e))))"
  have "keeps w K ?m"
    using I by (intro keeps_catch keeps_bind keeps_writeFile keeps_rename keeps_ignoreErrors
        keeps_unlink keeps_throw keeps_cache_update)
  moreover have "?m st = (r, st')" using wr by (simp add: writeProjectIndex_def)
  ultimately show "static st' = static st \<and> (\<forall>k \<in> K. map_of (files st') k = map_of (files st) k)"
    using keepsD[of st K ?m r st'] w by simp
qed

lemma keeps_getProject [intro!, simp]: "keeps w K (getProject p)"
  unfolding getProject_def by (intro keeps_bind keeps_readProjectIndex) (auto split: option.splits)

lemma keeps_checkProjectNotCompleted [intro!, simp]: "keeps w K (checkProjectNotCompleted p operation)"
  unfolding checkProjectNotCompleted_def by (intro keeps_bind keeps_getProject) auto

lemma keeps_getProjectPath [intro!, simp]: "keeps w K (getProjectPath p)"
  by (auto simp: keeps_def getProjectPath_def Let_def split: if_splits)

subsection \<open>What updating a project touches\<close>

lemma keepsE:
  "keeps w K m \<Longrightarrow> workingDir st = w \<Longrightarrow> m st = (r, st') \<Longrightarrow>
     static st' = static st \<and> (\<forall>k \<in> K. map_of (files st') k = map_of (files st) k)"
  unfolding keeps_def by blast

lemma keeps_bind_val:
  assumes "keeps w K m"
    and "\<And>x st s1. workingDir st = w \<Longrightarrow> m st = (Inr x, s1) \<Longrightarrow> keeps w K (f x)"
  shows "keeps w K (bind m f)"
proof (rule keepsI)
  fix st r st'
  assume w: "workingDir st = w" and b: "bind m f st = (r, st')"
  obtain r1 st1 where m: "m st = (r1, st1)" by (cases "m st")
  have k1: "static st1 = static st \<and> (\<forall>k \<in> K. map_of (files st1) k = map_of (files st) k)"
    using keepsD[of st K m r1 st1] assms(1) w m by simp
  then have w1: "workingDir st1 = w" using w static_fields(1)[of st1 st] by simp
  show "static st' = static st \<and> (\<forall>k \<in> K. map_of (files st') k = map_of (files st) k)"
  proof (cases r1)
    case (Inl e)
    then show ?thesis using b m k1 by (simp add: bind_def)
  next
    case (Inr x)
    then have fx: "f x st1 = (r, st')" using b m by (simp add: bind_def)
    have "keeps w K (f x)" using assms(2)[OF w] m Inr by simp
    then show ?thesis using keepsD[of st1 K "f x" r st'] fx w1 k1 by simp
  qed
qed

lemma keeps_state_fun:
  assumes "\<And>s. keeps w K (g s)"
  shows "keeps w K (\<lambda>s. g s s)"
  using assms unfolding keeps_def by blast

lemma keeps_with_cache:
  assumes "keeps w K m"
  shows "keeps w K (\<lambda>s. m (s\<lparr>projectIndexCache := c s\<rparr>))"
proof (rule keepsI)
  fix st r st'
  assume w: "workingDir st = w" and m: "m (st\<lparr>projectIndexCache := c st\<rparr>) = (r, st')"
  from keepsD[of "st\<lparr>projectIndexCache := c st\<rparr>" K m r st'] assms w m
  show "static st' = static st \<and> (\<forall>k \<in> K. map_of (files st') k = map_of (files st) k)"
    by simp
qed

lemma getProjectPath_result:
  "getProjectPath p st = (Inr x, s1) \<Longrightarrow>
     x = path_join (workingDir st) (sanitizeProjectName p) \<and> s1 = st"
  by (auto simp: getProjectPath_def Let_def split: if_splits)

lemma getProjectPath_ok:
  "getProjectPath p st = (Inr (path_join (workingDir st) (sanitizeProjectName p)), st)"
  by (simp add: getProjectPath_def path_join_def)

lemma keeps_writeProjectFile:
  "path_join P ''project.json'' \<notin> K \<Longrightarrow> path_join P ''project.json'' @ ''.tmp'' \<notin> K \<Longrightarrow>
   keeps w K (writeProjectFile P md)"
  unfolding writeProjectFile_def by (intro keeps_bind keeps_writeFile keeps_rename)

text \<open>\<open>updateProject\<close> changes the project's metadata file, the index, their temporary
  files and its lock; nothing else.\<close>

lemma keeps_updateProject:
  assumes "path_join (path_join w (sanitizeProjectName p)) ''project.json'' \<notin> K"
    and "path_join (path_join w (sanitizeProjectName p)) ''project.json'' @ ''.tmp'' \<notin> K"
    and "path_join w ''.mcp-projects.json'' \<notin> K"
    and "path_join w ''.mcp-projects.json'' @ ''.tmp'' \<notin> K"
    and "path_join w (''.mcp-lock-'' @ ''project-index'') @ ''.lock'' \<notin> K"
  shows "keeps w K (updateProject p updates)"
proof -
  let ?P = "path_join w (sanitizeProjectName p)"
  have inner: "keeps w K (\<lambda>s'. bind (writeProjectIndex idx) (\<lambda>_. return v)
           (s'\<lparr>projectIndexCache := Some idx\<rparr>))" for idx v
    by (rule keeps_with_cache[of w K "bind (writeProjectIndex idx) (\<lambda>_. return v)" "\<lambda>_. Some idx"])
       (intro keeps_bind keeps_writeProjectIndex[OF assms(3,4)] keeps_return allI)
  have body: "keeps w K (catch
        (bind (writeProjectFile ?P v)
           (\<lambda>_. bind readProjectIndex
           (\<lambda>index s.
              let index' = index\<lparr>projects :=
                    AList.update (sanitizeProjectName p) v (projects index)\<rparr>
              in bind (writeProjectIndex index') (\<lambda>_. return v)
                   (s\<lparr>projectIndexCache := Some index'\<rparr>))))
        (\<lambda>e. bind (ignoreErrors (fs_unlink (path_join ?P ''project.json'' @ ''.tmp'')))
           (\<lambda>_. throw (Error (''Failed to update project: '' @ message e)))))" for v
    unfolding Let_def
    apply (rule keeps_catch)
     apply (rule keeps_bind)
      apply (rule keeps_writeProjectFile[OF assms(1,2)])
     apply (rule keeps_bind)
      apply (rule keeps_readProjectIndex)
     apply (rule inner)
    apply (rule keeps_bind)
     apply (rule keeps_ignoreErrors)
     apply (rule keeps_unlink[OF assms(2)])
    apply (rule keeps_throw)
    done
  have path: "keeps w K (bind (getProjectPath p)
       (\<lambda>projectPath. catch
        (bind (writeProjectFile projectPath v)
           (\<lambda>_. bind readProjectIndex
           (\<lambda>index s.
              let index' = index\<lparr>projects :=
                    AList.update (sanitizeProjectName p) v (projects index)\<rparr>
              in bind (writeProjectIndex index') (\<lambda>_. return v)
                   (s\<lparr>projectIndexCache := Some index'\<rparr>))))
        (\<lambda>e. bind (ignoreErrors (fs_unlink (path_join projectPath ''project.json'' @ ''.tmp'')))
           (\<lambda>_. throw (Error (''Failed to update project: '' @ message e))))))" for v
  proof (rule keeps_bind_val, rule keeps_getProjectPath)
    fix x st s1
    assume w: "workingDir st = w" and g: "getProjectPath p st = (Inr x, s1)"
    have x: "x = ?P" using getProjectPath_result[OF g] w by simp
    show "keeps w K (catch
        (bind (writeProjectFile x v)
           (\<lambda>_. bind readProjectIndex
           (\<lambda>index s.
              let index' = index\<lparr>projects :=
                    AList.update (sanitizeProjectName p) v (projects index)\<rparr>
              in bind (writeProjectIndex index') (\<lambda>_. return v)
                   (s\<lparr>projectIndexCache := Some index'\<rparr>))))
        (\<lambda>e. bind (ignoreErrors (fs_unlink (path_join x ''project.json'' @ ''.tmp'')))
           (\<lambda>_. throw (Error (''Failed to update project: '' @ message e)))))"
      unfolding x by (rule body)
  qed
  show ?thesis
    unfolding updateProject_def
  proof (rule keeps_withLock[OF _ assms(5)], rule keeps_bind, rule keeps_getProject, rule keepsI)
    fix metadata st r st'
    assume w: "workingDir st = w"
      and run: "(if pm_status metadata = Completed
             then (Inl (ProjectCompletedError p ''update''), st)
             else bind (getProjectPath p)
               (\<lambda>projectPath.
                  catch
                    (bind (writeProjectFile projectPath (applyUpdates metadata updates (now st)))
                       (\<lambda>_. bind readProjectIndex
                       (\<lambda>index s.
                          let index' = index\<lparr>projects :=
                                AList.update (sanitizeProjectName p)
                                  (applyUpdates metadata updates (now st)) (projects index)\<rparr>
                          in bind (writeProjectIndex index')
                               (\<lambda>_. return (applyUpdates metadata updates (now st)))
                               (s\<lparr>projectIndexCache := Some index'\<rparr>))))
                    (\<lambda>e. bind (ignoreErrors
                                 (fs_unlink (path_join projectPath ''project.json'' @ ''.tmp'')))
                       (\<lambda>_. throw (Error (''Failed to update project: '' @ message e))))) st)
            = (r, st')"
    show "static st' = static st \<and> (\<forall>k \<in> K. map_of (files st') k = map_of (files st) k)"
    proof (cases "pm_status metadata = Completed")
      case True
      then show ?thesis using run by simp
    next
      case False
      then show ?thesis
        using run keepsE[OF path[of "applyUpdates metadata updates (now st)"] w, of r st']
        by simp
    qed
  qed
qed

subsection \<open>Successful runs of the index and project writes\<close>

lemma writeFile_Inr:
  "fs_writeFile p c st = (Inr y, st') \<Longrightarrow>
     st' = st\<lparr>files := AList.update p (File c (now st)) (files st)\<rparr>"
  by (auto simp: fs_writeFile_def split: if_splits option.splits node.splits)

lemma rename_Inr:
  "fs_rename a b st = (Inr y, st') \<Longrightarrow>
     \<exists>c t. map_of (files st) a = Some (File c t)
       \<and> st' = st\<lparr>files := AList.update b (File c t) (AList.delete a (files st))\<rparr>"
  by (auto simp: fs_rename_def split: if_splits option.splits node.splits)

text \<open>An atomic write that succeeds leaves the content at the target.\<close>

lemma write_rename_Inr:
  assumes "fs_writeFile (p @ ''.tmp'') c st = (Inr y, s1)" and "fs_rename (p @ ''.tmp'') p s1 = (Inr z, s2)"
  shows "map_of (files s2) p = Some (File c (now st))"
proof -
  have s1: "s1 = st\<lparr>files := AList.update (p @ ''.tmp'') (File c (now st)) (files st)\<rparr>"
    using writeFile_Inr[OF assms(1)] .
  obtain c' t where r: "map_of (files s1) (p @ ''.tmp'') = Some (File c' t)"
    and s2: "s2 = s1\<lparr>files := AList.update p (File c' t) (AList.delete (p @ ''.tmp'') (files s1))\<rparr>"
    using rename_Inr[OF assms(2)] by blast
  have "c' = c \<and> t = now st" using r s1 by (simp add: map_of_update)
  then show ?thesis using s2 by (simp add: map_of_update)
qed

lemma bind_InrE:
  assumes "bind m f st = (Inr y, st')"
  obtains x s1 where "m st = (Inr x, s1)" and "f x s1 = (Inr y, st')"
  using bind_Inr[OF assms] by blast

lemma withLock_InrE:
  assumes "withLock k op st = (Inr y, st')"
  obtains s2 where "\<not> lockBusy st k"
    and "op (st\<lparr>files := AList.update (lockArtifact st k) (Dir (now st)) (files st)\<rparr>) = (Inr y, s2)"
    and "st' = s2\<lparr>files := AList.delete (lockArtifact st k) (files s2)\<rparr>"
  using withLock_Inr[OF assms] by blast

lemma handler_throws:
  "\<exists>e' s'. bind (ignoreErrors m) (\<lambda>_. throw x) s = (Inl e', s')"
  by (cases "ignoreErrors m s"; cases "fst (ignoreErrors m s)") (auto simp: bind_def throw_def)

lemma writeProjectIndex_Inr:
  assumes "writeProjectIndex idx st = (Inr y, st')"
  shows "projectIndexCache st' = None
    \<and> map_of (files st') (projectIndexPath st) = Some (File (IndexJson idx) (now st))"
proof -
  let ?I = "projectIndexPath st"
  have c: "catch
       (bind (fs_writeFile (?I @ ''.tmp'') (IndexJson idx))
          (\<lambda>_. bind (fs_rename (?I @ ''.tmp'') ?I)
          (\<lambda>_ s. (Inr (), s\<lparr>projectIndexCache := None\<rparr>))))
       (\<lambda>e. bind (ignoreErrors (fs_unlink (?I @ ''.tmp'')))
          (\<lambda>_. throw (Error (''Failed to write project index: '' @ message e))))
       st = (Inr y, st')"
    using assms unfolding writeProjectIndex_def .
  have b: "bind (fs_writeFile (?I @ ''.tmp'') (IndexJson idx))
          (\<lambda>_. bind (fs_rename (?I @ ''.tmp'') ?I)
          (\<lambda>_ s. (Inr (), s\<lparr>projectIndexCache := None\<rparr>))) st = (Inr y, st')"
    by (rule catch_Inr[OF c]) (rule handler_throws)
  from b obtain u s1 where w: "fs_writeFile (?I @ ''.tmp'') (IndexJson idx) st = (Inr u, s1)"
    and b2: "bind (fs_rename (?I @ ''.tmp'') ?I)
          (\<lambda>_ s. (Inr (), s\<lparr>projectIndexCache := None\<rparr>)) s1 = (Inr y, st')"
    by (rule bind_InrE)
  from b2 obtain v s2 where r: "fs_rename (?I @ ''.tmp'') ?I s1 = (Inr v, s2)"
    and e: "(Inr () :: error + unit, s2\<lparr>projectIndexCache := None\<rparr>) = (Inr y, st')"
    by (rule bind_InrE)
  have m: "map_of (files s2) ?I = Some (File (IndexJson idx) (now st))"
    using write_rename_Inr[OF w r] .
  have st': "st' = s2\<lparr>projectIndexCache := None\<rparr>" using e by simp
  show ?thesis unfolding st' using m by simp
qed

lemma static_workingDir: "static a = static b \<Longrightarrow> workingDir a = workingDir b"
  by (rule static_fields(1))

lemma static_projectIndexPath: "static a = static b \<Longrightarrow> projectIndexPath a = projectIndexPath b"
  using static_workingDir[of a b] by (simp add: projectIndexPath_def)

text \<open>After a successful \<open>updateProject\<close> the index file holds the project with the
  returned metadata, and no index is cached.\<close>

lemma updateProject_Inr:
  assumes "updateProject p updates st = (Inr md, st')"
  shows "projectIndexCache st' = None
    \<and> (\<exists>idx t. map_of (files st') (projectIndexPath st) = Some (File (IndexJson idx) t)
          \<and> map_of (projects idx) (sanitizeProjectName p) = Some md)
    \<and> static st' = static st"
proof -
  let ?L = "lockArtifact st ''project-index''"
  let ?sL = "st\<lparr>files := AList.update ?L (Dir (now st)) (files st)\<rparr>"
  have "keeps (workingDir st) {} (updateProject p updates)"
    by (rule keeps_updateProject) simp_all
  from keepsD[OF this assms] have stat: "static st' = static st" by (rule conjunct1)
  from assms[unfolded updateProject_def] obtain s2 where nb: "\<not> lockBusy st ''project-index''" and op: "bind (getProject p)
          (\<lambda>metadata s0.
             if pm_status metadata = Completed
             then (Inl (ProjectCompletedError p ''update''), s0)
             else bind (getProjectPath p)
               (\<lambda>projectPath.
                  catch
                    (bind (writeProjectFile projectPath (applyUpdates metadata updates (now s0)))
                       (\<lambda>_. bind readProjectIndex
                       (\<lambda>index s.
                          let index' = index\<lparr>projects :=
                                AList.update (sanitizeProjectName p)
                                  (applyUpdates metadata updates (now s0)) (projects index)\<rparr>
                          in bind (writeProjectIndex index')
                               (\<lambda>_. return (applyUpdates metadata updates (now s0)))
                               (s\<lparr>projectIndexCache := Some index'\<rparr>))))
                    (\<lambda>e. bind (ignoreErrors
                                 (fs_unlink (path_join projectPath ''project.json'' @ ''.tmp'')))
                       (\<lambda>_. throw (Error (''Failed to update project: '' @ message e))))) s0) ?sL
         = (Inr md, s2)"
    and st': "st' = s2\<lparr>files := AList.delete ?L (files s2)\<rparr>"
    by (rule withLock_InrE)
  from op obtain metadata s0 where gp: "getProject p ?sL = (Inr metadata, s0)"
    and rest: "(if pm_status metadata = Completed
             then (Inl (ProjectCompletedError p ''update''), s0)
             else bind (getProjectPath p)
               (\<lambda>projectPath.
                  catch
                    (bind (writeProjectFile projectPath (applyUpdates metadata updates (now s0)))
                       (\<lambda>_. bind readProjectIndex
                       (\<lambda>index s.
                          let index' = index\<lparr>projects :=
                                AList.update (sanitizeProjectName p)
                                  (applyUpdates metadata updates (now s0)) (projects index)\<rparr>
                          in bind (writeProjectIndex index')
                               (\<lambda>_. return (applyUpdates metadata updates (now s0)))
                               (s\<lparr>projectIndexCache := Some index'\<rparr>))))
                    (\<lambda>e. bind (ignoreErrors
                                 (fs_unlink (path_join projectPath ''project.json'' @ ''.tmp'')))
                       (\<lambda>_. throw (Error (''Failed to update project: '' @ message e))))) s0)
         = (Inr md, s2)"
    by (rule bind_InrE)
  let ?v = "applyUpdates metadata updates (now s0)"
  have nc: "pm_status metadata \<noteq> Completed" using rest by (auto split: if_splits)
  then have rest2: "bind (getProjectPath p)
               (\<lambda>projectPath.
                  catch
                    (bind (writeProjectFile projectPath ?v)
                       (\<lambda>_. bind readProjectIndex
                       (\<lambda>index s.
                          let index' = index\<lparr>projects :=
                                AList.update (sanitizeProjectName p) ?v (projects index)\<rparr>
                          in bind (writeProjectIndex index') (\<lambda>_. return ?v)
                               (s\<lparr>projectIndexCache := Some index'\<rparr>))))
                    (\<lambda>e. bind (ignoreErrors
                                 (fs_unlink (path_join projectPath ''project.json'' @ ''.tmp'')))
                       (\<lambda>_. throw (Error (''Failed to update project: '' @ message e))))) s0
         = (Inr md, s2)"
    using rest by (simp only: if_False)
  from rest2 obtain P s0' where gpp: "getProjectPath p s0 = (Inr P, s0')" and c: "catch
                    (bind (writeProjectFile P ?v)
                       (\<lambda>_. bind readProjectIndex
                       (\<lambda>index s.
                          let index' = index\<lparr>projects :=
                                AList.update (sanitizeProjectName p) ?v (projects index)\<rparr>
                          in bind (writeProjectIndex index') (\<lambda>_. return ?v)
                               (s\<lparr>projectIndexCache := Some index'\<rparr>))))
                    (\<lambda>e. bind (ignoreErrors
                                 (fs_unlink (path_join P ''project.json'' @ ''.tmp'')))
                       (\<lambda>_. throw (Error (''Failed to update project: '' @ message e)))) s0'
         = (Inr md, s2)"
    by (rule bind_InrE)
  have body: "bind (writeProjectFile P ?v)
                       (\<lambda>_. bind readProjectIndex
                       (\<lambda>index s.
                          let index' = index\<lparr>projects :=
                                AList.update (sanitizeProjectName p) ?v (projects index)\<rparr>
                          in bind (writeProjectIndex index') (\<lambda>_. return ?v)
                               (s\<lparr>projectIndexCache := Some index'\<rparr>))) s0' = (Inr md, s2)"
    by (rule catch_Inr[OF c]) (rule handler_throws)
  from body obtain u sa where wpf: "writeProjectFile P ?v s0' = (Inr u, sa)" and b2: "bind readProjectIndex
                       (\<lambda>index s.
                          let index' = index\<lparr>projects :=
                                AList.update (sanitizeProjectName p) ?v (projects index)\<rparr>
                          in bind (writeProjectIndex index') (\<lambda>_. return ?v)
                               (s\<lparr>projectIndexCache := Some index'\<rparr>)) sa = (Inr md, s2)"
    by (rule bind_InrE)
  from b2 obtain index sb where rpi: "readProjectIndex sa = (Inr index, sb)" and b3: "(let index' = index\<lparr>projects :=
                                AList.update (sanitizeProjectName p) ?v (projects index)\<rparr>
                          in bind (writeProjectIndex index') (\<lambda>_. return ?v)
                               (sb\<lparr>projectIndexCache := Some index'\<rparr>)) = (Inr md, s2)"
    by (rule bind_InrE)
  let ?idx = "index\<lparr>projects := AList.update (sanitizeProjectName p) ?v (projects index)\<rparr>"
  let ?sb = "sb\<lparr>projectIndexCache := Some ?idx\<rparr>"
  have b4: "bind (writeProjectIndex ?idx) (\<lambda>_. return ?v) ?sb = (Inr md, s2)"
    using b3 unfolding Let_def .
  from b4 obtain z sc where wi: "writeProjectIndex ?idx ?sb = (Inr z, sc)"
    and ret: "return ?v sc = (Inr md, s2)"
    by (rule bind_InrE)
  have md: "md = ?v" and sc: "sc = s2" using ret by (auto simp: return_def)
  have wfacts: "projectIndexCache s2 = None"
      "map_of (files s2) (projectIndexPath ?sb) = Some (File (IndexJson ?idx) (now ?sb))"
    using writeProjectIndex_Inr[OF wi] sc by auto
  have s2st: "static s2 = static st" using stat st' by simp
  have "keeps (workingDir ?sb) {} (writeProjectIndex ?idx)"
    by (rule keeps_writeProjectIndex) simp_all
  from keepsD[OF this wi] have "static sc = static ?sb" by simp
  then have "static ?sb = static st" using s2st sc by simp
  then have ip: "projectIndexPath ?sb = projectIndexPath st" by (rule static_projectIndexPath)
  have ne: "projectIndexPath st \<noteq> ?L"
    by (simp add: projectIndexPath_eq lockArtifact_eq)
  have "map_of (files st') (projectIndexPath st) = Some (File (IndexJson ?idx) (now ?sb))"
    using wfacts(2) ip ne st' by (simp add: map_of_delete)
  moreover have "map_of (projects ?idx) (sanitizeProjectName p) = Some md"
    using md by (simp add: map_of_update)
  moreover have "projectIndexCache st' = None" using wfacts(1) st' by simp
  ultimately show ?thesis using stat by blast
qed

subsection \<open>Successful runs of createFinding\<close>

lemma findingPathOf_eq:
  "findingPathOf P fid = P @ ''/findings/'' @ fid @ ''.md''"
  by (simp add: findingPathOf_def path_join_def)

text \<open>A finding file is none of the files of the project index and of the project's
  metadata, and no lock.\<close>

lemma findingPath_not_dotfile:
  "findingPathOf (path_join w (sanitizeProjectName p)) fid @ x \<noteq> w @ ''/.'' @ y"
proof (cases "sanitizeProjectName p = []")
  case True
  then show ?thesis by (simp add: findingPathOf_eq path_join_def)
next
  case False
  have "\<not> prefix (w @ ''/.'' @ y)
      (path_join w (sanitizeProjectName p) @ (''/findings/'' @ fid @ ''.md'' @ x))"
    by (rule dotfile_not_prefix[OF False sanitize_no_dot])
  then show ?thesis by (auto simp: findingPathOf_eq)
qed

lemma findingPath_distinct:
  fixes w p fid
  defines "FP \<equiv> findingPathOf (path_join w (sanitizeProjectName p)) fid"
  shows "FP \<noteq> path_join (path_join w (sanitizeProjectName p)) ''project.json''"
    and "FP \<noteq> path_join (path_join w (sanitizeProjectName p)) ''project.json'' @ ''.tmp''"
    and "FP \<noteq> path_join w ''.mcp-projects.json''"
    and "FP \<noteq> path_join w ''.mcp-projects.json'' @ ''.tmp''"
    and "FP \<noteq> path_join w (''.mcp-lock-'' @ k) @ ''.lock''"
proof -
  show "FP \<noteq> path_join (path_join w (sanitizeProjectName p)) ''project.json''"
    by (simp add: FP_def findingPathOf_eq path_join_def)
  show "FP \<noteq> path_join (path_join w (sanitizeProjectName p)) ''project.json'' @ ''.tmp''"
    by (simp add: FP_def findingPathOf_eq path_join_def)
  show "FP \<noteq> path_join w ''.mcp-projects.json''"
    using findingPath_not_dotfile[of w p fid "[]" "''mcp-projects.json''"]
    by (simp add: FP_def path_join_def)
  show "FP \<noteq> path_join w ''.mcp-projects.json'' @ ''.tmp''"
    using findingPath_not_dotfile[of w p fid "[]" "''mcp-projects.json'' @ ''.tmp''"]
    by (simp add: FP_def path_join_def)
  show "FP \<noteq> path_join w (''.mcp-lock-'' @ k) @ ''.lock''"
    using findingPath_not_dotfile[of w p fid "[]" "''mcp-lock-'' @ k @ ''.lock''"]
    by (simp add: FP_def path_join_def)
qed

lemma invalidateFindingsCache_Inr:
  "invalidateFindingsCache p s = (r, s') \<Longrightarrow>
     files s' = files s \<and> projectIndexCache s' = projectIndexCache s \<and> static s' = static s"
  by (auto simp: invalidateFindingsCache_def static_def)

text \<open>The atomic write of a finding: on success the file holds the finding, the index
  file lists the project, and no index is cached.\<close>

lemma writeFinding_Inr:
  assumes wf: "writeFinding what p FP fd s = (Inr f, s')"
    and FP: "FP = findingPathOf (path_join (workingDir s) (sanitizeProjectName p)) fid"
  shows "f = fd"
    and "map_of (files s') FP = Some (File (findingFile fd) (now s))"
    and "projectIndexCache s' = None"
    and "\<exists>idx t md. map_of (files s') (projectIndexPath s) = Some (File (IndexJson idx) t)
           \<and> map_of (projects idx) (sanitizeProjectName p) = Some md"
    and "static s' = static s"
proof -
  have b: "bind (fs_writeFile (FP @ ''.tmp'') (findingFile fd))
       (\<lambda>_. bind (fs_rename (FP @ ''.tmp'') FP)
       (\<lambda>_. bind (updateProject p noUpdates)
       (\<lambda>_. bind (invalidateFindingsCache p)
       (\<lambda>_. return fd)))) s = (Inr f, s')"
    by (rule catch_Inr[OF wf[unfolded writeFinding_def]]) (rule handler_throws)
  from b obtain u s1 where w: "fs_writeFile (FP @ ''.tmp'') (findingFile fd) s = (Inr u, s1)"
    and b1: "bind (fs_rename (FP @ ''.tmp'') FP)
       (\<lambda>_. bind (updateProject p noUpdates)
       (\<lambda>_. bind (invalidateFindingsCache p)
       (\<lambda>_. return fd))) s1 = (Inr f, s')"
    by (rule bind_InrE)
  from b1 obtain v s2 where r: "fs_rename (FP @ ''.tmp'') FP s1 = (Inr v, s2)"
    and b2: "bind (updateProject p noUpdates)
       (\<lambda>_. bind (invalidateFindingsCache p)
       (\<lambda>_. return fd)) s2 = (Inr f, s')"
    by (rule bind_InrE)
  from b2 obtain md s3 where up: "updateProject p noUpdates s2 = (Inr md, s3)"
    and b3: "bind (invalidateFindingsCache p) (\<lambda>_. return fd) s3 = (Inr f, s')"
    by (rule bind_InrE)
  from b3 obtain z s4 where inv: "invalidateFindingsCache p s3 = (Inr z, s4)"
    and ret: "return fd s4 = (Inr f, s')"
    by (rule bind_InrE)
  show f: "f = fd" using ret by (simp add: return_def)
  have s': "s' = s4" using ret by (simp add: return_def)
  have m2: "map_of (files s2) FP = Some (File (findingFile fd) (now s))"
    by (rule write_rename_Inr[OF w r])
  have "keeps (workingDir s) {} (fs_writeFile (FP @ ''.tmp'') (findingFile fd))"
    by (rule keeps_writeFile) simp
  from keepsD[OF this w] have st1: "static s1 = static s" by (rule conjunct1)
  have "keeps (workingDir s1) {} (fs_rename (FP @ ''.tmp'') FP)"
    by (rule keeps_rename) simp_all
  from keepsD[OF this r] have "static s2 = static s1" by (rule conjunct1)
  then have st2: "static s2 = static s" using st1 by simp
  have w2: "workingDir s2 = workingDir s" by (rule static_workingDir[OF st2])
  have FP2: "FP = findingPathOf (path_join (workingDir s2) (sanitizeProjectName p)) fid"
    using FP w2 by simp
  have "keeps (workingDir s2) {FP} (updateProject p noUpdates)"
    using findingPath_distinct(1-4)[where w = "workingDir s2" and p = p and fid = fid, folded FP2]
      findingPath_distinct(5)[where w = "workingDir s2" and p = p and fid = fid
        and k = "''project-index''", folded FP2]
    by (intro keeps_updateProject) simp_all
  from keepsD[OF this up] have st3: "static s3 = static s2"
    and m3: "map_of (files s3) FP = map_of (files s2) FP" by simp_all
  from updateProject_Inr[OF up] obtain idx t where c3: "projectIndexCache s3 = None"
    and i3: "map_of (files s3) (projectIndexPath s2) = Some (File (IndexJson idx) t)"
    and p3: "map_of (projects idx) (sanitizeProjectName p) = Some md"
    by (elim conjE exE)
  have i4: "files s4 = files s3" "projectIndexCache s4 = projectIndexCache s3" "static s4 = static s3"
    using invalidateFindingsCache_Inr[OF inv] by simp_all
  show "map_of (files s') FP = Some (File (findingFile fd) (now s))"
    using s' i4(1) m3 m2 by simp
  show "projectIndexCache s' = None" using s' i4(2) c3 by simp
  have "projectIndexPath s2 = projectIndexPath s" by (rule static_projectIndexPath[OF st2])
  then have "map_of (files s') (projectIndexPath s) = Some (File (IndexJson idx) t)"
    using i3 s' i4(1) by simp
  then show "\<exists>idx t md. map_of (files s') (projectIndexPath s) = Some (File (IndexJson idx) t)
           \<and> map_of (projects idx) (sanitizeProjectName p) = Some md"
    using p3 by blast
  show "static s' = static s" using s' i4(3) st3 st2 by simp
qed


lemma keeps_mustNotExist: "keeps w K (mustNotExist q msg)"
  unfolding mustNotExist_def
  by (intro keeps_catch keeps_bind keeps_access keeps_throw keeps_if keeps_return)

lemma cvssStep_state: "cvssStep v s = (r, s') \<Longrightarrow> s' = s"
  by (auto simp: cvssStep_def split: if_splits sum.splits)

lemma calculateCVSSScore_static:
  assumes "static a = static b"
  shows "calculateCVSSScore a v = calculateCVSSScore b v"
  unfolding calculateCVSSScore_def static_fields(11)[OF assms] by (rule refl)

lemma cvssStep_static:
  "static a = static b \<Longrightarrow> fst (cvssStep v a) = fst (cvssStep v b)"
  using calculateCVSSScore_static[of a b "the v"]
  by (auto simp: cvssStep_def split: sum.splits)

text \<open>What a successful \<open>createFinding\<close> returns and leaves behind.\<close>

lemma createFinding_Inr:
  assumes cf: "createFinding p input rid st = (Inr f, st')"
  shows "\<exists>score. fst (cvssStep (cvssString input) st) = Inr score
           \<and> f = newFinding input rid (now st) score"
    and "map_of (files st') (findingPathOf (path_join (workingDir st) (sanitizeProjectName p)) (f_id f))
           = Some (File (findingFile f) (now st))"
    and "projectIndexCache st' = None"
    and "\<exists>idx t md. map_of (files st') (projectIndexPath st) = Some (File (IndexJson idx) t)
           \<and> map_of (projects idx) (sanitizeProjectName p) = Some md"
    and "static st' = static st"
proof -
  define body where "body finding =
     bind (getProjectPath p)
          (\<lambda>projectPath.
             bind (mustNotExist (findingPathOf projectPath (f_id finding))
                     (''Finding with ID '' @ [CHR 0x27] @ f_id finding @ [CHR 0x27]
                      @ '' already exists''))
             (\<lambda>_. writeFinding ''create'' p
                     (findingPathOf projectPath (f_id finding)) finding))" for finding
  define step where "step s0 score =
     withLock (''finding-'' @ p @ ''-'' @ f_id (newFinding input rid (now s0) score))
       (body (newFinding input rid (now s0) score))" for s0 :: state and score
  have unf: "createFinding p input rid =
     bind (getProject p)
     (\<lambda>_. bind (checkProjectNotCompleted p ''create finding'')
     (\<lambda>_ s0. bind (cvssStep (cvssString input)) (step s0) s0))"
    unfolding createFinding_def step_def body_def Let_def by (rule refl)
  from cf[unfolded unf] obtain md0 s1 where gp: "getProject p st = (Inr md0, s1)"
    and r1: "bind (checkProjectNotCompleted p ''create finding'')
       (\<lambda>_ s0. bind (cvssStep (cvssString input)) (step s0) s0) s1 = (Inr f, st')"
    by (rule bind_InrE)
  from r1 obtain u s2 where ck: "checkProjectNotCompleted p ''create finding'' s1 = (Inr u, s2)"
    and r2: "bind (cvssStep (cvssString input)) (step s2) s2 = (Inr f, st')"
    by (rule bind_InrE)
  from r2 obtain score s3 where cv: "cvssStep (cvssString input) s2 = (Inr score, s3)"
    and r3: "step s2 score s3 = (Inr f, st')"
    by (rule bind_InrE)
  have s3: "s3 = s2" by (rule cvssStep_state[OF cv])
  have "keeps (workingDir st) {} (getProject p)" by simp
  from keepsD[OF this gp] have st1: "static s1 = static st" by (rule conjunct1)
  have "keeps (workingDir s1) {} (checkProjectNotCompleted p ''create finding'')" by simp
  from keepsD[OF this ck] have "static s2 = static s1" by (rule conjunct1)
  then have st2: "static s2 = static st" using st1 by simp
  have now2: "now s2 = now st" by (rule static_fields(3)[OF st2])
  have w2: "workingDir s2 = workingDir st" by (rule static_workingDir[OF st2])
  let ?fd = "newFinding input rid (now st) score"
  let ?k = "''finding-'' @ p @ ''-'' @ f_id ?fd"
  let ?sL = "s2\<lparr>files := AList.update (lockArtifact s2 ?k) (Dir (now s2)) (files s2)\<rparr>"
  have r3': "withLock ?k (body ?fd) s2 = (Inr f, st')"
    using r3 unfolding step_def s3 now2 .
  from r3' obtain s4 where op: "body ?fd ?sL = (Inr f, s4)"
    and st': "st' = s4\<lparr>files := AList.delete (lockArtifact s2 ?k) (files s4)\<rparr>"
    by (rule withLock_InrE)
  have stL: "static ?sL = static st" using st2 by simp
  have wL: "workingDir ?sL = workingDir st" using w2 by simp
  let ?P = "path_join (workingDir st) (sanitizeProjectName p)"
  let ?FP = "findingPathOf ?P (f_id ?fd)"
  from op[unfolded body_def] obtain P s5 where gpp: "getProjectPath p ?sL = (Inr P, s5)"
    and r4: "bind (mustNotExist (findingPathOf P (f_id ?fd))
                     (''Finding with ID '' @ [CHR 0x27] @ f_id ?fd @ [CHR 0x27]
                      @ '' already exists''))
             (\<lambda>_. writeFinding ''create'' p (findingPathOf P (f_id ?fd)) ?fd) s5 = (Inr f, s4)"
    by (rule bind_InrE)
  have P: "P = ?P" and s5: "s5 = ?sL" using getProjectPath_result[OF gpp] wL by simp_all
  from r4 obtain u2 s6 where mne: "mustNotExist ?FP
                     (''Finding with ID '' @ [CHR 0x27] @ f_id ?fd @ [CHR 0x27]
                      @ '' already exists'') s5 = (Inr u2, s6)"
    and wf: "writeFinding ''create'' p ?FP ?fd s6 = (Inr f, s4)"
    unfolding P by (rule bind_InrE)
  from keepsD[OF keeps_mustNotExist mne, of "{}"] have "static s6 = static s5" by (rule conjunct1)
  then have st6: "static s6 = static st" using s5 stL by simp
  have w6: "workingDir s6 = workingDir st" by (rule static_workingDir[OF st6])
  have now6: "now s6 = now st" by (rule static_fields(3)[OF st6])
  have ip6: "projectIndexPath s6 = projectIndexPath st" by (rule static_projectIndexPath[OF st6])
  have FP6: "?FP = findingPathOf (path_join (workingDir s6) (sanitizeProjectName p)) (f_id ?fd)"
    using w6 by simp
  note facts = writeFinding_Inr[OF wf FP6]
  have f: "f = ?fd" by (rule facts(1))
  have "fst (cvssStep (cvssString input) s2) = Inr score" using cv by simp
  then have "fst (cvssStep (cvssString input) st) = Inr score"
    using cvssStep_static[OF st2, of "cvssString input"] by simp
  then show "\<exists>score. fst (cvssStep (cvssString input) st) = Inr score
           \<and> f = newFinding input rid (now st) score"
    using f by blast
  have L: "lockArtifact s2 ?k = workingDir st @ ''/.'' @ (''mcp-lock-'' @ ?k @ ''.lock'')"
    using w2 by (simp add: lockArtifact_eq)
  have neF: "?FP \<noteq> lockArtifact s2 ?k"
    unfolding L using findingPath_not_dotfile[of "workingDir st" p "f_id ?fd" "[]"] by simp
  have neI: "projectIndexPath st \<noteq> lockArtifact s2 ?k"
    unfolding L by (simp add: projectIndexPath_eq)
  have "map_of (files st') ?FP = Some (File (findingFile ?fd) (now st))"
    using facts(2) neF now6 unfolding st' by (simp add: map_of_delete)
  then show "map_of (files st')
       (findingPathOf (path_join (workingDir st) (sanitizeProjectName p)) (f_id f))
           = Some (File (findingFile f) (now st))"
    unfolding f .
  show "projectIndexCache st' = None" using facts(3) unfolding st' by simp
  from facts(4) obtain idx t md where
    i: "map_of (files s4) (projectIndexPath s6) = Some (File (IndexJson idx) t)"
    and pj: "map_of (projects idx) (sanitizeProjectName p) = Some md"
    by (elim exE conjE)
  have "map_of (files st') (projectIndexPath st) = Some (File (IndexJson idx) t)"
    using i neI unfolding st' ip6 by (simp add: map_of_delete)
  then show "\<exists>idx t md. map_of (files st') (projectIndexPath st) = Some (File (IndexJson idx) t)
           \<and> map_of (projects idx) (sanitizeProjectName p) = Some md"
    using pj by blast
  show "static st' = static st" using facts(5) st6 unfolding st' by simp
qed

subsection \<open>Reading a finding back\<close>

lemma readFile_ok:
  "\<not> faults st OpReadFile q \<Longrightarrow> map_of (files st) q = Some (File c t) \<Longrightarrow>
     fs_readFile q st = (Inr c, st)"
  by (simp add: fs_readFile_def)

lemma readProjectIndex_from_file:
  assumes "projectIndexCache st = None"
    and "\<not> faults st OpReadFile (projectIndexPath st)"
    and "map_of (files st) (projectIndexPath st) = Some (File (IndexJson idx) t)"
  shows "readProjectIndex st = (Inr idx, st\<lparr>projectIndexCache := Some idx\<rparr>)"
  unfolding readProjectIndex_def using assms(1) readFile_ok[OF assms(2,3)] by simp

lemma getProject_from_file:
  assumes "projectIndexCache st = None"
    and "\<not> faults st OpReadFile (projectIndexPath st)"
    and "map_of (files st) (projectIndexPath st) = Some (File (IndexJson idx) t)"
    and "map_of (projects idx) (sanitizeProjectName p) = Some md"
  shows "getProject p st = (Inr md, st\<lparr>projectIndexCache := Some idx\<rparr>)"
  unfolding getProject_def bind_ok[of readProjectIndex st, OF readProjectIndex_from_file[OF assms(1-3)]]
  using assms(4) by (simp add: return_def)

text \<open>What \<open>getFinding\<close> returns for a finding whose file can be read.\<close>

lemma getFinding_of_file:
  assumes gp: "getProject p st = (Inr md, s1)"
    and w: "workingDir s1 = workingDir st"
    and nf: "\<not> faults s1 OpReadFile (findingPathOf (path_join (workingDir st) (sanitizeProjectName p)) fid)"
    and fl0: "map_of (files s1) (findingPathOf (path_join (workingDir st) (sanitizeProjectName p)) fid)
         = Some (File (FindingMd fm body) t)"
    and len: "yamlLength s1 fm \<le> yamlSizeLimit s1"
  shows "getFinding p fid st = (Inr (findingOfFile fm body), s1)"
proof -
  let ?FP = "findingPathOf (path_join (workingDir st) (sanitizeProjectName p)) fid"
  have gpp: "getProjectPath p s1 = (Inr (path_join (workingDir st) (sanitizeProjectName p)), s1)"
    using getProjectPath_ok[of p s1] w by simp
  have rd: "fs_readFile ?FP s1 = (Inr (FindingMd fm body), s1)"
    by (rule readFile_ok[OF nf fl0])
  have pf: "parseFindingFile (FindingMd fm body) s1 = (Inr (fm, body), s1)"
    using len by (simp add: parseFindingFile_def)
  have inner: "bind (fs_readFile ?FP)
          (\<lambda>c. bind (parseFindingFile c)
          (\<lambda>parsed. return (findingOfFile (fst parsed) (snd parsed)))) s1
        = (Inr (findingOfFile fm body), s1)"
    unfolding bind_ok[of "fs_readFile ?FP" s1, OF rd]
      bind_ok[of "parseFindingFile (FindingMd fm body)" s1, OF pf] by (simp add: return_def)
  show ?thesis
    unfolding getFinding_def bind_ok[of "getProject p" st, OF gp]
      bind_ok[of "getProjectPath p" s1, OF gpp] by (simp add: catch_def inner)
qed

text \<open>Reading a finding right after its creation gives what \<open>extractSection\<close> finds in
  the text that was written.\<close>

lemma getFinding_after_createFinding:
  assumes cf: "createFinding p input rid st = (Inr f, st')"
    and fi: "\<not> faults st OpReadFile (projectIndexPath st)"
    and ff: "\<not> faults st OpReadFile
               (findingPathOf (path_join (workingDir st) (sanitizeProjectName p)) (f_id f))"
    and len: "yamlLength st (frontmatterOf f) \<le> yamlSizeLimit st"
  shows "fst (getFinding p (f_id f) st')
    = Inr (findingOfFile (frontmatterOf f)
        (withFinalNewline (findingBody (description f) (evidence f) (recommendations f))))"
proof -
  note facts = createFinding_Inr[OF cf]
  from facts(4) obtain idx t md where
    i: "map_of (files st') (projectIndexPath st) = Some (File (IndexJson idx) t)"
    and pj: "map_of (projects idx) (sanitizeProjectName p) = Some md"
    by (elim exE conjE)
  have st: "static st' = static st" by (rule facts(5))
  have w: "workingDir st' = workingDir st" by (rule static_workingDir[OF st])
  have ip: "projectIndexPath st' = projectIndexPath st" by (rule static_projectIndexPath[OF st])
  have fl: "faults st' = faults st" by (rule static_fields(2)[OF st])
  have yl: "yamlLength st' = yamlLength st" by (rule static_fields(8)[OF st])
  have ys: "yamlSizeLimit st' = yamlSizeLimit st" by (rule static_fields(7)[OF st])
  let ?s1 = "st'\<lparr>projectIndexCache := Some idx\<rparr>"
  have gp: "getProject p st' = (Inr md, ?s1)"
    by (rule getProject_from_file[OF facts(3) _ _ pj]) (use fi i in \<open>simp_all add: ip fl\<close>)
  have "getFinding p (f_id f) st' = (Inr (findingOfFile (frontmatterOf f)
        (withFinalNewline (findingBody (description f) (evidence f) (recommendations f)))), ?s1)"
  proof (rule getFinding_of_file[OF gp])
    show "workingDir ?s1 = workingDir st'" by simp
    show "\<not> faults ?s1 OpReadFile
        (findingPathOf (path_join (workingDir st') (sanitizeProjectName p)) (f_id f))"
      using ff by (simp add: fl w)
    show "map_of (files ?s1)
        (findingPathOf (path_join (workingDir st') (sanitizeProjectName p)) (f_id f))
        = Some (File (FindingMd (frontmatterOf f)
            (withFinalNewline (findingBody (description f) (evidence f) (recommendations f))))
            (now st))"
      using facts(2) by (simp add: w findingFile_def)
    show "yamlLength ?s1 (frontmatterOf f) \<le> yamlSizeLimit ?s1"
      using len by (simp add: yl ys)
  qed
  then show ?thesis by simp
qed

lemma findingOfFile_frontmatterOf:
  "findingOfFile (frontmatterOf f) body =
     f\<lparr>description := (case extractSection ''Description'' body of None \<Rightarrow> [] | Some d \<Rightarrow> d),
        evidence := extractSection ''Evidence'' body,
        recommendations := extractSection ''Recommendations'' body\<rparr>"
  by (cases f) (simp add: findingOfFile_def frontmatterOf_def)

lemma sqlInjection_id:
  "sanitizeFindingId ''SQL injection'' ''a1b2c3d4'' = ''FIND-a1b2c3d4-sql-injection''"
  by code_simp

lemma createFinding_projectStore:
  assumes "title input = ''SQL injection''" and "\<not> truthy (cvssString input)"
  shows "fst (createFinding ''pen-test-1'' input ''a1b2c3d4'' projectStore)
    = Inr (newFinding input ''a1b2c3d4'' 1000 None)"
  using assms
  by (simp add: createFinding_def writeFinding_def newFinding_def cvssStep_def
      mustNotExist_def invalidateFindingsCache_def findingPathOf_def sqlInjection_id noUpdates_def
      project_defs index_defs fs_defs monad_defs example_defs projectStore_def
      penTestMetadata_def sanitize_penTest Let_def sublist_Cons_right)

lemma projectStore_reads:
  "\<not> faults projectStore OpReadFile q" "yamlLength projectStore fm \<le> yamlSizeLimit projectStore"
  by (simp_all add: projectStore_def lockedState_def)

lemma hash_in_marker: "sublist ''## '' s \<Longrightarrow> CHR ''#'' \<in> set s"
  by (auto simp: sublist_def)



text \<open>A description with a heading of its own comes back cut at that heading.\<close>

lemma subheading_body:
  "extractSection ''Description''
     (withFinalNewline (findingBody (''Overview'' @ [CHR 0x0A] @ ''## Details'' @ [CHR 0x0A] @ ''More'')
        None None)) = Some ''Overview''"
  "extractSection ''Evidence''
     (withFinalNewline (findingBody (''Overview'' @ [CHR 0x0A] @ ''## Details'' @ [CHR 0x0A] @ ''More'')
        None None)) = None"
  "extractSection ''Recommendations''
     (withFinalNewline (findingBody (''Overview'' @ [CHR 0x0A] @ ''## Details'' @ [CHR 0x0A] @ ''More'')
        None None)) = None"
  by code_simp+


subsection \<open>A rejected CVSS vector\<close>

lemma readProjectIndex_Inr_cached:
  "readProjectIndex st = (Inr idx, s1) \<Longrightarrow> projectIndexCache s1 = Some idx"
  by (auto simp: readProjectIndex_def fs_readFile_def bind_def
      split: option.splits if_splits node.splits sum.splits prod.splits content.splits)

lemma readProjectIndex_Inl_state:
  "readProjectIndex st = (Inl e, s1) \<Longrightarrow> s1 = st"
  by (auto simp: readProjectIndex_def fs_readFile_def bind_def
      split: option.splits if_splits node.splits sum.splits prod.splits content.splits
      dest!: checkForCorruptedDirectory_state)

text \<open>Reading the index a second time gives the same outcome and changes nothing.\<close>

lemma readProjectIndex_idem:
  assumes "readProjectIndex st = (r, s1)"
  shows "readProjectIndex s1 = (r, s1)"
proof (cases r)
  case (Inl e)
  then show ?thesis using assms readProjectIndex_Inl_state[of st e s1] by simp
next
  case (Inr idx)
  then have "projectIndexCache s1 = Some idx" using assms readProjectIndex_Inr_cached by simp
  then show ?thesis using Inr by (simp add: readProjectIndex_def)
qed

lemma getProject_idem:
  assumes "getProject p st = (r, s1)"
  shows "getProject p s1 = (r, s1)"
proof -
  obtain r0 s0 where rd: "readProjectIndex st = (r0, s0)" by (cases "readProjectIndex st")
  have rd2: "readProjectIndex s0 = (r0, s0)" by (rule readProjectIndex_idem[OF rd])
  have s: "s1 = s0" using assms rd
    by (auto simp: getProject_def bind_def throw_def return_def split: sum.splits option.splits)
  have "getProject p s0 = getProject p st"
    using rd rd2 s assms
    by (auto simp: getProject_def bind_def throw_def return_def split: sum.splits option.splits)
  then show ?thesis using assms s by simp
qed

lemma getProject_files:
  "getProject p st = (r, s1) \<Longrightarrow> files s1 = files st \<and> static s1 = static st"
  by (auto simp: getProject_def bind_def throw_def return_def
      split: sum.splits option.splits prod.splits dest: readProjectIndex_files)

lemma listFindings_after_getProject:
  assumes "getProject p st = (r, s1)"
  shows "listFindings p l off s1 = listFindings p l off st"
  unfolding listFindings_def bind_def getProject_idem[OF assms] assms by (rule refl)

text \<open>The outcome of \<open>createFinding\<close> for a vector that the evaluator rejects.\<close>

lemma createFinding_rejected_vector:
  assumes t: "truthy (cvssString input)"
    and bad: "calculateCVSSScore st (the (cvssString input)) = Inl ce"
  shows "createFinding p input rid st =
    (Inl (case fst (getProject p st) of
            Inl e \<Rightarrow> e
          | Inr md \<Rightarrow> if pm_status md = Completed
                      then ProjectCompletedError p ''create finding''
                      else Error (''Invalid CVSS string: '' @ message ce)),
     snd (getProject p st))"
proof -
  obtain r s1 where gp: "getProject p st = (r, s1)" by (cases "getProject p st")
  have gp1: "getProject p s1 = (r, s1)" by (rule getProject_idem[OF gp])
  have st1: "static s1 = static st" using getProject_files[OF gp] by simp
  show ?thesis
  proof (cases r)
    case (Inl e)
    then show ?thesis using gp by (simp add: createFinding_def bind_def)
  next
    case (Inr md)
    have ck: "checkProjectNotCompleted p ''create finding'' s1
        = (if pm_status md = Completed
           then (Inl (ProjectCompletedError p ''create finding''), s1) else (Inr (), s1))"
      using gp1 Inr by (simp add: checkProjectNotCompleted_def bind_def throw_def return_def)
    have "calculateCVSSScore s1 (the (cvssString input)) = Inl ce"
      using bad calculateCVSSScore_static[OF st1] by simp
    then have cv: "cvssStep (cvssString input) s1
        = (Inl (Error (''Invalid CVSS string: '' @ message ce)), s1)"
      using t by (simp add: cvssStep_def)
    show ?thesis
      using gp Inr ck cv by (simp add: createFinding_def bind_def)
  qed
qed

lemma createFinding_scoredStore:
  "fst (createFinding ''pen-test-1'' scoredInput ''a1b2c3d4'' scoredStore)
    = Inr (newFinding scoredInput ''a1b2c3d4'' 1000 (Some (49 / 5)))"
  by (simp add: createFinding_def writeFinding_def newFinding_def cvssStep_def truthy_def
      calculateCVSSScore_def cvssVersion_def trim_def isSpace_def
      mustNotExist_def invalidateFindingsCache_def findingPathOf_def sqlInjection_id noUpdates_def
      project_defs index_defs fs_defs monad_defs example_defs projectStore_def scoredStore_def
      scoredInput_def sqlInjection_def
      penTestMetadata_def sanitize_penTest Let_def sublist_Cons_right)

lemma brokenVector_rejected:
  "calculateCVSSScore scoredStore ''not-a-vector'' = Inl (CVSSError ''Invalid CVSS vector format'')"
  by (simp add: calculateCVSSScore_def cvssVersion_def trim_def isSpace_def)

lemma getProject_scoredStore:
  "fst (getProject ''pen-test-1'' scoredStore) = Inr penTestMetadata"
  by (simp add: getProject_def readProjectIndex_def fs_readFile_def bind_def return_def
      projectIndexPath_def path_join_def scoredStore_def projectStore_def lockedState_def
      sanitize_penTest)




subsection \<open>What the listing returns\<close>

lemma cachedData_delete: "cachedData (lru_delete c k) \<subseteq> cachedData c"
  by (auto simp: cachedData_def lru_delete_def delete_filter)

lemma cachedData_get: "cachedData (snd (lru_get c k t)) \<subseteq> cachedData c"
proof (cases "map_of (cache c) k")
  case None
  then show ?thesis by (simp add: lru_get_def)
next
  case (Some e)
  then have "(k, e) \<in> set (cache c)" by (rule map_of_SomeD)
  then have "ce_data e \<in> cachedData c" by (force simp: cachedData_def)
  then show ?thesis using Some by (auto simp: cachedData_def lru_get_def delete_filter)
qed

lemma cachedData_get_result:
  "fst (lru_get c k t) = Some e \<Longrightarrow> ce_data e \<in> cachedData c"
proof (cases "map_of (cache c) k")
  case None
  assume "fst (lru_get c k t) = Some e"
  then show ?thesis using None by (simp add: lru_get_def)
next
  case (Some e0)
  assume "fst (lru_get c k t) = Some e"
  then have e: "e = e0\<lparr>ce_lastAccessed := t\<rparr>" using Some by (simp add: lru_get_def)
  have "(k, e0) \<in> set (cache c)" using Some by (rule map_of_SomeD)
  then have "ce_data e0 \<in> cachedData c" by (force simp: cachedData_def)
  then show ?thesis using e by simp
qed

lemma cachedData_evict: "cachedData (evictIfNeeded c) \<subseteq> cachedData c"
  using evictIfNeeded_cases[of c] by (auto simp: cachedData_def delete_filter)

lemma cachedData_set: "cachedData (lru_set c k d lm t) \<subseteq> insert d (cachedData c)"
proof -
  let ?c = "c\<lparr>cache := AList.delete k (cache c)
      @ [(k, \<lparr>ce_data = d, ce_lastModified = lm, ce_lastAccessed = t\<rparr>)]\<rparr>"
  have "cachedData ?c \<subseteq> insert d (cachedData c)"
    by (auto simp: cachedData_def delete_filter)
  then show ?thesis using cachedData_evict[of ?c] by (auto simp: lru_set_def)
qed

lemma set_sortByUpdatedDesc: "set (sortByUpdatedDesc fs) = set fs"
  by (simp add: sortByUpdatedDesc_def)

lemma readListed_summaries: "f \<in> set (readListed st dir page) \<Longrightarrow> summaryOnly f"
  by (auto simp: readListed_def summaryOnly_def listedFinding_def split: prod.splits sum.splits)

lemma readdir_state: "fs_readdir q st = (r, st') \<Longrightarrow> st' = st"
  by (auto simp: fs_readdir_def split: if_splits option.splits node.splits)

lemma readProjectIndex_findingsCache:
  "readProjectIndex st = (r, st') \<Longrightarrow> findingsCache st' = findingsCache st"
  by (auto simp: readProjectIndex_def fs_readFile_def bind_def
      split: option.splits if_splits node.splits sum.splits prod.splits content.splits
      dest!: checkForCorruptedDirectory_state)

lemma getProject_findingsCache:
  "getProject p st = (r, st') \<Longrightarrow> findingsCache st' = findingsCache st"
  by (auto simp: getProject_def bind_def throw_def return_def
      split: sum.splits option.splits prod.splits dest: readProjectIndex_findingsCache)

lemma getProjectPath_state: "getProjectPath p st = (r, st') \<Longrightarrow> st' = st"
  by (auto simp: getProjectPath_def Let_def split: if_splits)

lemma listFindings_prelude_cache:
  assumes "bind (getProject p) (\<lambda>_. getProjectPath p) st = (r, st1)"
  shows "findingsCache st1 = findingsCache st"
proof -
  obtain r0 s0 where gp: "getProject p st = (r0, s0)" by (cases "getProject p st")
  have c0: "findingsCache s0 = findingsCache st" by (rule getProject_findingsCache[OF gp])
  show ?thesis
  proof (cases r0)
    case (Inl e)
    then show ?thesis using assms gp c0 by (simp add: bind_def)
  next
    case (Inr md)
    then have "getProjectPath p s0 = (r, st1)" using assms gp by (simp add: bind_def)
    then show ?thesis using getProjectPath_state c0 by blast
  qed
qed

text \<open>What \<open>listFindings\<close> returns and what it leaves in the cache.\<close>

lemma listFindings_summaries:
  assumes lf: "listFindings p l off st = Some (Inr fs, st')" and inv: "cacheHoldsSummaries st"
  shows "(\<forall>f \<in> set fs. summaryOnly f) \<and> cacheHoldsSummaries st'"
proof -
  obtain r st1 where pre: "bind (getProject p) (\<lambda>_. getProjectPath p) st = (r, st1)"
    by (cases "bind (getProject p) (\<lambda>_. getProjectPath p) st")
  have c1: "findingsCache st1 = findingsCache st" by (rule listFindings_prelude_cache[OF pre])
  show ?thesis
  proof (cases r)
    case (Inl e)
    then show ?thesis using lf pre by (simp add: listFindings_def)
  next
    case (Inr P)
    let ?dir = "path_join P ''findings''"
    let ?key = "p @ ''-findings''"
    let ?g = "lru_get (findingsCache st1) ?key (now st1)"
    let ?st2 = "st1\<lparr>findingsCache := snd ?g\<rparr>"
    have inv2: "cacheHoldsSummaries ?st2"
      using inv c1 cachedData_get[of "findingsCache st1" ?key "now st1"]
      by (auto simp: cacheHoldsSummaries_def)
    have unf: "listFindings p l off st =
        (if fst ?g \<noteq> None
            \<and> getDirectoryLastModified ?dir st1 \<le> ce_lastModified (the (fst ?g))
         then Some (Inr (take l (drop off (ce_data (the (fst ?g))))), ?st2)
         else (case fs_readdir ?dir ?st2 of
                      (Inl e, st3) \<Rightarrow>
                        (if isENOENT e
                         then Some (Inr [],
                                st3\<lparr>findingsCache :=
                                  lru_set (findingsCache st3) ?key [] (now st3) (now st3)\<rparr>)
                         else Some (Inl (Error (''Failed to list findings: '' @ message e)), st3))
                    | (Inr entries, st3) \<Rightarrow>
                        (case selectPage st3 ?dir
                                (map fst (filter isMarkdownFile entries)) l off of
                           None \<Rightarrow> None
                         | Some page \<Rightarrow>
                             Some (Inr (sortByUpdatedDesc (readListed st3 ?dir page)),
                                   st3))))"
      using pre Inr by (simp add: listFindings_def Let_def)
    show ?thesis
    proof (cases "fst ?g \<noteq> None
        \<and> getDirectoryLastModified ?dir st1 \<le> ce_lastModified (the (fst ?g))")
      case True
      then obtain e where e: "fst ?g = Some e" by auto
      have "Some (Inr (take l (drop off (ce_data (the (fst ?g))))), ?st2)
          = Some (Inr fs :: error + Finding list, st')"
        using lf unfolding unf if_P[OF True] .
      then have res: "fs = take l (drop off (ce_data e))" "st' = ?st2"
        using e by simp_all
      have "ce_data e \<in> cachedData (findingsCache st)"
        using cachedData_get_result[OF e] c1 by simp
      then have "\<forall>f \<in> set (ce_data e). summaryOnly f"
        using inv by (simp add: cacheHoldsSummaries_def)
      then have "\<forall>f \<in> set fs. summaryOnly f"
        unfolding res(1) by (meson in_set_dropD in_set_takeD)
      then show ?thesis using inv2 res(2) by simp
    next
      case False
      obtain rd st3 where rd: "fs_readdir ?dir ?st2 = (rd, st3)" by (cases "fs_readdir ?dir ?st2")
      have st3: "st3 = ?st2" by (rule readdir_state[OF rd])
      have step: "(case (rd, st3) of
                      (Inl e, st3) \<Rightarrow>
                        (if isENOENT e
                         then Some (Inr [],
                                st3\<lparr>findingsCache :=
                                  lru_set (findingsCache st3) ?key [] (now st3) (now st3)\<rparr>)
                         else Some (Inl (Error (''Failed to list findings: '' @ message e)), st3))
                    | (Inr entries, st3) \<Rightarrow>
                        (case selectPage st3 ?dir
                                (map fst (filter isMarkdownFile entries)) l off of
                           None \<Rightarrow> None
                         | Some page \<Rightarrow>
                             Some (Inr (sortByUpdatedDesc (readListed st3 ?dir page)),
                                   st3))) = Some (Inr fs, st')"
        using lf unfolding unf if_not_P[OF False] rd .
      show ?thesis
      proof (cases rd)
        case (Inl e)
        then have step1: "(if isENOENT e
                         then Some (Inr [],
                                st3\<lparr>findingsCache :=
                                  lru_set (findingsCache st3) ?key [] (now st3) (now st3)\<rparr>)
                         else Some (Inl (Error (''Failed to list findings: '' @ message e)), st3))
            = Some (Inr fs, st')"
          using step by (simp only: prod.case sum.case)
        have res: "fs = []" "st' = st3\<lparr>findingsCache :=
                                  lru_set (findingsCache st3) ?key [] (now st3) (now st3)\<rparr>"
          using step1 by (cases "isENOENT e"; simp)+
        have "cacheHoldsSummaries st'"
          unfolding res(2) using inv2 st3
            cachedData_set[of "findingsCache st3" ?key "[]" "now st3" "now st3"]
          by (auto simp: cacheHoldsSummaries_def)
        then show ?thesis using res(1) by simp
      next
        case (Inr entries)
        then have step2: "(case selectPage st3 ?dir (map fst (filter isMarkdownFile entries)) l off of
              None \<Rightarrow> None
            | Some page \<Rightarrow> Some (Inr (sortByUpdatedDesc (readListed st3 ?dir page)), st3))
            = Some (Inr fs :: error + Finding list, st')"
          using step by (simp only: prod.case sum.case)
        obtain page where res: "fs = sortByUpdatedDesc (readListed st3 ?dir page)" "st' = st3"
        proof (cases "selectPage st3 ?dir (map fst (filter isMarkdownFile entries)) l off")
          case None
          then show ?thesis using step2 by (simp only: option.case) simp
        next
          case (Some page)
          then have "Some (Inr (sortByUpdatedDesc (readListed st3 ?dir page)), st3)
              = Some (Inr fs :: error + Finding list, st')"
            using step2 by (simp only: option.case)
          then have "fs = sortByUpdatedDesc (readListed st3 ?dir page)" "st' = st3" by auto
          then show ?thesis by (rule that)
        qed
        have "\<forall>f \<in> set fs. summaryOnly f"
          unfolding res(1) set_sortByUpdatedDesc using readListed_summaries by blast
        then show ?thesis using inv2 st3 res(2) by simp
      qed
    qed
  qed
qed

lemma cacheShrinksI:
  "(\<And>st r st'. m st = (r, st')
      \<Longrightarrow> cachedData (findingsCache st') \<subseteq> cachedData (findingsCache st))
   \<Longrightarrow> cacheShrinks m"
  unfolding cacheShrinks_def by blast

lemma cacheShrinksD:
  "cacheShrinks m \<Longrightarrow> m st = (r, st')
     \<Longrightarrow> cachedData (findingsCache st') \<subseteq> cachedData (findingsCache st)"
  unfolding cacheShrinks_def by blast

lemma cacheShrinks_return: "cacheShrinks (return x)"
  by (simp add: cacheShrinks_def return_def)

lemma cacheShrinks_throw: "cacheShrinks (throw e)"
  by (simp add: cacheShrinks_def throw_def)

lemma cacheShrinks_bind:
  assumes "cacheShrinks m" and "\<And>x. cacheShrinks (f x)"
  shows "cacheShrinks (bind m f)"
proof (rule cacheShrinksI)
  fix st r st'
  assume b: "bind m f st = (r, st')"
  obtain r1 st1 where m: "m st = (r1, st1)" by (cases "m st")
  note k1 = cacheShrinksD[OF assms(1) m]
  show "cachedData (findingsCache st') \<subseteq> cachedData (findingsCache st)"
  proof (cases r1)
    case (Inl e)
    then show ?thesis using b m k1 by (simp add: bind_def)
  next
    case (Inr x)
    then have "f x st1 = (r, st')" using b m by (simp add: bind_def)
    from cacheShrinksD[OF assms(2) this] k1 show ?thesis by blast
  qed
qed

lemma cacheShrinks_catch:
  assumes "cacheShrinks m" and "\<And>e. cacheShrinks (h e)"
  shows "cacheShrinks (catch m h)"
proof (rule cacheShrinksI)
  fix st r st'
  assume b: "catch m h st = (r, st')"
  obtain r1 st1 where m: "m st = (r1, st1)" by (cases "m st")
  note k1 = cacheShrinksD[OF assms(1) m]
  show "cachedData (findingsCache st') \<subseteq> cachedData (findingsCache st)"
  proof (cases r1)
    case (Inr x)
    then show ?thesis using b m k1 by (simp add: catch_def)
  next
    case (Inl e)
    then have "h e st1 = (r, st')" using b m by (simp add: catch_def)
    from cacheShrinksD[OF assms(2) this] k1 show ?thesis by blast
  qed
qed

lemma cacheShrinks_ignoreErrors:
  assumes "cacheShrinks m"
  shows "cacheShrinks (ignoreErrors m)"
proof (rule cacheShrinksI)
  fix st r st'
  assume b: "ignoreErrors m st = (r, st')"
  obtain r1 st1 where m: "m st = (r1, st1)" by (cases "m st")
  from cacheShrinksD[OF assms m] b m
  show "cachedData (findingsCache st') \<subseteq> cachedData (findingsCache st)"
    by (simp add: ignoreErrors_def)
qed

lemma cacheShrinks_if:
  "cacheShrinks a \<Longrightarrow> cacheShrinks b \<Longrightarrow> cacheShrinks (if c then a else b)"
  by simp

lemma cacheShrinks_index_cache: "cacheShrinks (\<lambda>s. (r, s\<lparr>projectIndexCache := c s\<rparr>))"
  by (simp add: cacheShrinks_def)

lemma cacheShrinks_with_cache:
  assumes "cacheShrinks m"
  shows "cacheShrinks (\<lambda>s. m (s\<lparr>projectIndexCache := c s\<rparr>))"
proof (rule cacheShrinksI)
  fix st r st'
  assume "m (st\<lparr>projectIndexCache := c st\<rparr>) = (r, st')"
  from cacheShrinksD[OF assms this]
  show "cachedData (findingsCache st') \<subseteq> cachedData (findingsCache st)" by simp
qed

lemma cacheShrinks_fs:
  "cacheShrinks (fs_access q)" "cacheShrinks (fs_writeFile q c)" "cacheShrinks (fs_rename q q')"
  "cacheShrinks (fs_unlink q)" "cacheShrinks (fs_readFile q)" "cacheShrinks (fs_readdir q)"
  "cacheShrinks (fs_stat q)"
  by (auto simp: cacheShrinks_def fs_access_def fs_writeFile_def fs_rename_def fs_unlink_def
      fs_readFile_def fs_readdir_def fs_stat_def split: if_splits option.splits node.splits)

lemma cacheShrinks_readProjectIndex: "cacheShrinks readProjectIndex"
  by (rule cacheShrinksI) (simp add: readProjectIndex_findingsCache)

lemma cacheShrinks_getProject: "cacheShrinks (getProject p)"
  by (rule cacheShrinksI) (simp add: getProject_findingsCache)

lemma cacheShrinks_checkProjectNotCompleted: "cacheShrinks (checkProjectNotCompleted p operation)"
  unfolding checkProjectNotCompleted_def
  by (intro cacheShrinks_bind cacheShrinks_getProject cacheShrinks_if cacheShrinks_throw
      cacheShrinks_return)

lemma cacheShrinks_getProjectPath: "cacheShrinks (getProjectPath p)"
  by (rule cacheShrinksI) (auto dest: getProjectPath_state)

lemma cacheShrinks_writeProjectIndex: "cacheShrinks (writeProjectIndex index)"
proof (rule cacheShrinksI)
  fix st r st'
  assume wr: "writeProjectIndex index st = (r, st')"
  let ?I = "projectIndexPath st"
  let ?m = "catch
       (bind (fs_writeFile (?I @ ''.tmp'') (IndexJson index))
          (\<lambda>_. bind (fs_rename (?I @ ''.tmp'') ?I)
          (\<lambda>_ s. (Inr (), s\<lparr>projectIndexCache := None\<rparr>))))
       (\<lambda>e. bind (ignoreErrors (fs_unlink (?I @ ''.tmp'')))
          (\<lambda>_. throw (Error (''Failed to write project index: '' @ message e))))"
  have "cacheShrinks ?m"
    by (intro cacheShrinks_catch cacheShrinks_bind cacheShrinks_fs cacheShrinks_ignoreErrors
        cacheShrinks_throw cacheShrinks_index_cache)
  moreover have "?m st = (r, st')" using wr unfolding writeProjectIndex_def .
  ultimately show "cachedData (findingsCache st') \<subseteq> cachedData (findingsCache st)"
    by (rule cacheShrinksD)
qed

lemma cacheShrinks_withLock:
  assumes "cacheShrinks op"
  shows "cacheShrinks (withLock k op)"
proof (rule cacheShrinksI)
  fix st r st'
  assume wl: "withLock k op st = (r, st')"
  let ?L = "lockArtifact st k"
  show "cachedData (findingsCache st') \<subseteq> cachedData (findingsCache st)"
  proof (cases "lockBusy st k")
    case True
    then show ?thesis using wl by (simp add: withLock_def)
  next
    case False
    let ?sL = "st\<lparr>files := AList.update ?L (Dir (now st)) (files st)\<rparr>"
    let ?c = "catch op (\<lambda>e. if sublist ''already being held'' (message e)
                        then throw (lockTimeout k) else throw e)"
    obtain r2 s2 where c: "?c ?sL = (r2, s2)" by (cases "?c ?sL")
    have kc: "cacheShrinks ?c"
      using assms by (intro cacheShrinks_catch cacheShrinks_if cacheShrinks_throw)
    note k2 = cacheShrinksD[OF kc c]
    have "st' = s2\<lparr>files := AList.delete ?L (files s2)\<rparr>"
      using wl False c by (simp add: withLock_def)
    then show ?thesis using k2 by simp
  qed
qed

lemma cacheShrinks_writeProjectFile: "cacheShrinks (writeProjectFile P md)"
  unfolding writeProjectFile_def by (intro cacheShrinks_bind cacheShrinks_fs)

lemma cacheShrinks_updateProject: "cacheShrinks (updateProject p updates)"
proof -
  have inner: "cacheShrinks (\<lambda>s'. bind (writeProjectIndex idx) (\<lambda>_. return v)
           (s'\<lparr>projectIndexCache := Some idx\<rparr>))" for idx v
    by (rule cacheShrinks_with_cache[of "bind (writeProjectIndex idx) (\<lambda>_. return v)" "\<lambda>_. Some idx"])
       (intro cacheShrinks_bind cacheShrinks_writeProjectIndex cacheShrinks_return)
  have path: "cacheShrinks (bind (getProjectPath p)
       (\<lambda>projectPath. catch
        (bind (writeProjectFile projectPath v)
           (\<lambda>_. bind readProjectIndex
           (\<lambda>index s.
              let index' = index\<lparr>projects :=
                    AList.update (sanitizeProjectName p) v (projects index)\<rparr>
              in bind (writeProjectIndex index') (\<lambda>_. return v)
                   (s\<lparr>projectIndexCache := Some index'\<rparr>))))
        (\<lambda>e. bind (ignoreErrors (fs_unlink (path_join projectPath ''project.json'' @ ''.tmp'')))
           (\<lambda>_. throw (Error (''Failed to update project: '' @ message e))))))" for v
    unfolding Let_def
    apply (rule cacheShrinks_bind)
     apply (rule cacheShrinks_getProjectPath)
    apply (rule cacheShrinks_catch)
     apply (rule cacheShrinks_bind)
      apply (rule cacheShrinks_writeProjectFile)
     apply (rule cacheShrinks_bind)
      apply (rule cacheShrinks_readProjectIndex)
     apply (rule inner)
    apply (rule cacheShrinks_bind)
     apply (rule cacheShrinks_ignoreErrors)
     apply (rule cacheShrinks_fs)
    apply (rule cacheShrinks_throw)
    done
  show ?thesis
    unfolding updateProject_def
  proof (rule cacheShrinks_withLock, rule cacheShrinks_bind, rule cacheShrinks_getProject,
      rule cacheShrinksI)
    fix metadata st r st'
    assume run: "(if pm_status metadata = Completed
             then (Inl (ProjectCompletedError p ''update''), st)
             else bind (getProjectPath p)
               (\<lambda>projectPath.
                  catch
                    (bind (writeProjectFile projectPath (applyUpdates metadata updates (now st)))
                       (\<lambda>_. bind readProjectIndex
                       (\<lambda>index s.
                          let index' = index\<lparr>projects :=
                                AList.update (sanitizeProjectName p)
                                  (applyUpdates metadata updates (now st)) (projects index)\<rparr>
                          in bind (writeProjectIndex index')
                               (\<lambda>_. return (applyUpdates metadata updates (now st)))
                               (s\<lparr>projectIndexCache := Some index'\<rparr>))))
                    (\<lambda>e. bind (ignoreErrors
                                 (fs_unlink (path_join projectPath ''project.json'' @ ''.tmp'')))
                       (\<lambda>_. throw (Error (''Failed to update project: '' @ message e))))) st)
            = (r, st')"
    show "cachedData (findingsCache st') \<subseteq> cachedData (findingsCache st)"
    proof (cases "pm_status metadata = Completed")
      case True
      then show ?thesis using run by simp
    next
      case False
      then show ?thesis
        using run cacheShrinksD[OF path[of "applyUpdates metadata updates (now st)"], of st r st']
        by simp
    qed
  qed
qed

lemma cacheShrinks_invalidate: "cacheShrinks (invalidateFindingsCache p)"
proof (rule cacheShrinksI)
  fix st r st'
  assume "invalidateFindingsCache p st = (r, st')"
  then have "findingsCache st' = lru_delete (findingsCache st) (p @ ''-findings'')"
    by (auto simp: invalidateFindingsCache_def)
  then show "cachedData (findingsCache st') \<subseteq> cachedData (findingsCache st)"
    using cachedData_delete[of "findingsCache st" "p @ ''-findings''"] by simp
qed

lemma cacheShrinks_mustNotExist: "cacheShrinks (mustNotExist q msg)"
  unfolding mustNotExist_def
  by (intro cacheShrinks_catch cacheShrinks_bind cacheShrinks_fs cacheShrinks_throw
      cacheShrinks_if cacheShrinks_return)

lemma cacheShrinks_cvssStep: "cacheShrinks (cvssStep v)"
  by (rule cacheShrinksI) (auto dest: cvssStep_state)

lemma cacheShrinks_parseFindingFile: "cacheShrinks (parseFindingFile c)"
  by (auto simp: cacheShrinks_def parseFindingFile_def split: content.splits if_splits)

lemma cacheShrinks_writeFinding: "cacheShrinks (writeFinding what p FP fd)"
  unfolding writeFinding_def
  by (intro cacheShrinks_catch cacheShrinks_bind cacheShrinks_fs cacheShrinks_updateProject
      cacheShrinks_invalidate cacheShrinks_return cacheShrinks_ignoreErrors cacheShrinks_throw)

lemma cacheShrinks_getFinding: "cacheShrinks (getFinding p fid)"
  unfolding getFinding_def
  by (intro cacheShrinks_bind cacheShrinks_getProject cacheShrinks_getProjectPath
      cacheShrinks_catch cacheShrinks_fs cacheShrinks_parseFindingFile cacheShrinks_return
      cacheShrinks_if cacheShrinks_throw)

lemma cacheShrinks_createFinding: "cacheShrinks (createFinding p input rid)"
proof -
  have step: "cacheShrinks (bind (cvssStep (cvssString input))
     (\<lambda>score.
        let finding = newFinding input rid t score in
        withLock (''finding-'' @ p @ ''-'' @ f_id finding)
          (bind (getProjectPath p)
          (\<lambda>projectPath.
             bind (mustNotExist (findingPathOf projectPath (f_id finding))
                     (''Finding with ID '' @ [CHR 0x27] @ f_id finding @ [CHR 0x27]
                      @ '' already exists''))
             (\<lambda>_. writeFinding ''create'' p
                     (findingPathOf projectPath (f_id finding)) finding)))))" for t
    unfolding Let_def
    by (intro cacheShrinks_bind cacheShrinks_cvssStep cacheShrinks_withLock
        cacheShrinks_getProjectPath cacheShrinks_mustNotExist cacheShrinks_writeFinding)
  show ?thesis
    unfolding createFinding_def
  proof (rule cacheShrinks_bind, rule cacheShrinks_getProject, rule cacheShrinks_bind,
      rule cacheShrinks_checkProjectNotCompleted, rule cacheShrinksI)
    fix x y st r st'
    assume "bind (cvssStep (cvssString input))
     (\<lambda>score.
        let finding = newFinding input rid (now st) score in
        withLock (''finding-'' @ p @ ''-'' @ f_id finding)
          (bind (getProjectPath p)
          (\<lambda>projectPath.
             bind (mustNotExist (findingPathOf projectPath (f_id finding))
                     (''Finding with ID '' @ [CHR 0x27] @ f_id finding @ [CHR 0x27]
                      @ '' already exists''))
             (\<lambda>_. writeFinding ''create'' p
                     (findingPathOf projectPath (f_id finding)) finding)))) st = (r, st')"
    then show "cachedData (findingsCache st') \<subseteq> cachedData (findingsCache st)"
      by (rule cacheShrinksD[OF step])
  qed
qed

lemma cacheShrinks_updatedScore: "cacheShrinks (updatedScore existing updates)"
  unfolding updatedScore_def
  by (auto split: option.splits intro: cacheShrinks_cvssStep cacheShrinks_return)

lemma cacheShrinks_updateFinding: "cacheShrinks (updateFinding p fid updates)"
proof -
  have step: "cacheShrinks (bind (updatedScore existing updates)
       (\<lambda>score. bind (getProjectPath p)
       (\<lambda>projectPath.
          writeFinding ''update'' p (findingPathOf projectPath fid)
            ((applyFindingUpdates existing updates t)\<lparr>cvssScore := score\<rparr>))))" for existing t
    by (intro cacheShrinks_bind cacheShrinks_updatedScore cacheShrinks_getProjectPath
        cacheShrinks_writeFinding)
  show ?thesis
    unfolding updateFinding_def
  proof (rule cacheShrinks_withLock, rule cacheShrinks_bind, rule cacheShrinks_getFinding,
      rule cacheShrinks_bind, rule cacheShrinks_checkProjectNotCompleted, rule cacheShrinksI)
    fix existing y st r st'
    assume "bind (updatedScore existing updates)
       (\<lambda>score. bind (getProjectPath p)
       (\<lambda>projectPath.
          writeFinding ''update'' p (findingPathOf projectPath fid)
            ((applyFindingUpdates existing updates (now st))\<lparr>cvssScore := score\<rparr>))) st = (r, st')"
    then show "cachedData (findingsCache st') \<subseteq> cachedData (findingsCache st)"
      by (rule cacheShrinksD[OF step])
  qed
qed

lemma cacheShrinks_deleteFinding: "cacheShrinks (deleteFinding p fid)"
  unfolding deleteFinding_def
  by (intro cacheShrinks_withLock cacheShrinks_bind cacheShrinks_getFinding
      cacheShrinks_checkProjectNotCompleted cacheShrinks_getProjectPath cacheShrinks_catch
      cacheShrinks_fs cacheShrinks_updateProject cacheShrinks_invalidate cacheShrinks_throw)

lemma cacheShrinks_holds:
  "cacheShrinks m \<Longrightarrow> m st = (r, st') \<Longrightarrow> cacheHoldsSummaries st \<Longrightarrow> cacheHoldsSummaries st'"
  unfolding cacheHoldsSummaries_def using cacheShrinksD by blast

lemma md_suffix: "suffix ''.md'' ''FIND-a1b2c3d4-sql-injection.md''"
  by (simp add: suffix_def)

lemma listFindings_findingStore:
  "fst (the (listFindings ''pen-test-1'' 10 0 findingStore))
     = Inr [listedFinding (frontmatterOf (newFinding sqlInjection ''a1b2c3d4'' 1000 None))]
   \<and> listFindings ''pen-test-1'' 10 0 findingStore \<noteq> None"
  by (simp add: listFindings_def getDirectoryLastModified_def lru_get_def new_LRUCache_def
      selectPage_def batchSizeOf_def memoryLimitOf_def statBatch_def sortByMtimeDesc_def
      readListed_def parseFindingFile_def findingFile_def sortByUpdatedDesc_def
      isMarkdownFile_def md_suffix
      findingStore_def projectStore_def penTestMetadata_def
      project_defs index_defs fs_defs monad_defs example_defs sanitize_penTest Let_def)

lemma findingStore_cache: "cacheHoldsSummaries findingStore"
  by (simp add: cacheHoldsSummaries_def cachedData_def findingStore_def projectStore_def
      lockedState_def new_LRUCache_def)

lemma sqlInjection_body:
  "extractSection ''Description''
     (withFinalNewline (findingBody ''The login form is injectable.'' (Some [])
        (Some ''Use prepared statements.''))) = Some ''The login form is injectable.''"
  by code_simp

lemma getFinding_findingStore:
  "map_sum id description
     (fst (getFinding ''pen-test-1'' ''FIND-a1b2c3d4-sql-injection'' findingStore))
   = Inr ''The login form is injectable.''"
proof -
  let ?f = "newFinding sqlInjection ''a1b2c3d4'' 1000 None"
  let ?idx = "\<lparr>projects = [(''pen-test-1'', penTestMetadata)], lastActive = None\<rparr>"
  let ?s1 = "findingStore\<lparr>projectIndexCache := Some ?idx\<rparr>"
  have gp: "getProject ''pen-test-1'' findingStore = (Inr penTestMetadata, ?s1)"
    by (rule getProject_from_file[where t = 0])
       (simp_all add: findingStore_def projectStore_def lockedState_def projectIndexPath_def
          path_join_def sanitize_penTest)
  have g: "getFinding ''pen-test-1'' ''FIND-a1b2c3d4-sql-injection'' findingStore
      = (Inr (findingOfFile (frontmatterOf ?f)
           (withFinalNewline (findingBody (description ?f) (evidence ?f) (recommendations ?f)))),
         ?s1)"
    by (rule getFinding_of_file[OF gp, where t = 1000])
       (simp_all add: findingStore_def projectStore_def lockedState_def findingPathOf_def
          path_join_def sanitize_penTest findingFile_def)
  show ?thesis
    unfolding g findingOfFile_frontmatterOf
    by (simp add: newFinding_def sqlInjection_def sqlInjection_body)
qed



end
